(* ===== verification/RO_Prelude.thy ===== *)
theory RO_Prelude
  imports
    Main
    "HOL-Library.Word"
    "HOL-Library.Multiset"
    "HOL-Library.Char_ord"
    "HOL-Library.List_Lexorder"
begin

text \<open>
  Shared material of the development: the error values that stand for GError, the C string
  operations the sources use (three-way comparison, prefixes, decimal and hexadecimal rendering),
  the interface of three-way comparison functions (\<open>comparator\<close>) that sorting and merging rely
  on, and generic list lemmas.
\<close>

named_theorems str_simps \<open>equations of the C string operations\<close>
named_theorems ro_defs \<open>definitions of small operations that proofs unfold routinely\<close>

section \<open>Errors as values\<close>

text \<open>
  A function of the sources that reports failure through \<open>GError **error\<close> returns a value of the
  sum type: \<open>Inl\<close> carries the error. \<open>Throw fmt args\<close> is \<open>glnx_throw\<close> or \<open>g_set_error\<close> with its format and
  arguments; \<open>External what\<close> is an error that a library call handed back; \<open>Prefixed msg e\<close> is an error
  after \<open>g_prefix_error\<close>; \<open>Abort what\<close> is the process stopping at a failed assertion or a null dereference,
  which no caller can prefix or handle.
\<close>

datatype gerror = Throw string "string list" | External string | Prefixed string gerror | Abort string

type_synonym 'a result = "gerror + 'a"
type_synonym u64 = "64 word"
type_synonym u32 = "32 word"

primrec bindR :: "'e + 'a \<Rightarrow> ('a \<Rightarrow> 'e + 'b) \<Rightarrow> 'e + 'b" where
  "bindR (Inl e) f = Inl e"
| "bindR (Inr a) f = f a"

lemma bindR_Inr_iff: "bindR m f = Inr b \<longleftrightarrow> (\<exists>a. m = Inr a \<and> f a = Inr b)"
  by (cases m) auto

lemma bindR_Inl_iff: "bindR m f = Inl e \<longleftrightarrow> m = Inl e \<or> (\<exists>a. m = Inr a \<and> f a = Inl e)"
  by (cases m) auto

lemma bindR_cong [fundef_cong]:
  "m = m' \<Longrightarrow> (\<And>a. m' = Inr a \<Longrightarrow> f a = g a) \<Longrightarrow> bindR m f = bindR m' g"
  by (cases m') auto

fun prefix_error :: "string \<Rightarrow> 'a result \<Rightarrow> 'a result" where
  "prefix_error msg (Inr a) = Inr a"
| "prefix_error msg (Inl (Abort what)) = Inl (Abort what)"
| "prefix_error msg (Inl e) = Inl (Prefixed msg e)"

lemma prefix_error_Inr_iff [simp]: "prefix_error msg m = Inr a \<longleftrightarrow> m = Inr a"
  by (induction msg m rule: prefix_error.induct) auto

lemma prefix_error_Abort_iff [simp]: "prefix_error msg m = Inl (Abort what) \<longleftrightarrow> m = Inl (Abort what)"
  by (induction msg m rule: prefix_error.induct) auto

text \<open>A computation is \<open>safe\<close> when it does not stop the process.\<close>

definition safe :: "'a result \<Rightarrow> bool" where
  "safe m = (case m of Inl (Abort _) \<Rightarrow> False | _ \<Rightarrow> True)"

lemma safe_simps [simp]:
  "safe (Inr a)" "safe (Inl (Throw f as))" "safe (Inl (External w))" "safe (Inl (Prefixed p e))"
  "\<not> safe (Inl (Abort w))"
  by (simp_all add: safe_def)

lemma safe_bindR: "safe (bindR m f) \<longleftrightarrow> safe m \<and> (\<forall>a. m = Inr a \<longrightarrow> safe (f a))"
  by (cases m) (auto simp: safe_def split: gerror.splits)

lemma safe_prefix_error [simp]: "safe (prefix_error p m) \<longleftrightarrow> safe m"
  by (induction p m rule: prefix_error.induct) simp_all

section \<open>C strings\<close>

abbreviation code :: "char \<Rightarrow> nat" where
  "code c \<equiv> of_char c"

lemma code_less [simp]: "code c < 256"
  by (rule of_char_of [THEN subst, where P = "\<lambda>_. code c < 256"]) simp_all

lemma code_inj [simp]: "code a = code b \<longleftrightarrow> a = b"
  by (simp add: of_char_eq_iff)

text \<open>\<open>strcmp\<close> compares bytes as unsigned values; a proper prefix is smaller.\<close>

fun strcmp :: "string \<Rightarrow> string \<Rightarrow> int" where
  "strcmp [] [] = 0"
| "strcmp [] (y # ys) = -1"
| "strcmp (x # xs) [] = 1"
| "strcmp (x # xs) (y # ys) =
     (if code x < code y then -1 else if code y < code x then 1 else strcmp xs ys)"

fun has_prefix :: "string \<Rightarrow> string \<Rightarrow> bool" where
  "has_prefix s [] = True"
| "has_prefix [] (p # ps) = False"
| "has_prefix (c # s) (p # ps) = (c = p \<and> has_prefix s ps)"

lemma has_prefix_iff: "has_prefix s p \<longleftrightarrow> (\<exists>r. s = p @ r)"
  by (induction s p rule: has_prefix.induct) auto

lemma has_prefix_append [simp]: "has_prefix (p @ r) p"
  by (auto simp: has_prefix_iff)

lemma has_prefix_take: "has_prefix s p \<longleftrightarrow> take (length p) s = p \<and> length p \<le> length s"
  by (induction s p rule: has_prefix.induct) auto


subsection \<open>Decimal and hexadecimal rendering\<close>

definition digit :: "nat \<Rightarrow> char" where
  "digit d = char_of (if d < 10 then 48 + d else 55 + d)"

fun show_nat :: "nat \<Rightarrow> string" where
  "show_nat n = (if n < 10 then [digit n] else show_nat (n div 10) @ [digit (n mod 10)])"

declare show_nat.simps [simp del]

text \<open>\<open>printf ("%02X", n)\<close> for \<open>n < 256\<close>, and the eight digits a larger unsigned int has.\<close>

definition hex2 :: "nat \<Rightarrow> string" where
  "hex2 n = [digit (n div 16 mod 16), digit (n mod 16)]"

definition is_digit :: "char \<Rightarrow> bool" where
  "is_digit c \<longleftrightarrow> 48 \<le> code c \<and> code c \<le> 57"

definition ascii_isalnum :: "char \<Rightarrow> bool" where
  "ascii_isalnum c \<longleftrightarrow> is_digit c \<or> (65 \<le> code c \<and> code c \<le> 90) \<or> (97 \<le> code c \<and> code c \<le> 122)"

definition ascii_lower :: "char \<Rightarrow> char" where
  "ascii_lower c = (if 65 \<le> code c \<and> code c \<le> 90 then char_of (code c + 32) else c)"

lemma code_digit: "d < 16 \<Longrightarrow> code (digit d) = (if d < 10 then 48 + d else 55 + d)"
  by (simp add: digit_def)

lemma digit_0: "digit 0 = CHR ''0''"
  by (simp add: code_digit flip: code_inj)

lemma digit_simps [str_simps]:
  "digit 0 = CHR ''0''" "digit 1 = CHR ''1''" "digit (Suc 0) = CHR ''1''" "digit 2 = CHR ''2''"
  "digit 3 = CHR ''3''" "digit 4 = CHR ''4''" "digit 5 = CHR ''5''" "digit 6 = CHR ''6''"
  "digit 7 = CHR ''7''" "digit 8 = CHR ''8''" "digit 9 = CHR ''9''"
  by (simp_all add: code_digit flip: code_inj)

lemma digit_inj: "a < 16 \<Longrightarrow> b < 16 \<Longrightarrow> digit a = digit b \<longleftrightarrow> a = b"
  using code_digit [of a] code_digit [of b] by (auto split: if_splits simp flip: code_inj)

lemma is_digit_digit: "d < 10 \<Longrightarrow> is_digit (digit d)"
  by (simp add: is_digit_def code_digit)

lemma show_nat_nonempty [simp]: "show_nat n \<noteq> []"
  by (subst show_nat.simps) simp

lemma show_nat_digits: "c \<in> set (show_nat n) \<Longrightarrow> is_digit c"
proof (induction n rule: show_nat.induct)
  case (1 n)
  then show ?case
    by (cases "n < 10") (auto simp: show_nat.simps [of n] is_digit_digit)
qed

text \<open>
  \<open>g_ascii_strtoull (s, NULL, 10)\<close>: leading digits only, saturating at \<open>ULLONG_MAX\<close>; the callers
  here pass strings that start with neither white space nor a sign, for which it stops at once and
  gives 0 like any other non-digit.
\<close>

fun digits_value :: "nat \<Rightarrow> string \<Rightarrow> nat" where
  "digits_value acc [] = acc"
| "digits_value acc (c # s) =
     (if is_digit c then digits_value (10 * acc + (code c - 48)) s else acc)"

lemma digits_value_app_digit:
  "\<forall>c \<in> set s. is_digit c \<Longrightarrow> d < 10 \<Longrightarrow>
   digits_value acc (s @ [digit d]) = 10 * digits_value acc s + d"
  by (induction acc s rule: digits_value.induct) (auto simp: is_digit_digit code_digit)

lemma digits_value_show_nat: "digits_value 0 (show_nat n) = n"
proof (induction n rule: show_nat.induct)
  case (1 n)
  show ?case
  proof (cases "n < 10")
    case True
    then show ?thesis by (simp add: show_nat.simps [of n] is_digit_digit code_digit)
  next
    case False
    then have "digits_value 0 (show_nat n) = 10 * digits_value 0 (show_nat (n div 10)) + n mod 10"
      by (subst show_nat.simps) (simp add: digits_value_app_digit show_nat_digits)
    with False 1 show ?thesis by simp
  qed
qed

lemma show_nat_inj: "show_nat a = show_nat b \<longleftrightarrow> a = b"
  by (metis digits_value_show_nat)

section \<open>Three-way comparison functions\<close>

text \<open>
  The interface of the comparison callbacks (\<open>strcmp\<close>, the EVR comparison of librpm, the package
  comparisons built from them): the sign swaps with the arguments and "not after" is transitive.
  Sorting and merging rely on these laws only.
\<close>

locale comparator =
  fixes cmp :: "'a \<Rightarrow> 'a \<Rightarrow> int"
  assumes cmp_swap: "sgn (cmp b a) = - sgn (cmp a b)"
    and cmp_trans: "cmp a b \<le> 0 \<Longrightarrow> cmp b c \<le> 0 \<Longrightarrow> cmp a c \<le> 0"
begin

lemma cmp_refl: "cmp a a = 0"
  using cmp_swap [of a a] by (simp add: sgn_if split: if_splits)

lemma cmp_pos_iff: "0 < cmp a b \<longleftrightarrow> cmp b a < 0"
  using cmp_swap [of a b] by (auto simp: sgn_if split: if_splits)

lemma cmp_zero_sym: "cmp a b = 0 \<longleftrightarrow> cmp b a = 0"
  using cmp_swap [of a b] by (auto simp: sgn_if split: if_splits)

lemma cmp_total: "cmp a b \<le> 0 \<or> cmp b a \<le> 0"
  using cmp_pos_iff [of a b] by linarith

lemma cmp_le_less_trans: "cmp a b \<le> 0 \<Longrightarrow> cmp b c < 0 \<Longrightarrow> cmp a c < 0"
  using cmp_trans [of c a b] cmp_trans [of a b c] cmp_pos_iff [of c b] cmp_pos_iff [of a c]
    cmp_zero_sym [of a c] by fastforce

lemma cmp_less_le_trans: "cmp a b < 0 \<Longrightarrow> cmp b c \<le> 0 \<Longrightarrow> cmp a c < 0"
  using cmp_trans [of b c a] cmp_trans [of a b c] cmp_pos_iff [of b a] cmp_pos_iff [of a c]
    cmp_zero_sym [of a c] by fastforce

lemma cmp_zero_cong: "cmp a b = 0 \<Longrightarrow> cmp a c < 0 \<longleftrightarrow> cmp b c < 0"
  using cmp_le_less_trans [of a b c] cmp_le_less_trans [of b a c] cmp_zero_sym [of a b] by auto

end

text \<open>\<open>g_ptr_array_sort\<close> with a comparison callback: a stable sort.\<close>

fun insort_by :: "('a \<Rightarrow> 'a \<Rightarrow> int) \<Rightarrow> 'a \<Rightarrow> 'a list \<Rightarrow> 'a list" where
  "insort_by cmp x [] = [x]"
| "insort_by cmp x (y # ys) = (if cmp x y \<le> 0 then x # y # ys else y # insort_by cmp x ys)"

fun sort_by :: "('a \<Rightarrow> 'a \<Rightarrow> int) \<Rightarrow> 'a list \<Rightarrow> 'a list" where
  "sort_by cmp [] = []"
| "sort_by cmp (x # xs) = insort_by cmp x (sort_by cmp xs)"

abbreviation sorted_by :: "('a \<Rightarrow> 'a \<Rightarrow> int) \<Rightarrow> 'a list \<Rightarrow> bool" where
  "sorted_by cmp \<equiv> sorted_wrt (\<lambda>a b. cmp a b \<le> 0)"

lemma mset_insort_by [simp]: "mset (insort_by cmp x xs) = add_mset x (mset xs)"
  by (induction xs) auto

lemma mset_sort_by [simp]: "mset (sort_by cmp xs) = mset xs"
  by (induction xs) auto

lemma set_insort_by [simp]: "set (insort_by cmp x xs) = insert x (set xs)"
  by (induction xs) auto

lemma set_sort_by [simp]: "set (sort_by cmp xs) = set xs"
  by (induction xs) auto

lemma sort_by_Nil_iff [simp]: "sort_by cmp xs = [] \<longleftrightarrow> xs = []"
  by (metis mset_sort_by mset_zero_iff)

lemma length_sort_by [simp]: "length (sort_by cmp xs) = length xs"
  using mset_sort_by [of cmp xs] by (metis size_mset)

context comparator
begin

lemma sorted_insort_by: "sorted_by cmp xs \<Longrightarrow> sorted_by cmp (insort_by cmp x xs)"
proof (induction xs)
  case (Cons y ys)
  then show ?case
    using cmp_total [of x y] by (auto intro: cmp_trans)
qed simp

lemma sorted_sort_by: "sorted_by cmp (sort_by cmp xs)"
  by (induction xs) (simp_all add: sorted_insort_by)

lemma insort_by_front: "\<forall>y \<in> set ys. cmp x y \<le> 0 \<Longrightarrow> insort_by cmp x ys = x # ys"
  by (cases ys) auto

lemma sort_by_sorted_id: "sorted_by cmp xs \<Longrightarrow> sort_by cmp xs = xs"
  by (induction xs) (auto simp: insort_by_front)

end

lemma strcmp_less_iff: "strcmp a b < 0 \<longleftrightarrow> a < b"
proof (induction a b rule: strcmp.induct)
  case (4 x xs y ys)
  then show ?case by (auto simp: less_char_def)
qed (simp_all)

lemma strcmp_zero_iff [simp]: "strcmp a b = 0 \<longleftrightarrow> a = b"
proof (induction a b rule: strcmp.induct)
  case (4 x xs y ys)
  then show ?case by (cases "code x = code y") auto
qed simp_all

lemma strcmp_swap: "strcmp b a = - strcmp a b"
  by (induction a b rule: strcmp.induct) auto

lemma strcmp_pos_iff: "0 < strcmp a b \<longleftrightarrow> b < a"
  using strcmp_less_iff [of b a] strcmp_swap [of a b] by linarith

lemma strcmp_le_iff: "strcmp a b \<le> 0 \<longleftrightarrow> a \<le> b"
  using strcmp_pos_iff [of a b] by (auto simp: not_less [symmetric])

interpretation strcmp: comparator strcmp
proof
  show "sgn (strcmp b a) = - sgn (strcmp a b)" for a b
    by (simp add: strcmp_swap [of b a])
  show "strcmp a b \<le> 0 \<Longrightarrow> strcmp b c \<le> 0 \<Longrightarrow> strcmp a c \<le> 0" for a b c
    by (simp add: strcmp_le_iff)
qed

text \<open>Comparing by one key first and by another where the first ties.\<close>

definition cmp_then :: "('a \<Rightarrow> 'a \<Rightarrow> int) \<Rightarrow> ('a \<Rightarrow> 'a \<Rightarrow> int) \<Rightarrow> 'a \<Rightarrow> 'a \<Rightarrow> int" where
  "cmp_then c d a b = (if c a b \<noteq> 0 then c a b else d a b)"

lemma comparator_on: "comparator c \<Longrightarrow> comparator (\<lambda>a b. c (f a) (f b))"
  unfolding comparator_def by blast

lemma comparator_then:
  assumes "comparator c" and "comparator d"
  shows "comparator (cmp_then c d)"
proof -
  note c = comparator.cmp_swap [OF assms(1)] comparator.cmp_zero_sym [OF assms(1)]
  note less = comparator.cmp_le_less_trans [OF assms(1)] comparator.cmp_less_le_trans [OF assms(1)]
  note d = comparator.cmp_swap [OF assms(2)]
  show ?thesis
  proof
    show "sgn (cmp_then c d b a) = - sgn (cmp_then c d a b)" for a b
      using c [of b a] d [of b a] by (auto simp: cmp_then_def)
  next
    fix x y z
    assume le: "cmp_then c d x y \<le> 0" "cmp_then c d y z \<le> 0"
    then have xy: "c x y \<le> 0" "c x y = 0 \<Longrightarrow> d x y \<le> 0" and yz: "c y z \<le> 0" "c y z = 0 \<Longrightarrow> d y z \<le> 0"
      by (auto simp: cmp_then_def split: if_splits)
    have xz: "c x z \<le> 0" using comparator.cmp_trans [OF assms(1) xy(1) yz(1)] .
    show "cmp_then c d x z \<le> 0"
    proof (cases "c x z = 0")
      case True
      have "\<not> c y z < 0" using less(1) [OF xy(1), of z] True by linarith
      moreover have "\<not> c x y < 0" using less(2) [OF _ yz(1), of x] True by linarith
      ultimately have "c x y = 0" "c y z = 0"
        using xy(1) yz(1) by linarith+
      with xy(2) yz(2) True show ?thesis
        using comparator.cmp_trans [OF assms(2), of x y z] by (simp add: cmp_then_def)
    qed (use xz in \<open>simp add: cmp_then_def\<close>)
  qed
qed

section \<open>Event machines\<close>

text \<open>
  Daemon components are event machines: an event that is enabled in a state is handled by a step, and a
  step that returns \<open>Inl\<close> has stopped the process. The interface asks for an invariant that every enabled
  event can be handled in and keeps.
\<close>

inductive reach :: "('s \<Rightarrow> bool) \<Rightarrow> ('e \<Rightarrow> 's \<Rightarrow> bool) \<Rightarrow> ('e \<Rightarrow> 's \<Rightarrow> 's result) \<Rightarrow> 's \<Rightarrow> bool"
  for init enabled step where
  reach_init: "init s \<Longrightarrow> reach init enabled step s"
| reach_step: "reach init enabled step s \<Longrightarrow> enabled e s \<Longrightarrow> step e s = Inr s' \<Longrightarrow> reach init enabled step s'"

locale safe_machine =
  fixes init :: "'s \<Rightarrow> bool"
    and enabled :: "'e \<Rightarrow> 's \<Rightarrow> bool"
    and step :: "'e \<Rightarrow> 's \<Rightarrow> 's result"
    and invariant :: "'s \<Rightarrow> bool"
  assumes init_invariant: "init s \<Longrightarrow> invariant s"
    and step_invariant: "invariant s \<Longrightarrow> enabled e s \<Longrightarrow> \<exists>s'. step e s = Inr s' \<and> invariant s'"
begin

lemma reach_invariant: "reach init enabled step s \<Longrightarrow> invariant s"
proof (induction rule: reach.induct)
  case (reach_step s e s')
  then show ?case using step_invariant [of s e] by auto
qed (rule init_invariant)

lemma reach_no_abort: "reach init enabled step s \<Longrightarrow> enabled e s \<Longrightarrow> \<exists>s'. step e s = Inr s' \<and> reach init enabled step s'"
  using step_invariant [OF reach_invariant] reach.reach_step by metis

end

end
