(* ===== verification/Nevra.thy ===== *)
theory Nevra
  imports RO_Prelude
begin

text \<open>
  Package identifiers of \<^verbatim>\<open>src/src/libpriv/rpmostree-rpm-util.cxx\<close>: the NEVRA strings built from an RPM
  header, the quoting that maps a NEVRA to the ostree branch of the package cache, its inverse on
  the Rust side, the \<open>sha256:nevra\<close> form of origin files, and the pattern filter of
  \<^verbatim>\<open>rpm-ostree db list\<close>.
\<close>

unbundle bit_operations_syntax

section \<open>Headers and NEVRA strings\<close>

text \<open>The tags of an RPM header that the sources read.\<close>

record Header =
  h_name :: string
  h_epoch :: u64
  h_version :: string
  h_release :: string
  h_arch :: string
  h_sourcerpm :: string
  h_changelogs :: "(u64 \<times> string \<times> string) list"

text \<open>The enum \<open>RpmOstreePkgNevraFlags\<close>.\<close>

type_synonym RpmOstreePkgNevraFlags = u32

definition PKG_NEVRA_FLAGS_NAME :: RpmOstreePkgNevraFlags where
  "PKG_NEVRA_FLAGS_NAME = 1"

definition PKG_NEVRA_FLAGS_EPOCH_VERSION_RELEASE :: RpmOstreePkgNevraFlags where
  "PKG_NEVRA_FLAGS_EPOCH_VERSION_RELEASE = 2"

definition PKG_NEVRA_FLAGS_EVR :: RpmOstreePkgNevraFlags where
  "PKG_NEVRA_FLAGS_EVR = PKG_NEVRA_FLAGS_EPOCH_VERSION_RELEASE"

definition PKG_NEVRA_FLAGS_VERSION_RELEASE :: RpmOstreePkgNevraFlags where
  "PKG_NEVRA_FLAGS_VERSION_RELEASE = 4"

definition PKG_NEVRA_FLAGS_ARCH :: RpmOstreePkgNevraFlags where
  "PKG_NEVRA_FLAGS_ARCH = 8"

lemmas nevra_flags = PKG_NEVRA_FLAGS_NAME_def PKG_NEVRA_FLAGS_EPOCH_VERSION_RELEASE_def
  PKG_NEVRA_FLAGS_EVR_def PKG_NEVRA_FLAGS_VERSION_RELEASE_def PKG_NEVRA_FLAGS_ARCH_def

definition header_name_cmp :: "Header \<Rightarrow> Header \<Rightarrow> int" where
  "header_name_cmp h1 h2 = strcmp (h_name h1) (h_name h2)"

definition pkg_envra_strdup :: "Header \<Rightarrow> string" where
  "pkg_envra_strdup h =
     (if h_epoch h = 0
      then h_name h @ ''-'' @ h_version h @ ''-'' @ h_release h @ ''.'' @ h_arch h
      else show_nat (unat (h_epoch h)) @ '':'' @ h_name h @ ''-'' @ h_version h @ ''-'' @
           h_release h @ ''.'' @ h_arch h)"

text \<open>The \<open>GString\<close> buffer is passed in and returned.\<close>

definition rpmostree_custom_nevra ::
  "string \<Rightarrow> string \<Rightarrow> u64 \<Rightarrow> string \<Rightarrow> string \<Rightarrow> string \<Rightarrow> RpmOstreePkgNevraFlags \<Rightarrow> string" where
  "rpmostree_custom_nevra buffer name epoch version release arch flags =
     (let original_len = length buffer;
          buffer = (if flags AND PKG_NEVRA_FLAGS_NAME \<noteq> 0 then buffer @ name else buffer);
          buffer =
            (if flags AND (PKG_NEVRA_FLAGS_EPOCH_VERSION_RELEASE OR PKG_NEVRA_FLAGS_VERSION_RELEASE) \<noteq> 0
             then (let buffer = (if length buffer > original_len then buffer @ ''-'' else buffer);
                       buffer = (if flags AND PKG_NEVRA_FLAGS_EPOCH_VERSION_RELEASE \<noteq> 0 \<and> epoch > 0
                                 then buffer @ show_nat (unat epoch) @ '':'' else buffer)
                   in buffer @ version @ ''-'' @ release)
             else buffer)
      in if flags AND PKG_NEVRA_FLAGS_ARCH \<noteq> 0
         then (if length buffer > original_len then buffer @ ''.'' else buffer) @ arch
         else buffer)"

definition rpmostree_custom_nevra_strdup ::
  "string \<Rightarrow> u64 \<Rightarrow> string \<Rightarrow> string \<Rightarrow> string \<Rightarrow> RpmOstreePkgNevraFlags \<Rightarrow> string" where
  "rpmostree_custom_nevra_strdup = rpmostree_custom_nevra []"

definition rpmostree_header_custom_nevra_strdup :: "Header \<Rightarrow> RpmOstreePkgNevraFlags \<Rightarrow> string" where
  "rpmostree_header_custom_nevra_strdup h =
     rpmostree_custom_nevra_strdup (h_name h) (h_epoch h) (h_version h) (h_release h) (h_arch h)"

definition pkg_nevra_strdup :: "Header \<Rightarrow> string" where
  "pkg_nevra_strdup h = rpmostree_header_custom_nevra_strdup h
     (PKG_NEVRA_FLAGS_NAME OR PKG_NEVRA_FLAGS_EVR OR PKG_NEVRA_FLAGS_ARCH)"

definition pkg_na_strdup :: "Header \<Rightarrow> string" where
  "pkg_na_strdup h = rpmostree_header_custom_nevra_strdup h (PKG_NEVRA_FLAGS_NAME OR PKG_NEVRA_FLAGS_ARCH)"

definition pkg_nvr_strdup :: "Header \<Rightarrow> string" where
  "pkg_nvr_strdup h = rpmostree_header_custom_nevra_strdup h
     (PKG_NEVRA_FLAGS_NAME OR PKG_NEVRA_FLAGS_VERSION_RELEASE)"

definition pkg_evra_strdup :: "Header \<Rightarrow> string" where
  "pkg_evra_strdup h = rpmostree_header_custom_nevra_strdup h
     (PKG_NEVRA_FLAGS_EPOCH_VERSION_RELEASE OR PKG_NEVRA_FLAGS_ARCH)"

text \<open>The EVR the cache branch is built from; a zero epoch is left out.\<close>

definition evr_string :: "u64 \<Rightarrow> string \<Rightarrow> string \<Rightarrow> string" where
  "evr_string epoch version release =
     (if epoch > 0 then show_nat (unat epoch) @ '':'' else []) @ version @ ''-'' @ release"

lemmas custom_nevra_defs = rpmostree_custom_nevra_def rpmostree_custom_nevra_strdup_def
  rpmostree_header_custom_nevra_strdup_def nevra_flags evr_string_def

lemma pkg_nevra_strdup_eq:
  "h_name h \<noteq> [] \<Longrightarrow> pkg_nevra_strdup h =
     h_name h @ ''-'' @ evr_string (h_epoch h) (h_version h) (h_release h) @ ''.'' @ h_arch h"
  by (simp add: pkg_nevra_strdup_def custom_nevra_defs Let_def)

lemma pkg_na_strdup_eq: "h_name h \<noteq> [] \<Longrightarrow> pkg_na_strdup h = h_name h @ ''.'' @ h_arch h"
  by (simp add: pkg_na_strdup_def custom_nevra_defs Let_def)

lemma pkg_nvr_strdup_eq:
  "h_name h \<noteq> [] \<Longrightarrow> pkg_nvr_strdup h = h_name h @ ''-'' @ h_version h @ ''-'' @ h_release h"
  by (simp add: pkg_nvr_strdup_def custom_nevra_defs Let_def)

lemma pkg_evra_strdup_eq:
  "pkg_evra_strdup h = evr_string (h_epoch h) (h_version h) (h_release h) @ ''.'' @ h_arch h"
  by (simp add: pkg_evra_strdup_def custom_nevra_defs Let_def)

lemma custom_nevra_appends:
  "rpmostree_custom_nevra buffer name epoch version release arch flags =
     buffer @ rpmostree_custom_nevra_strdup name epoch version release arch flags"
  by (simp add: rpmostree_custom_nevra_def rpmostree_custom_nevra_strdup_def Let_def)

interpretation header_name: comparator header_name_cmp
  using comparator_on [OF strcmp.comparator_axioms, of h_name]
  by (simp add: header_name_cmp_def [abs_def])


section \<open>Cache branches\<close>

text \<open>
  \<open>append_quoted\<close> renders a byte that is neither alphanumeric nor one of \<open>. - _\<close> with
  \<open>printf ("_%02X", c)\<close>. The argument is a plain \<open>char\<close>, which is signed on the x86-64 ABI, so a byte
  above 127 is sign-extended and prints as eight digits.
\<close>

definition hexfmt :: "char \<Rightarrow> string" where
  "hexfmt c = (if code c < 128 then hex2 (code c) else ''FFFFFF'' @ hex2 (code c))"

definition quote_char :: "char \<Rightarrow> string" where
  "quote_char c =
     (if c = CHR ''.'' \<or> c = CHR ''-'' then [c]
      else if ascii_isalnum c then [c]
      else if c = CHR ''_'' then ''__''
      else CHR ''_'' # hexfmt c)"

fun append_quoted :: "string \<Rightarrow> string \<Rightarrow> string" where
  "append_quoted r [] = r"
| "append_quoted r (c # p) = append_quoted (r @ quote_char c) p"

definition get_branch_for_n_evr_a :: "string \<Rightarrow> string \<Rightarrow> string \<Rightarrow> string \<Rightarrow> string" where
  "get_branch_for_n_evr_a type name evr arch =
     (let r = ''rpmostree/'' @ type @ ''/'';
          r = append_quoted r name @ ''/'';
          evr = (if has_prefix evr ''0:'' then drop 2 evr else evr);
          r = append_quoted r evr @ ''.''
      in append_quoted r arch)"

definition rpmostree_get_cache_branch_for_n_evr_a :: "string \<Rightarrow> string \<Rightarrow> string \<Rightarrow> string" where
  "rpmostree_get_cache_branch_for_n_evr_a name evr arch = get_branch_for_n_evr_a ''pkg'' name evr arch"

text \<open>
  \<open>hy_split_nevra\<close> of libdnf is a parameter; \<open>None\<close> is its nonzero return. The \<open>int\<close> epoch is widened
  to \<open>guint64\<close>.
\<close>

type_synonym split_nevra = "string \<Rightarrow> (string \<times> int \<times> string \<times> string \<times> string) option"

definition rpmostree_decompose_nevra ::
  "split_nevra \<Rightarrow> string \<Rightarrow> (string \<times> u64 \<times> string \<times> string \<times> string) result" where
  "rpmostree_decompose_nevra hy_split_nevra nevra =
     (case hy_split_nevra nevra of
        None \<Rightarrow> Inl (Throw ''Failed to decompose NEVRA string '' [nevra])
      | Some (name, epoch, version, release, arch) \<Rightarrow>
          Inr (name, word_of_int epoch, version, release, arch))"

definition rpmostree_is_valid_nevra :: "split_nevra \<Rightarrow> string \<Rightarrow> bool" where
  "rpmostree_is_valid_nevra hy_split_nevra subject =
     (case rpmostree_decompose_nevra hy_split_nevra subject of Inl _ \<Rightarrow> False | Inr _ \<Rightarrow> True)"

definition nevra_to_cache_branch :: "split_nevra \<Rightarrow> string \<Rightarrow> string result" where
  "nevra_to_cache_branch hy_split_nevra nevra =
     bindR (rpmostree_decompose_nevra hy_split_nevra nevra) (\<lambda>(name, epoch, version, release, arch).
       let evr = rpmostree_custom_nevra_strdup name epoch version release arch PKG_NEVRA_FLAGS_EVR
       in Inr (rpmostree_get_cache_branch_for_n_evr_a name evr arch))"

text \<open>
  The inverse, \<open>cache_branch_to_nevra\<close> in \<^verbatim>\<open>src/rust/src/rpmutils.rs\<close>. A malformed quotation ends the
  loop early; a missing prefix panics.
\<close>

definition hexval :: "char \<Rightarrow> nat option" where
  "hexval c = (if 48 \<le> code c \<and> code c \<le> 57 then Some (code c - 48)
               else if 65 \<le> code c \<and> code c \<le> 70 then Some (code c - 65 + 10) else None)"

fun unquote_loop :: "string \<Rightarrow> string" where
  "unquote_loop [] = []"
| "unquote_loop (c # s) =
     (if c \<noteq> CHR ''_'' then (if c = CHR ''/'' then CHR ''-'' else c) # unquote_loop s
      else (case s of
              [] \<Rightarrow> []
            | d # s' \<Rightarrow>
                if d = CHR ''_'' then CHR ''_'' # unquote_loop s'
                else (case hexval d of
                        None \<Rightarrow> []
                      | Some b \<Rightarrow>
                          (case s' of
                             [] \<Rightarrow> []
                           | e # s'' \<Rightarrow>
                               (case hexval e of
                                  None \<Rightarrow> []
                                | Some l \<Rightarrow> char_of (b * 16 + l) # unquote_loop s'')))))"

definition cache_branch_to_nevra :: "string \<Rightarrow> string result" where
  "cache_branch_to_nevra nevra =
     (let prefix = ''rpmostree/pkg/''
      in if has_prefix nevra prefix then Inr (unquote_loop (drop (length prefix) nevra))
         else Inl (Throw ''{} prefix'' [prefix]))"

subsection \<open>The quotation is a prefix code\<close>

text \<open>
  The interface of a character encoding whose words can be told apart when they follow each other:
  concatenations of words determine the word sequence.
\<close>

locale prefix_code =
  fixes enc :: "'a \<Rightarrow> 'b list"
  assumes enc_nonempty: "enc a \<noteq> []"
    and enc_cancel: "enc a @ r = enc b @ s \<Longrightarrow> a = b \<and> r = s"
begin

lemma concat_enc_inj: "concat (map enc xs) = concat (map enc ys) \<Longrightarrow> xs = ys"
proof (induction xs arbitrary: ys)
  case Nil
  then show ?case using enc_nonempty by (cases ys) auto
next
  case (Cons x xs)
  show ?case
  proof (cases ys)
    case Nil
    with Cons.prems enc_nonempty show ?thesis by auto
  next
    case (Cons y ys')
    with Cons.prems have "enc x @ concat (map enc xs) = enc y @ concat (map enc ys')" by simp
    from enc_cancel [OF this] Cons Cons.IH [of ys'] show ?thesis by simp
  qed
qed

end

lemma hex2_inj: "a < 256 \<Longrightarrow> b < 256 \<Longrightarrow> hex2 a = hex2 b \<Longrightarrow> a = b"
proof -
  assume "a < 256" "b < 256" "hex2 a = hex2 b"
  then have "a div 16 = b div 16" "a mod 16 = b mod 16"
    using digit_inj [of "a div 16" "b div 16"] digit_inj [of "a mod 16" "b mod 16"]
    by (auto simp: hex2_def)
  then show "a = b" by (metis div_mult_mod_eq)
qed

lemma hex2_high: "a < 128 \<Longrightarrow> hd (hex2 a) \<noteq> CHR ''F''"
  using code_digit [of "a div 16"] by (auto simp: hex2_def simp flip: code_inj)

lemma hexfmt_cancel: "hexfmt a @ r = hexfmt b @ s \<Longrightarrow> a = b \<and> r = s"
proof -
  assume eq: "hexfmt a @ r = hexfmt b @ s"
  have len: "length (hex2 n) = 2" for n by (simp add: hex2_def)
  have hd: "hd (hexfmt c @ t) = CHR ''F'' \<longleftrightarrow> 128 \<le> code c" for c t
    using hex2_high [of "code c"] by (auto simp: hexfmt_def hex2_def)
  have "code a < 128 \<longleftrightarrow> code b < 128"
    using hd [of a r] hd [of b s] eq by force
  with eq have "hex2 (code a) @ r = hex2 (code b) @ s"
    by (auto simp: hexfmt_def split: if_splits)
  then have "hex2 (code a) = hex2 (code b)" "r = s"
    by (simp_all add: len append_eq_append_conv)
  with hex2_inj [of "code a" "code b"] show ?thesis by simp
qed

lemma hexfmt_nonempty: "hexfmt c \<noteq> []"
  by (simp add: hexfmt_def hex2_def)

lemma hexfmt_hd: "hd (hexfmt c) \<noteq> CHR ''_''"
  using code_digit [of "code c div 16 mod 16"]
  by (auto simp: hexfmt_def hex2_def simp flip: code_inj split: if_splits)

lemma quote_char_cases:
  obtains (plain) "quote_char c = [c]" "c \<noteq> CHR ''_''" "c \<noteq> CHR ''/''"
  | (under) "quote_char c = ''__''" "c = CHR ''_''"
  | (hex) "quote_char c = CHR ''_'' # hexfmt c" "c \<noteq> CHR ''_''"
proof -
  have "\<not> ascii_isalnum (CHR ''_'')" "\<not> ascii_isalnum (CHR ''/'')"
    by (simp_all add: ascii_isalnum_def is_digit_def)
  then have "(quote_char c = [c] \<and> c \<noteq> CHR ''_'' \<and> c \<noteq> CHR ''/'') \<or>
    (quote_char c = ''__'' \<and> c = CHR ''_'') \<or> (quote_char c = CHR ''_'' # hexfmt c \<and> c \<noteq> CHR ''_'')"
    by (auto simp: quote_char_def)
  with that show thesis by blast
qed

interpretation quote: prefix_code quote_char
proof
  show "quote_char a \<noteq> []" for a by (simp add: quote_char_def)
next
  fix a b r s
  assume eq: "quote_char a @ r = quote_char b @ s"
  have ne: "hexfmt c @ t \<noteq> CHR ''_'' # u" "CHR ''_'' # u \<noteq> hexfmt c @ t" for c t u
    using hexfmt_hd [of c] hexfmt_nonempty [of c] by (cases "hexfmt c"; force)+
  show "a = b \<and> r = s"
    by (cases a rule: quote_char_cases; cases b rule: quote_char_cases)
       (use eq ne in \<open>auto dest: hexfmt_cancel\<close>)
qed

lemma append_quoted_eq: "append_quoted r s = r @ concat (map quote_char s)"
  by (induction r s rule: append_quoted.induct) auto


lemma branch_eq:
  "rpmostree_get_cache_branch_for_n_evr_a name evr arch =
     ''rpmostree/pkg/'' @ concat (map quote_char name) @ ''/'' @
     concat (map quote_char (if has_prefix evr ''0:'' then drop 2 evr else evr)) @ ''.'' @
     concat (map quote_char arch)"
  by (simp add: rpmostree_get_cache_branch_for_n_evr_a_def get_branch_for_n_evr_a_def
      append_quoted_eq Let_def)

lemma hexfmt_chars: "d \<in> set (hexfmt c) \<Longrightarrow> ascii_isalnum d"
proof -
  have "ascii_isalnum (digit n)" if "n < 16" for n
    using that by (auto simp: ascii_isalnum_def is_digit_def code_digit)
  moreover have "ascii_isalnum (CHR ''F'')" by (simp add: ascii_isalnum_def is_digit_def)
  ultimately show "d \<in> set (hexfmt c) \<Longrightarrow> ascii_isalnum d"
    by (auto simp: hexfmt_def hex2_def split: if_splits)
qed

lemma quote_char_no_slash: "CHR ''/'' \<notin> set (quote_char c)"
proof -
  have "\<not> ascii_isalnum (CHR ''/'')" by (simp add: ascii_isalnum_def is_digit_def)
  with hexfmt_chars [of "CHR ''/''" c] show ?thesis
    by (cases c rule: quote_char_cases) auto
qed

lemma quote_char_no_dot: "CHR ''.'' \<noteq> c \<Longrightarrow> CHR ''.'' \<notin> set (quote_char c)"
proof -
  have "\<not> ascii_isalnum (CHR ''.'')" by (simp add: ascii_isalnum_def is_digit_def)
  with hexfmt_chars [of "CHR ''.''" c] show "CHR ''.'' \<noteq> c \<Longrightarrow> ?thesis"
    by (cases c rule: quote_char_cases) auto
qed

lemma hexval_digit: "d < 16 \<Longrightarrow> hexval (digit d) = Some d"
  by (auto simp: hexval_def code_digit)

lemma unquote_quote_char:
  "code c < 128 \<Longrightarrow> unquote_loop (quote_char c @ s) = c # unquote_loop s"
proof (cases c rule: quote_char_cases)
  case hex
  assume "code c < 128"
  then have "hexfmt c = [digit (code c div 16), digit (code c mod 16)]"
    by (simp add: hexfmt_def hex2_def)
  moreover have "digit (code c div 16) \<noteq> CHR ''_''"
    using hexfmt_hd [of c] calculation by simp
  moreover have "char_of (code c div 16 * 16 + code c mod 16) = c"
    by (metis char_of_char div_mult_mod_eq of_char_of)
  moreover have "code c div 16 < 16" using \<open>code c < 128\<close> by simp
  ultimately show ?thesis
    using hex by (simp add: hexval_digit)
qed simp_all

lemma unquote_quoted:
  "\<forall>c \<in> set s. code c < 128 \<Longrightarrow> unquote_loop (concat (map quote_char s) @ t) = s @ unquote_loop t"
  by (induction s) (simp_all add: unquote_quote_char)

lemma unquote_plain:
  "c \<noteq> CHR ''_'' \<Longrightarrow> unquote_loop (c # s) = (if c = CHR ''/'' then CHR ''-'' else c) # unquote_loop s"
  by simp

lemma split_at_first:
  "x \<notin> set a \<Longrightarrow> x \<notin> set b \<Longrightarrow> a @ x # c = b @ x # d \<Longrightarrow> a = b \<and> c = d"
proof (induction a arbitrary: b)
  case Nil
  then show ?case by (cases b) auto
next
  case (Cons y a)
  then show ?case by (cases b) auto
qed

lemma split_at_last:
  assumes "x \<notin> set c" "x \<notin> set d" "a @ x # c = b @ x # d"
  shows "a = b \<and> c = d"
proof -
  from assms(3) have "rev c @ x # rev a = rev d @ x # rev b"
    by (metis append.assoc append_Cons append_Nil rev.simps(2) rev_append)
  with split_at_first [of x "rev c" "rev d" "rev a" "rev b"] assms(1,2) show ?thesis by simp
qed

lemma evr_no_zero_prefix:
  "CHR '':'' \<notin> set version \<Longrightarrow> CHR '':'' \<notin> set release \<Longrightarrow>
   \<not> has_prefix (evr_string epoch version release) ''0:''"
proof
  assume no: "CHR '':'' \<notin> set version" "CHR '':'' \<notin> set release"
    and "has_prefix (evr_string epoch version release) ''0:''"
  then obtain r where r: "evr_string epoch version release = ''0:'' @ r"
    by (auto simp: has_prefix_iff)
  show False
  proof (cases "epoch > 0")
    case True
    have "CHR '':'' \<notin> set (show_nat (unat epoch))"
      using show_nat_digits [of "CHR '':''" "unat epoch"] by (auto simp: is_digit_def)
    then have "show_nat (unat epoch) = ''0''"
      using r True split_at_first [of "CHR '':''" "show_nat (unat epoch)" "''0''" "version @ ''-'' @ release" r]
      by (simp add: evr_string_def)
    moreover have "show_nat 0 = ''0''" by (simp add: show_nat.simps digit_0)
    ultimately have "unat epoch = 0" by (metis show_nat_inj)
    with True show False by (simp add: word_neq_0_conv unat_eq_zero)
  next
    case False
    then have "version @ ''-'' @ release = ''0:'' @ r" using r by (simp add: evr_string_def)
    then have "CHR '':'' \<in> set (version @ ''-'' @ release)" by simp
    with no show False by simp
  qed
qed

lemma evr_flags_string:
  "rpmostree_custom_nevra_strdup name epoch version release arch PKG_NEVRA_FLAGS_EVR =
     evr_string epoch version release"
  by (simp add: custom_nevra_defs Let_def)


section \<open>The pattern filter\<close>

definition CASENCMP_EQ :: "string \<Rightarrow> string \<Rightarrow> nat \<Rightarrow> bool" where
  "CASENCMP_EQ x y n \<longleftrightarrow> map ascii_lower (take n x) = map ascii_lower (take n y)"

definition G_MAXSIZE :: nat where
  "G_MAXSIZE = 2 ^ 64 - 1"

definition pattern_stop :: "char \<Rightarrow> bool" where
  "pattern_stop c \<longleftrightarrow> c \<in> {CHR '':'', CHR ''-'', CHR ''*'', CHR ''?'', CHR ''.'', CHR ''[''}"

fun plain_prefix_len :: "string \<Rightarrow> nat" where
  "plain_prefix_len [] = 0"
| "plain_prefix_len (c # pat) = (if pattern_stop c then 0 else Suc (plain_prefix_len pat))"

definition pat_fnmatch_prefix :: "string list option \<Rightarrow> nat" where
  "pat_fnmatch_prefix patterns =
     (case patterns of
        None \<Rightarrow> 0
      | Some ps \<Rightarrow> foldl (\<lambda>ret pat. min ret (plain_prefix_len pat)) G_MAXSIZE ps)"

text \<open>\<open>fnmatch (pattern, string, FNM_CASEFOLD) == 0\<close> of the C library is a parameter.\<close>

type_synonym fnmatch = "string \<Rightarrow> string \<Rightarrow> bool"

fun pat_fnmatch_loop :: "fnmatch \<Rightarrow> Header \<Rightarrow> string \<Rightarrow> nat \<Rightarrow> string list \<Rightarrow> bool" where
  "pat_fnmatch_loop fnm pkg name patprefixlen [] = False"
| "pat_fnmatch_loop fnm pkg name patprefixlen (pattern # ps) =
     (if patprefixlen \<noteq> 0 \<and> \<not> CASENCMP_EQ name pattern patprefixlen
      then pat_fnmatch_loop fnm pkg name patprefixlen ps
      else if fnm pattern name \<or> fnm pattern (pkg_nevra_strdup pkg) \<or>
              fnm pattern (pkg_na_strdup pkg) \<or> fnm pattern (pkg_nvr_strdup pkg)
      then True
      else pat_fnmatch_loop fnm pkg name patprefixlen ps)"

definition pat_fnmatch_match :: "fnmatch \<Rightarrow> Header \<Rightarrow> string \<Rightarrow> nat \<Rightarrow> string list option \<Rightarrow> bool" where
  "pat_fnmatch_match fnm pkg name patprefixlen patterns =
     (case patterns of
        None \<Rightarrow> True
      | Some ps \<Rightarrow> pat_fnmatch_loop fnm pkg name patprefixlen ps)"

definition header_cmp_p :: "(Header \<Rightarrow> Header \<Rightarrow> int) \<Rightarrow> Header \<Rightarrow> Header \<Rightarrow> int" where
  "header_cmp_p rpmVersionCompare h1 h2 =
     (let cmp = header_name_cmp h1 h2 in if cmp = 0 then rpmVersionCompare h1 h2 else cmp)"

text \<open>\<open>rpmhdrs_new\<close> on the headers the rpmdb iterator yields.\<close>

definition rpmhdrs_new ::
  "fnmatch \<Rightarrow> (Header \<Rightarrow> Header \<Rightarrow> int) \<Rightarrow> Header list \<Rightarrow> string list option \<Rightarrow> Header list" where
  "rpmhdrs_new fnm rpmVersionCompare rpmdb patterns =
     (let patprefixlen = pat_fnmatch_prefix patterns
      in sort_by (header_cmp_p rpmVersionCompare)
           (filter (\<lambda>h. h_name h \<noteq> ''gpg-pubkey'' \<and>
                        pat_fnmatch_match fnm h (h_name h) patprefixlen patterns) rpmdb))"

text \<open>
  What the code relies on of \<open>fnmatch\<close>: the characters of a pattern before its first
  metacharacter, with no escape among them, match themselves up to case.
\<close>

definition fnmatch_literal :: "fnmatch \<Rightarrow> bool" where
  "fnmatch_literal fnm \<longleftrightarrow>
     (\<forall>p s n. n \<le> plain_prefix_len p \<longrightarrow> CHR 92 \<notin> set (take n p) \<longrightarrow> fnm p s \<longrightarrow>
        map ascii_lower (take n s) = map ascii_lower (take n p))"

text \<open>What the filter means: some pattern matches one of the four spellings of the package.\<close>

definition pat_matches :: "fnmatch \<Rightarrow> Header \<Rightarrow> string list \<Rightarrow> bool" where
  "pat_matches fnm pkg ps \<longleftrightarrow>
     (\<exists>p \<in> set ps. fnm p (h_name pkg) \<or> fnm p (pkg_nevra_strdup pkg) \<or>
                   fnm p (pkg_na_strdup pkg) \<or> fnm p (pkg_nvr_strdup pkg))"

lemma foldl_min_init: "foldl (\<lambda>ret pat. min ret (f pat)) k ps \<le> (k :: nat)"
proof (induction ps arbitrary: k)
  case (Cons q ps)
  from Cons [of "min k (f q)"] show ?case by simp
qed simp

lemma foldl_min_le: "p \<in> set ps \<Longrightarrow> foldl (\<lambda>ret pat. min ret (f pat)) m ps \<le> (f p :: nat)"
proof (induction ps arbitrary: m)
  case (Cons q ps)
  then show ?case using foldl_min_init [of f "min m (f q)" ps] by auto
qed simp

lemma pat_fnmatch_prefix_le: "p \<in> set ps \<Longrightarrow> pat_fnmatch_prefix (Some ps) \<le> plain_prefix_len p"
  by (simp add: pat_fnmatch_prefix_def foldl_min_le)

lemma plain_prefix_len_le: "plain_prefix_len p \<le> length p"
  by (induction p) auto

lemma plain_prefix_nth: "i < plain_prefix_len p \<Longrightarrow> \<not> pattern_stop (p ! i)"
  by (induction p arbitrary: i) (auto simp: nth_Cons' split: if_splits)

lemma ascii_lower_stop: "ascii_lower c = d \<Longrightarrow> d = CHR ''-'' \<or> d = CHR ''.'' \<Longrightarrow> c = d"
proof -
  assume eq: "ascii_lower c = d" and d: "d = CHR ''-'' \<or> d = CHR ''.''"
  have "code (ascii_lower c) = (if 65 \<le> code c \<and> code c \<le> 90 then code c + 32 else code c)"
    by (simp add: ascii_lower_def)
  with eq d have "\<not> (65 \<le> code c \<and> code c \<le> 90)" by (auto split: if_splits)
  with eq show "c = d" by (auto simp: ascii_lower_def)
qed

lemma spelling_prefix:
  assumes eq: "map ascii_lower (take n (name @ rest)) = map ascii_lower (take n p)"
    and n: "n \<le> plain_prefix_len p"
    and rest: "rest = [] \<or> hd rest = CHR ''-'' \<or> hd rest = CHR ''.''"
  shows "CASENCMP_EQ name p n"
proof (cases "n \<le> length name \<or> rest = []")
  case True
  with eq show ?thesis by (auto simp: CASENCMP_EQ_def)
next
  case False
  then obtain c r where c: "rest = c # r" "c = CHR ''-'' \<or> c = CHR ''.''"
    using rest by (cases rest) auto
  let ?i = "length name"
  have i: "?i < n" using False by simp
  have np: "n \<le> length p" using n plain_prefix_len_le [of p] by simp
  have "map ascii_lower (take n (name @ rest)) ! ?i = ascii_lower c"
    using i c by (simp add: nth_append)
  moreover have "map ascii_lower (take n p) ! ?i = ascii_lower (p ! ?i)"
    using i np by simp
  moreover have "ascii_lower c = c"
    using c by (auto simp: ascii_lower_def)
  ultimately have "p ! ?i = c"
    using eq ascii_lower_stop [of "p ! ?i" c] c by simp
  moreover have "\<not> pattern_stop (p ! ?i)"
    using i n by (simp add: plain_prefix_nth)
  ultimately show ?thesis using c by (auto simp: pattern_stop_def)
qed

lemma match_casencmp:
  assumes fnm: "fnmatch_literal fnm" and name: "h_name pkg \<noteq> []"
    and p: "n \<le> plain_prefix_len p" "CHR 92 \<notin> set p"
    and m: "fnm p s" and s: "s \<in> {h_name pkg, pkg_nevra_strdup pkg, pkg_na_strdup pkg, pkg_nvr_strdup pkg}"
  shows "CASENCMP_EQ (h_name pkg) p n"
proof -
  obtain rest where "s = h_name pkg @ rest" "rest = [] \<or> hd rest = CHR ''-'' \<or> hd rest = CHR ''.''"
    using s name by (auto simp: pkg_nevra_strdup_eq pkg_na_strdup_eq pkg_nvr_strdup_eq)
  moreover have "map ascii_lower (take n s) = map ascii_lower (take n p)"
  proof -
    have "CHR 92 \<notin> set (take n p)" using p(2) by (meson in_set_takeD)
    with fnm p(1) m show ?thesis unfolding fnmatch_literal_def by blast
  qed
  ultimately show ?thesis using spelling_prefix p(1) by blast
qed

lemma pat_loop_matches:
  assumes "fnmatch_literal fnm" "h_name pkg \<noteq> []"
    and "\<forall>p \<in> set ps. n \<le> plain_prefix_len p \<and> CHR 92 \<notin> set p"
  shows "pat_fnmatch_loop fnm pkg (h_name pkg) n ps \<longleftrightarrow> pat_matches fnm pkg ps"
  using assms(3)
proof (induction ps)
  case (Cons p ps)
  then have "pat_matches fnm pkg [p] \<Longrightarrow> CASENCMP_EQ (h_name pkg) p n"
    using match_casencmp [OF assms(1,2), of n p] by (auto simp: pat_matches_def)
  with Cons show ?case by (auto simp: pat_matches_def)
qed (simp add: pat_matches_def)


section \<open>The \<open>sha256:nevra\<close> form\<close>

text \<open>
  \<open>rpmostree_decompose_sha256_nevra\<close> advances the string past the checksum. The checksum syntax
  check of libostree is a parameter that returns the error, if any.
\<close>

definition rpmostree_decompose_sha256_nevra ::
  "(string \<Rightarrow> gerror option) \<Rightarrow> string \<Rightarrow> (string \<times> string) result" where
  "rpmostree_decompose_sha256_nevra ostree_validate_checksum_string sha256_nevra =
     (if length sha256_nevra < 66 \<or> sha256_nevra ! 64 \<noteq> CHR '':''
      then Inl (Throw ''Invalid sha256-nevra: %s'' [sha256_nevra])
      else let sha256 = take 64 sha256_nevra
           in case ostree_validate_checksum_string sha256 of
                Some e \<Rightarrow> Inl e
              | None \<Rightarrow> Inr (drop 65 sha256_nevra, sha256))"

section \<open>Properties\<close>

text \<open>C29: a NEVRA mapped to its cache branch by the C++ side and mapped back by the Rust side is the
  canonical NEVRA of its parts, whatever punctuation the parts contain.\<close>

theorem nevra_cache_branch_roundtrip:
  assumes "hy_split_nevra nevra = Some (name, epoch, version, release, arch)"
    and "name \<noteq> []"
    and "\<forall>c \<in> set (name @ version @ release @ arch). code c < 128"
    and "CHR '':'' \<notin> set version" "CHR '':'' \<notin> set release"
  shows "bindR (nevra_to_cache_branch hy_split_nevra nevra) cache_branch_to_nevra =
    Inr (rpmostree_custom_nevra_strdup name (word_of_int epoch) version release arch
           (PKG_NEVRA_FLAGS_NAME OR PKG_NEVRA_FLAGS_EVR OR PKG_NEVRA_FLAGS_ARCH))"
proof -
  let ?evr = "evr_string (word_of_int epoch) version release"
  have evr: "\<forall>c \<in> set ?evr. code c < 128"
    using assms(3) show_nat_digits by (fastforce simp: evr_string_def is_digit_def)
  have branch: "nevra_to_cache_branch hy_split_nevra nevra =
    Inr (''rpmostree/pkg/'' @ concat (map quote_char name) @ ''/'' @
         concat (map quote_char ?evr) @ ''.'' @ concat (map quote_char arch))"
    using assms(1) evr_no_zero_prefix [OF assms(4,5), of "word_of_int epoch"]
    by (simp add: nevra_to_cache_branch_def rpmostree_decompose_nevra_def evr_flags_string branch_eq)
  have "unquote_loop (concat (map quote_char name) @ ''/'' @ concat (map quote_char ?evr) @ ''.'' @
      concat (map quote_char arch) @ []) = name @ ''-'' @ ?evr @ ''.'' @ arch"
    using assms(3) evr by (simp add: unquote_quoted unquote_plain del: append_Nil2 unquote_loop.simps(2))
  with branch show ?thesis
    using assms(2) by (simp add: cache_branch_to_nevra_def custom_nevra_defs Let_def)
qed

theorem nevra_cache_branch_roundtrip_witness:
  "bindR (nevra_to_cache_branch (\<lambda>_. Some (''foo'', 2, ''1.0~rc1'', ''1'', ''x86_64'')) ''foo-2:1.0~rc1-1.x86_64'')
     cache_branch_to_nevra = Inr ''foo-2:1.0~rc1-1.x86_64''"
  by (subst nevra_cache_branch_roundtrip [of _ _ "''foo''" 2 "''1.0~rc1''" "''1''" "''x86_64''"])
     (simp_all add: custom_nevra_defs show_nat.simps digit_simps)

lemma quoted_inj: "concat (map quote_char xs) = concat (map quote_char ys) \<longleftrightarrow> xs = ys"
  by (auto dest: quote.concat_enc_inj)

lemma quoted_branch_inj:
  assumes eq: "concat (map quote_char n) @ CHR ''/'' # (concat (map quote_char x) @ CHR ''.'' # concat (map quote_char a)) =
      concat (map quote_char n') @ CHR ''/'' # (concat (map quote_char x') @ CHR ''.'' # concat (map quote_char a'))"
    and "CHR ''.'' \<notin> set a" "CHR ''.'' \<notin> set a'"
  shows "n = n' \<and> x = x' \<and> a = a'"
proof -
  have slash: "CHR ''/'' \<notin> set (concat (map quote_char s))" for s
    using quote_char_no_slash by simp
  have dot: "CHR ''.'' \<notin> set s \<Longrightarrow> CHR ''.'' \<notin> set (concat (map quote_char s))" for s
    by (induction s) (simp_all add: quote_char_no_dot)
  from split_at_first [OF slash slash eq] have "n = n'"
    and rest: "concat (map quote_char x) @ CHR ''.'' # concat (map quote_char a) =
      concat (map quote_char x') @ CHR ''.'' # concat (map quote_char a')"
    by (simp_all add: quoted_inj)
  with split_at_last [OF dot [OF assms(2)] dot [OF assms(3)] rest] show ?thesis
    by (simp add: quoted_inj)
qed

text \<open>Two packages whose cache branches coincide have the same name, the same EVR (up to an
  explicit zero epoch) and the same architecture, for architectures without a dot; no byte value is
  excluded.\<close>

theorem cache_branch_injective:
  assumes "rpmostree_get_cache_branch_for_n_evr_a n e a = rpmostree_get_cache_branch_for_n_evr_a n' e' a'"
    and "CHR ''.'' \<notin> set a" "CHR ''.'' \<notin> set a'"
  shows "n = n' \<and> (if has_prefix e ''0:'' then drop 2 e else e) = (if has_prefix e' ''0:'' then drop 2 e' else e')
    \<and> a = a'"
  by (rule quoted_branch_inj [OF _ assms(2,3)]) (use assms(1) in \<open>simp only: branch_eq append.simps append_same_eq same_append_eq list.inject simp_thms\<close>)

theorem cache_branch_injective_witness:
  "rpmostree_get_cache_branch_for_n_evr_a ''foo'' ''0:1-1'' ''noarch'' =
     rpmostree_get_cache_branch_for_n_evr_a ''foo'' ''1-1'' ''noarch'' \<and> drop 2 ''0:1-1'' = ''1-1''"
  using cache_branch_injective [of "''foo''" "''0:1-1''" "''noarch''" "''foo''" "''1-1''" "''noarch''"]
  by (simp add: branch_eq)

text \<open>Skipping a pattern whose literal prefix does not match the package name never loses a
  match: with the prefix length computed over all patterns, the filter accepts a package exactly
  when some pattern matches its name, NEVRA, name.arch or name-version-release.\<close>

theorem pat_fnmatch_match_correct:
  assumes "fnmatch_literal fnm" "h_name pkg \<noteq> []" "\<forall>p \<in> set ps. CHR 92 \<notin> set p"
  shows "pat_fnmatch_match fnm pkg (h_name pkg) (pat_fnmatch_prefix (Some ps)) (Some ps) \<longleftrightarrow>
    pat_matches fnm pkg ps"
  using pat_loop_matches [OF assms(1,2)] assms(3)
  by (simp add: pat_fnmatch_match_def pat_fnmatch_prefix_le)


text \<open>A matcher with \<open>*\<close> and \<open>?\<close>, for which the assumption on \<open>fnmatch\<close> holds.\<close>

fun glob :: fnmatch where
  "glob [] s = (s = [])"
| "glob (c # p) s =
     (if c = CHR ''*'' then (case s of [] \<Rightarrow> glob p [] | d # s' \<Rightarrow> glob p s \<or> glob (c # p) s')
      else (case s of
              [] \<Rightarrow> False
            | d # s' \<Rightarrow> (c = CHR ''?'' \<or> ascii_lower c = ascii_lower d) \<and> glob p s'))"

lemma glob_literal: "fnmatch_literal glob"
proof -
  have "n \<le> plain_prefix_len p \<Longrightarrow> glob p s \<Longrightarrow> map ascii_lower (take n s) = map ascii_lower (take n p)"
    for n p s
  proof (induction p arbitrary: n s)
    case (Cons c p)
    then show ?case by (cases n; cases s) (auto simp: pattern_stop_def split: if_splits)
  qed simp
  then show ?thesis by (simp add: fnmatch_literal_def)
qed

theorem pat_fnmatch_match_correct_witness:
  "let pkg = \<lparr>h_name = ''kernel-core'', h_epoch = 0, h_version = ''6.1'', h_release = ''2'',
              h_arch = ''x86_64'', h_sourcerpm = [], h_changelogs = []\<rparr>
   in pat_fnmatch_match glob pkg (h_name pkg) (pat_fnmatch_prefix (Some [''kernel-*'', ''ker?el''])) (Some [''kernel-*'', ''ker?el''])
      = pat_matches glob pkg [''kernel-*'', ''ker?el''] \<and> pat_matches glob pkg [''kernel-*'', ''ker?el'']"
  unfolding Let_def
  by (subst pat_fnmatch_match_correct [OF glob_literal])
     (simp_all add: pat_matches_def ascii_lower_def)

text \<open>Splitting a \<open>sha256:nevra\<close> string succeeds exactly on a valid 64-character checksum, a colon
  and a non-empty rest, and returns these two parts.\<close>

theorem decompose_sha256_nevra_iff:
  "rpmostree_decompose_sha256_nevra validate s = Inr (nevra, sha256) \<longleftrightarrow>
     s = sha256 @ '':'' @ nevra \<and> length sha256 = 64 \<and> nevra \<noteq> [] \<and> validate sha256 = None"
proof
  assume "rpmostree_decompose_sha256_nevra validate s = Inr (nevra, sha256)"
  then have len: "66 \<le> length s" and colon: "s ! 64 = CHR '':''" and sha: "sha256 = take 64 s"
    and nevra: "nevra = drop 65 s" and "validate sha256 = None"
    by (auto simp: rpmostree_decompose_sha256_nevra_def Let_def split: if_splits option.splits)
  then show "s = sha256 @ '':'' @ nevra \<and> length sha256 = 64 \<and> nevra \<noteq> [] \<and> validate sha256 = None"
    using id_take_nth_drop [of 64 s] by simp
next
  assume "s = sha256 @ '':'' @ nevra \<and> length sha256 = 64 \<and> nevra \<noteq> [] \<and> validate sha256 = None"
  moreover have "nevra \<noteq> [] \<Longrightarrow> 0 < length nevra" by simp
  ultimately show "rpmostree_decompose_sha256_nevra validate s = Inr (nevra, sha256)"
    by (auto simp: rpmostree_decompose_sha256_nevra_def nth_append)
qed

end
