(* ===== verification/Pkg_Diff.thy ===== *)
theory Pkg_Diff
  imports Nevra
begin

text \<open>
  Package lists and their differences: \<open>RpmOstreePackage\<close> and \<open>_rpm_ostree_diff_package_lists\<close> of
  \<^verbatim>\<open>src/src/lib/rpmostree-package.c\<close>, \<open>rpm_ostree_db_diff_ext\<close> of \<^verbatim>\<open>src/src/lib/rpmostree-db.c\<close>, the
  header lists of \<^verbatim>\<open>src/src/libpriv/rpmostree-rpm-util.cxx\<close> and the D-Bus form of a difference in
  \<^verbatim>\<open>src/src/daemon/rpmostree-package-variants.cxx\<close>. An array that an index walks from its front is a
  list consumed from its front.
\<close>

section \<open>Packages\<close>

record RpmOstreePackage =
  p_name :: string
  p_evr :: string
  p_arch :: string
  p_nevra :: string

text \<open>The \<open>(sssss)\<close> tuple of commit metadata: name, epoch, version, release, arch.\<close>

type_synonym gv_nevra = "string \<times> string \<times> string \<times> string \<times> string"

fun rpm_ostree_package_new_from_variant :: "gv_nevra \<Rightarrow> RpmOstreePackage" where
  "rpm_ostree_package_new_from_variant (name, epoch, version, release, arch) =
     (let evr = (if epoch = ''0'' then version @ ''-'' @ release
                 else epoch @ '':'' @ version @ ''-'' @ release)
      in \<lparr>p_name = name, p_evr = evr, p_arch = arch, p_nevra = name @ ''-'' @ evr @ ''.'' @ arch\<rparr>)"

text \<open>\<open>evr_cmp\<close> calls \<open>rpmverCmp\<close> of librpm, a parameter.\<close>

type_synonym evr_cmp = "string \<Rightarrow> string \<Rightarrow> int"

definition rpm_ostree_package_cmp :: "evr_cmp \<Rightarrow> RpmOstreePackage \<Rightarrow> RpmOstreePackage \<Rightarrow> int" where
  "rpm_ostree_package_cmp evr_cmp p1 p2 =
     (let ret = strcmp (p_name p1) (p_name p2)
      in if ret \<noteq> 0 then ret
         else let ret = evr_cmp (p_evr p1) (p_evr p2)
              in if ret \<noteq> 0 then ret else strcmp (p_arch p1) (p_arch p2))"

section \<open>The difference of two package lists\<close>

definition next_pkg_has_different_name :: "string \<Rightarrow> RpmOstreePackage list \<Rightarrow> bool" where
  "next_pkg_has_different_name name rest =
     (case rest of [] \<Rightarrow> True | pkg # _ \<Rightarrow> name \<noteq> p_name pkg)"

record pkg_diff =
  unique_a :: "RpmOstreePackage list"
  unique_b :: "RpmOstreePackage list"
  modified_a :: "RpmOstreePackage list"
  modified_b :: "RpmOstreePackage list"
  common :: "RpmOstreePackage list"

definition empty_diff :: pkg_diff where
  "empty_diff = \<lparr>unique_a = [], unique_b = [], modified_a = [], modified_b = [], common = []\<rparr>"

definition add_unique_a :: "RpmOstreePackage \<Rightarrow> pkg_diff \<Rightarrow> pkg_diff" where
  "add_unique_a p d = d\<lparr>unique_a := unique_a d @ [p]\<rparr>"

definition add_unique_b :: "RpmOstreePackage \<Rightarrow> pkg_diff \<Rightarrow> pkg_diff" where
  "add_unique_b p d = d\<lparr>unique_b := unique_b d @ [p]\<rparr>"

definition add_modified :: "RpmOstreePackage \<Rightarrow> RpmOstreePackage \<Rightarrow> pkg_diff \<Rightarrow> pkg_diff" where
  "add_modified p q d = d\<lparr>modified_a := modified_a d @ [p], modified_b := modified_b d @ [q]\<rparr>"

definition add_common :: "RpmOstreePackage \<Rightarrow> pkg_diff \<Rightarrow> pkg_diff" where
  "add_common p d = d\<lparr>common := common d @ [p]\<rparr>"

fun diff_package_lists_loop ::
  "evr_cmp \<Rightarrow> RpmOstreePackage list \<Rightarrow> RpmOstreePackage list \<Rightarrow> pkg_diff \<Rightarrow> pkg_diff" where
  "diff_package_lists_loop evr (pkg_a # a) (pkg_b # b) d =
     (let cmp = strcmp (p_name pkg_a) (p_name pkg_b)
      in if cmp < 0 then diff_package_lists_loop evr a (pkg_b # b) (add_unique_a pkg_a d)
         else if cmp > 0 then diff_package_lists_loop evr (pkg_a # a) b (add_unique_b pkg_b d)
         else let cmp = strcmp (p_arch pkg_a) (p_arch pkg_b)
              in if cmp = 0
                 then (if evr (p_evr pkg_a) (p_evr pkg_b) = 0
                       then diff_package_lists_loop evr a b (add_common pkg_a d)
                       else diff_package_lists_loop evr a b (add_modified pkg_a pkg_b d))
                 else if next_pkg_has_different_name (p_name pkg_a) a \<and>
                         next_pkg_has_different_name (p_name pkg_b) b
                      then diff_package_lists_loop evr a b (add_modified pkg_a pkg_b d)
                      else if cmp < 0 then diff_package_lists_loop evr a (pkg_b # b) (add_unique_a pkg_a d)
                      else diff_package_lists_loop evr (pkg_a # a) b (add_unique_b pkg_b d))"
| "diff_package_lists_loop evr a [] d = d\<lparr>unique_a := unique_a d @ a\<rparr>"
| "diff_package_lists_loop evr [] b d = d\<lparr>unique_b := unique_b d @ b\<rparr>"

definition rpm_ostree_diff_package_lists ::
  "evr_cmp \<Rightarrow> RpmOstreePackage list \<Rightarrow> RpmOstreePackage list \<Rightarrow> pkg_diff" where
  "rpm_ostree_diff_package_lists evr a b = diff_package_lists_loop evr a b empty_diff"

lemmas diff_adds = add_unique_a_def add_unique_b_def add_modified_def add_common_def

subsection \<open>The walk as an alignment\<close>

text \<open>
  The loop aligns the two lists: each step takes the head of the first list, of the second, or of
  both. The alignment is the specification the arrays are read off from.
\<close>

datatype diff_step = Only_a RpmOstreePackage | Only_b RpmOstreePackage
  | Changed RpmOstreePackage RpmOstreePackage | Same RpmOstreePackage RpmOstreePackage

fun align :: "evr_cmp \<Rightarrow> RpmOstreePackage list \<Rightarrow> RpmOstreePackage list \<Rightarrow> diff_step list" where
  "align evr (x # a) (y # b) =
     (if p_name x < p_name y then Only_a x # align evr a (y # b)
      else if p_name y < p_name x then Only_b y # align evr (x # a) b
      else if p_arch x = p_arch y
           then (if evr (p_evr x) (p_evr y) = 0 then Same x y else Changed x y) # align evr a b
      else if next_pkg_has_different_name (p_name x) a \<and> next_pkg_has_different_name (p_name y) b
           then Changed x y # align evr a b
      else if p_arch x < p_arch y then Only_a x # align evr a (y # b)
      else Only_b y # align evr (x # a) b)"
| "align evr a [] = map Only_a a"
| "align evr [] b = map Only_b b"

fun step_a :: "diff_step \<Rightarrow> RpmOstreePackage list" where
  "step_a (Only_a x) = [x]" | "step_a (Only_b y) = []" | "step_a (Changed x y) = [x]" | "step_a (Same x y) = [x]"

fun step_b :: "diff_step \<Rightarrow> RpmOstreePackage list" where
  "step_b (Only_a x) = []" | "step_b (Only_b y) = [y]" | "step_b (Changed x y) = [y]" | "step_b (Same x y) = [y]"

primrec collect_step :: "diff_step \<Rightarrow> pkg_diff \<Rightarrow> pkg_diff" where
  "collect_step (Only_a x) = add_unique_a x"
| "collect_step (Only_b y) = add_unique_b y"
| "collect_step (Changed x y) = add_modified x y"
| "collect_step (Same x y) = add_common x"

lemma fold_Only_a: "fold collect_step (map Only_a a) d = d\<lparr>unique_a := unique_a d @ a\<rparr>"
  by (induction a arbitrary: d) (simp_all add: diff_adds)

lemma fold_Only_b: "fold collect_step (map Only_b b) d = d\<lparr>unique_b := unique_b d @ b\<rparr>"
  by (induction b arbitrary: d) (simp_all add: diff_adds)

lemma diff_loop_align: "diff_package_lists_loop evr a b d = fold collect_step (align evr a b) d"
proof (induction evr a b arbitrary: d rule: align.induct)
  case (1 evr x a y b)
  consider "p_name x < p_name y" | "p_name y < p_name x" | "p_name x = p_name y" by fastforce
  then show ?case
  proof cases
    case 3
    consider "p_arch x = p_arch y" | "p_arch x < p_arch y" | "p_arch y < p_arch x" by fastforce
    with 3 show ?thesis
      by cases (use 1 in \<open>auto simp: Let_def strcmp_less_iff strcmp_pos_iff\<close>)
  qed (use 1 in \<open>simp_all add: Let_def strcmp_less_iff strcmp_pos_iff less_not_sym\<close>)
qed (simp_all add: fold_Only_a fold_Only_b diff_adds)

lemma fold_collect:
  "fold collect_step es d =
     \<lparr>unique_a = unique_a d @ concat (map (\<lambda>e. case e of Only_a x \<Rightarrow> [x] | _ \<Rightarrow> []) es),
      unique_b = unique_b d @ concat (map (\<lambda>e. case e of Only_b y \<Rightarrow> [y] | _ \<Rightarrow> []) es),
      modified_a = modified_a d @ concat (map (\<lambda>e. case e of Changed x y \<Rightarrow> [x] | _ \<Rightarrow> []) es),
      modified_b = modified_b d @ concat (map (\<lambda>e. case e of Changed x y \<Rightarrow> [y] | _ \<Rightarrow> []) es),
      common = common d @ concat (map (\<lambda>e. case e of Same x y \<Rightarrow> [x] | _ \<Rightarrow> []) es)\<rparr>"
proof (induction es arbitrary: d)
  case (Cons e es)
  then show ?case by (cases e) (simp_all add: diff_adds)
qed simp

lemma diff_package_lists_eq:
  "rpm_ostree_diff_package_lists evr a b =
     \<lparr>unique_a = concat (map (\<lambda>e. case e of Only_a x \<Rightarrow> [x] | _ \<Rightarrow> []) (align evr a b)),
      unique_b = concat (map (\<lambda>e. case e of Only_b y \<Rightarrow> [y] | _ \<Rightarrow> []) (align evr a b)),
      modified_a = concat (map (\<lambda>e. case e of Changed x y \<Rightarrow> [x] | _ \<Rightarrow> []) (align evr a b)),
      modified_b = concat (map (\<lambda>e. case e of Changed x y \<Rightarrow> [y] | _ \<Rightarrow> []) (align evr a b)),
      common = concat (map (\<lambda>e. case e of Same x y \<Rightarrow> [x] | _ \<Rightarrow> []) (align evr a b))\<rparr>"
  by (simp add: rpm_ostree_diff_package_lists_def diff_loop_align fold_collect empty_diff_def)

lemma align_steps: "concat (map step_a (align evr a b)) = a" "concat (map step_b (align evr a b)) = b"
proof -
  have only: "concat (map step_a (map Only_a xs)) = xs" "concat (map step_b (map Only_a xs)) = []"
    "concat (map step_a (map Only_b xs)) = []" "concat (map step_b (map Only_b xs)) = xs" for xs
    by (induction xs) simp_all
  show "concat (map step_a (align evr a b)) = a" "concat (map step_b (align evr a b)) = b"
    by (induction evr a b rule: align.induct) (simp_all only: align.simps only, simp_all)
qed

lemma mset_steps:
  "mset (concat (map step_a es)) =
     mset (concat (map (\<lambda>e. case e of Only_a x \<Rightarrow> [x] | _ \<Rightarrow> []) es)) +
     mset (concat (map (\<lambda>e. case e of Changed x y \<Rightarrow> [x] | _ \<Rightarrow> []) es)) +
     mset (concat (map (\<lambda>e. case e of Same x y \<Rightarrow> [x] | _ \<Rightarrow> []) es))"
  "mset (concat (map step_b es)) =
     mset (concat (map (\<lambda>e. case e of Only_b y \<Rightarrow> [y] | _ \<Rightarrow> []) es)) +
     mset (concat (map (\<lambda>e. case e of Changed x y \<Rightarrow> [y] | _ \<Rightarrow> []) es)) +
     mset (concat (map (\<lambda>e. case e of Same x y \<Rightarrow> [y] | _ \<Rightarrow> []) es))"
  by (induction es) (auto split: diff_step.splits)


subsection \<open>Lists sorted by name and architecture\<close>

definition same_na :: "RpmOstreePackage \<Rightarrow> RpmOstreePackage \<Rightarrow> bool" where
  "same_na p q \<longleftrightarrow> p_name p = p_name q \<and> p_arch p = p_arch q"

definition na_less :: "RpmOstreePackage \<Rightarrow> RpmOstreePackage \<Rightarrow> bool" where
  "na_less p q \<longleftrightarrow> p_name p < p_name q \<or> p_name p = p_name q \<and> p_arch p < p_arch q"

lemma na_less_same: "na_less p q \<Longrightarrow> \<not> same_na p q" "na_less p q \<Longrightarrow> \<not> same_na q p"
  by (auto simp: na_less_def same_na_def)

lemma na_less_trans: "na_less p q \<Longrightarrow> na_less q r \<Longrightarrow> na_less p r"
  by (auto simp: na_less_def)

lemma same_na_sym: "same_na p q \<Longrightarrow> same_na q p"
  by (simp add: same_na_def)

lemma same_na_trans: "same_na p q \<Longrightarrow> same_na q r \<Longrightarrow> same_na p r"
  by (simp add: same_na_def)

lemma sorted_na_Cons: "sorted_wrt na_less (x # a) \<Longrightarrow> p \<in> set (x # a) \<Longrightarrow> p = x \<or> na_less x p"
  by auto

lemma same_na_less: "same_na p q \<Longrightarrow> na_less q r \<Longrightarrow> na_less p r"
  by (auto simp: na_less_def same_na_def)

lemma next_different_all:
  "sorted_wrt na_less (x # a) \<Longrightarrow> next_pkg_has_different_name (p_name x) a \<Longrightarrow>
   p \<in> set a \<Longrightarrow> p_name p \<noteq> p_name x"
proof (cases a)
  case (Cons y a')
  assume "sorted_wrt na_less (x # a)" "next_pkg_has_different_name (p_name x) a" "p \<in> set a"
  with Cons have "p_name x < p_name y" "p = y \<or> na_less y p"
    by (auto simp: next_pkg_has_different_name_def na_less_def)
  then show ?thesis by (auto simp: na_less_def)
qed simp

text \<open>What one step of the alignment may be, against the whole second or first list.\<close>

fun step_ok :: "evr_cmp \<Rightarrow> RpmOstreePackage list \<Rightarrow> RpmOstreePackage list \<Rightarrow> diff_step \<Rightarrow> bool" where
  "step_ok evr a b (Only_a x) = (\<forall>y \<in> set b. \<not> same_na x y)"
| "step_ok evr a b (Only_b y) = (\<forall>x \<in> set a. \<not> same_na x y)"
| "step_ok evr a b (Same x y) = (same_na x y \<and> evr (p_evr x) (p_evr y) = 0)"
| "step_ok evr a b (Changed x y) =
     (same_na x y \<and> evr (p_evr x) (p_evr y) \<noteq> 0 \<or>
      p_name x = p_name y \<and> p_arch x \<noteq> p_arch y \<and>
      (\<forall>x' \<in> set a. p_name x' = p_name x \<longrightarrow> na_less x' x \<or> x' = x) \<and>
      (\<forall>y' \<in> set b. p_name y' = p_name y \<longrightarrow> na_less y' y \<or> y' = y))"

lemma align_members:
  "e \<in> set (align evr a b) \<Longrightarrow> set (step_a e) \<subseteq> set a \<and> set (step_b e) \<subseteq> set b"
  using align_steps [of evr a b] by (metis UN_upper image_eqI set_concat set_map)

lemma step_ok_Cons_a:
  "step_ok evr a b e \<Longrightarrow> \<forall>x' \<in> set (step_a e). na_less x x' \<Longrightarrow>
   \<forall>y \<in> set (step_b e). \<not> same_na x y \<Longrightarrow> step_ok evr (x # a) b e"
  by (cases e) auto

lemma step_ok_Cons_b:
  "step_ok evr a b e \<Longrightarrow> \<forall>y' \<in> set (step_b e). na_less y y' \<Longrightarrow>
   \<forall>x \<in> set (step_a e). \<not> same_na x y \<Longrightarrow> step_ok evr a (y # b) e"
  by (cases e) auto

lemma align_ok_both:
  assumes sorted: "sorted_wrt na_less (x # a)" "sorted_wrt na_less (y # b)"
    and diff: "\<forall>y' \<in> set b. \<not> same_na x y'" "\<forall>x' \<in> set a. \<not> same_na x' y"
    and e: "step_ok evr a b e" "e \<in> set (align evr a b)"
  shows "step_ok evr (x # a) (y # b) e"
proof (intro step_ok_Cons_a step_ok_Cons_b)
  from align_members [OF e(2)] show "\<forall>y' \<in> set (step_b e). na_less y y'" "\<forall>x' \<in> set (step_a e). \<not> same_na x' y"
    "\<forall>x' \<in> set (step_a e). na_less x x'" "\<forall>y' \<in> set (step_b e). \<not> same_na x y'"
    using sorted diff by auto
qed (rule e(1))

lemma align_ok_less_a:
  assumes sorted: "sorted_wrt na_less (x # a)" "sorted_wrt na_less (y # b)" and less: "na_less x y"
    and IH: "\<forall>e \<in> set (align evr a (y # b)). step_ok evr a (y # b) e"
  shows "\<forall>e \<in> set (Only_a x # align evr a (y # b)). step_ok evr (x # a) (y # b) e"
proof
  have all: "\<forall>y' \<in> set (y # b). na_less x y'"
    using sorted(2) less by (auto intro: na_less_trans)
  fix e
  assume "e \<in> set (Only_a x # align evr a (y # b))"
  then consider "e = Only_a x" | "e \<in> set (align evr a (y # b))" by auto
  then show "step_ok evr (x # a) (y # b) e"
  proof cases
    case 1
    with all show ?thesis by (auto dest: na_less_same)
  next
    case 2
    have "\<forall>y' \<in> set (y # b). \<not> same_na x y'" using all na_less_same by blast
    with align_members [OF 2] show ?thesis
      using IH 2 sorted(1) by (intro step_ok_Cons_a) auto
  qed
qed

lemma align_ok_less_b:
  assumes sorted: "sorted_wrt na_less (x # a)" "sorted_wrt na_less (y # b)" and less: "na_less y x"
    and IH: "\<forall>e \<in> set (align evr (x # a) b). step_ok evr (x # a) b e"
  shows "\<forall>e \<in> set (Only_b y # align evr (x # a) b). step_ok evr (x # a) (y # b) e"
proof
  have all: "\<forall>x' \<in> set (x # a). na_less y x'"
    using sorted(1) less by (auto intro: na_less_trans)
  fix e
  assume "e \<in> set (Only_b y # align evr (x # a) b)"
  then consider "e = Only_b y" | "e \<in> set (align evr (x # a) b)" by auto
  then show "step_ok evr (x # a) (y # b) e"
  proof cases
    case 1
    with all show ?thesis by (auto dest: na_less_same)
  next
    case 2
    have "\<forall>x' \<in> set (x # a). \<not> same_na x' y" using all na_less_same by blast
    with align_members [OF 2] show ?thesis
      using IH 2 sorted(2) by (intro step_ok_Cons_b) auto
  qed
qed

lemma align_ok_same:
  assumes sorted: "sorted_wrt na_less (x # a)" "sorted_wrt na_less (y # b)" and same: "same_na x y"
    and IH: "\<forall>e \<in> set (align evr a b). step_ok evr a b e"
  shows "\<forall>e \<in> set (align evr (x # a) (y # b)). step_ok evr (x # a) (y # b) e"
proof -
  have "same_na y x" using same by (simp add: same_na_def)
  with same sorted have "\<forall>y' \<in> set b. na_less x y'" "\<forall>x' \<in> set a. na_less y x'"
    by (simp_all add: same_na_less [OF same] same_na_less [OF \<open>same_na y x\<close>])
  then have "\<forall>y' \<in> set b. \<not> same_na x y'" "\<forall>x' \<in> set a. \<not> same_na x' y"
    using na_less_same by blast+
  with IH have "\<forall>e \<in> set (align evr a b). step_ok evr (x # a) (y # b) e"
    using align_ok_both [OF sorted] by blast
  with same show ?thesis by (auto simp: same_na_def)
qed

lemma align_ok_arch_change:
  assumes sorted: "sorted_wrt na_less (x # a)" "sorted_wrt na_less (y # b)"
    and xy: "p_name x = p_name y" "p_arch x \<noteq> p_arch y"
    and single: "next_pkg_has_different_name (p_name x) a" "next_pkg_has_different_name (p_name y) b"
    and IH: "\<forall>e \<in> set (align evr a b). step_ok evr a b e"
  shows "\<forall>e \<in> set (Changed x y # align evr a b). step_ok evr (x # a) (y # b) e"
proof -
  have n: "\<forall>x' \<in> set a. p_name x' \<noteq> p_name x" "\<forall>y' \<in> set b. p_name y' \<noteq> p_name y"
    using single next_different_all sorted by blast+
  then have "\<forall>y' \<in> set b. \<not> same_na x y'" "\<forall>x' \<in> set a. \<not> same_na x' y"
    using xy by (auto simp: same_na_def)
  with IH have "\<forall>e \<in> set (align evr a b). step_ok evr (x # a) (y # b) e"
    using align_ok_both [OF sorted] by blast
  moreover have "step_ok evr (x # a) (y # b) (Changed x y)"
    using n xy by auto
  ultimately show ?thesis by simp
qed

lemma align_ok:
  "sorted_wrt na_less a \<Longrightarrow> sorted_wrt na_less b \<Longrightarrow> \<forall>e \<in> set (align evr a b). step_ok evr a b e"
proof (induction evr a b rule: align.induct)
  case (1 evr x a y b)
  note sorted = "1.prems"
  have tails: "sorted_wrt na_less a" "sorted_wrt na_less b" using sorted by auto
  let ?single = "next_pkg_has_different_name (p_name x) a \<and> next_pkg_has_different_name (p_name y) b"
  consider "same_na x y" | "p_name x = p_name y" "p_arch x \<noteq> p_arch y" ?single
    | "na_less x y" "\<not> (p_name x = p_name y \<and> ?single)"
    | "na_less y x" "\<not> (p_name x = p_name y \<and> ?single)"
    by (fastforce simp: na_less_def same_na_def)
  then show ?case
  proof cases
    case 1
    with "1.IH"(3) tails align_ok_same [OF sorted] show ?thesis by (simp add: same_na_def)
  next
    case 2
    with "1.IH"(4) tails have "\<forall>e \<in> set (align evr a b). step_ok evr a b e" by simp
    from align_ok_arch_change [OF sorted 2(1,2) _ _ this] 2 show ?thesis by simp
  next
    case 3
    with "1.IH"(1,5) tails sorted have "\<forall>e \<in> set (align evr a (y # b)). step_ok evr a (y # b) e"
      by (auto simp: na_less_def)
    from align_ok_less_a [OF sorted 3(1) this] 3 show ?thesis by (auto simp: na_less_def)
  next
    case 4
    with "1.IH"(2,6) tails sorted have "\<forall>e \<in> set (align evr (x # a) b). step_ok evr (x # a) b e"
      by (auto simp: na_less_def)
    from align_ok_less_b [OF sorted 4(1) this] 4 show ?thesis by (auto simp: na_less_def)
  qed
qed auto


lemma align_less_a:
  "na_less x y \<Longrightarrow>
   \<not> (p_name x = p_name y \<and> next_pkg_has_different_name (p_name x) a \<and> next_pkg_has_different_name (p_name y) b) \<Longrightarrow>
   align evr (x # a) (y # b) = Only_a x # align evr a (y # b)"
  by (auto simp: na_less_def)

lemma align_less_b:
  "na_less y x \<Longrightarrow>
   \<not> (p_name x = p_name y \<and> next_pkg_has_different_name (p_name x) a \<and> next_pkg_has_different_name (p_name y) b) \<Longrightarrow>
   align evr (x # a) (y # b) = Only_b y # align evr (x # a) b"
  by (auto simp: na_less_def)

lemma align_complete:
  "sorted_wrt na_less a \<Longrightarrow> sorted_wrt na_less b \<Longrightarrow> p \<in> set a \<Longrightarrow> q \<in> set b \<Longrightarrow> same_na p q \<Longrightarrow>
   (if evr (p_evr p) (p_evr q) = 0 then Same p q else Changed p q) \<in> set (align evr a b)"
proof (induction evr a b rule: align.induct)
  case (1 evr x a y b)
  note sorted = "1.prems"(1,2)
  have tails: "sorted_wrt na_less a" "sorted_wrt na_less b" using sorted by auto
  note pq = "1.prems"(3-5)
  let ?single = "next_pkg_has_different_name (p_name x) a \<and> next_pkg_has_different_name (p_name y) b"
  have p: "p = x \<or> na_less x p" and q: "q = y \<or> na_less y q"
    using sorted_na_Cons sorted pq by blast+
  have not_first: "na_less y x \<Longrightarrow> q \<noteq> y" and not_first': "na_less x y \<Longrightarrow> p \<noteq> x"
    using p q pq(3) na_less_same na_less_trans by blast+
  consider "same_na x y" | "p_name x = p_name y" "p_arch x \<noteq> p_arch y" ?single
    | "na_less x y" "\<not> (p_name x = p_name y \<and> ?single)"
    | "na_less y x" "\<not> (p_name x = p_name y \<and> ?single)"
    by (fastforce simp: na_less_def same_na_def)
  then show ?case
  proof cases
    case 1
    then have "p = x \<longleftrightarrow> q = y"
      using p q pq(3) same_na_sym same_na_trans na_less_same by metis
    moreover have "align evr (x # a) (y # b) =
        (if evr (p_evr x) (p_evr y) = 0 then Same x y else Changed x y) # align evr a b"
      using 1 by (simp add: same_na_def)
    moreover have "p \<in> set a \<Longrightarrow> q \<in> set b \<Longrightarrow>
        (if evr (p_evr p) (p_evr q) = 0 then Same p q else Changed p q) \<in> set (align evr a b)"
      using 1 "1.IH"(3) tails pq(3) by (simp add: same_na_def)
    ultimately show ?thesis using pq by auto
  next
    case 2
    have "\<forall>x' \<in> set a. p_name x' \<noteq> p_name x" "\<forall>y' \<in> set b. p_name y' \<noteq> p_name y"
      using 2(3) next_different_all sorted by blast+
    moreover have "p_name p = p_name q" "p_arch p = p_arch q" using pq(3) by (simp_all add: same_na_def)
    ultimately have "p \<in> set a" "q \<in> set b" using 2(1,2) pq(1,2) by (metis set_ConsD)+
    then have "(if evr (p_evr p) (p_evr q) = 0 then Same p q else Changed p q) \<in> set (align evr a b)"
      using 2 "1.IH"(4) tails pq(3) by simp
    then show ?thesis using 2 by simp
  next
    case 3
    with not_first' pq have "p \<in> set a" by simp
    then have "(if evr (p_evr p) (p_evr q) = 0 then Same p q else Changed p q) \<in> set (align evr a (y # b))"
      using 3 "1.IH"(1) [OF _ tails(1) sorted(2) _ pq(2,3)] "1.IH"(5) [OF _ _ _ _ _ tails(1) sorted(2) _ pq(2,3)]
      by (cases "p_name x < p_name y") (auto simp: na_less_def)
    then show ?thesis using align_less_a [OF 3] by simp
  next
    case 4
    with not_first pq have "q \<in> set b" by simp
    then have "(if evr (p_evr p) (p_evr q) = 0 then Same p q else Changed p q) \<in> set (align evr (x # a) b)"
      using 4 "1.IH"(2) [OF _ _ sorted(1) tails(2) pq(1) _ pq(3)]
        "1.IH"(6) [OF _ _ _ _ _ sorted(1) tails(2) pq(1) _ pq(3)]
      by (cases "p_name y < p_name x") (auto simp: na_less_def)
    then show ?thesis using align_less_b [OF 4] by simp
  qed
qed auto

lemma zip_modified:
  "zip (modified_a (rpm_ostree_diff_package_lists evr a b)) (modified_b (rpm_ostree_diff_package_lists evr a b)) =
     concat (map (\<lambda>e. case e of Changed x y \<Rightarrow> [(x, y)] | _ \<Rightarrow> []) (align evr a b))"
proof -
  have "zip (concat (map (\<lambda>e. case e of Changed x y \<Rightarrow> [x] | _ \<Rightarrow> []) es))
            (concat (map (\<lambda>e. case e of Changed x y \<Rightarrow> [y] | _ \<Rightarrow> []) es)) =
        concat (map (\<lambda>e. case e of Changed x y \<Rightarrow> [(x, y)] | _ \<Rightarrow> []) es)" for es
    by (induction es) (auto split: diff_step.splits)
  then show ?thesis by (simp add: diff_package_lists_eq)
qed

lemma diff_sets:
  "set (unique_a (rpm_ostree_diff_package_lists evr a b)) = {x. Only_a x \<in> set (align evr a b)}"
  "set (unique_b (rpm_ostree_diff_package_lists evr a b)) = {y. Only_b y \<in> set (align evr a b)}"
  "set (common (rpm_ostree_diff_package_lists evr a b)) = {x. \<exists>y. Same x y \<in> set (align evr a b)}"
  "set (zip (modified_a (rpm_ostree_diff_package_lists evr a b)) (modified_b (rpm_ostree_diff_package_lists evr a b))) =
     {(x, y). Changed x y \<in> set (align evr a b)}"
  unfolding zip_modified
  by (auto simp: diff_package_lists_eq split: diff_step.splits)

subsection \<open>Properties\<close>

text \<open>Whatever the order of the inputs, every package of the first list ends up in exactly one of
  removed, modified-old and unchanged, every package of the second list in exactly one of added,
  modified-new and unchanged, and the two modified arrays are paired (the assertion at the end of the
  function holds).\<close>

theorem diff_package_lists_partition:
  "let d = rpm_ostree_diff_package_lists evr a b
   in mset a = mset (unique_a d) + mset (modified_a d) + mset (common d) \<and>
      mset (unique_b d) + mset (modified_b d) \<subseteq># mset b \<and>
      length b = length (unique_b d) + length (modified_b d) + length (common d) \<and>
      length (modified_a d) = length (modified_b d)"
proof -
  let ?es = "align evr a b"
  let ?cb = "concat (map (\<lambda>e. case e of Same x y \<Rightarrow> [y] | _ \<Rightarrow> []) ?es)"
  let ?d = "rpm_ostree_diff_package_lists evr a b"
  have a: "mset a = mset (unique_a ?d) + mset (modified_a ?d) + mset (common ?d)"
    using mset_steps(1) [of ?es] by (simp add: align_steps diff_package_lists_eq)
  have b: "mset b = mset (unique_b ?d) + mset (modified_b ?d) + mset ?cb"
    using mset_steps(2) [of ?es] by (simp add: align_steps diff_package_lists_eq)
  have len: "length (concat (map (\<lambda>e. case e of Changed x y \<Rightarrow> [x] | _ \<Rightarrow> []) es)) =
      length (concat (map (\<lambda>e. case e of Changed x y \<Rightarrow> [y] | _ \<Rightarrow> []) es))"
    "length (concat (map (\<lambda>e. case e of Same x y \<Rightarrow> [y] | _ \<Rightarrow> []) es)) =
      length (concat (map (\<lambda>e. case e of Same x y \<Rightarrow> [x] | _ \<Rightarrow> []) es))" for es
    by (induction es) (auto split: diff_step.splits)
  have "length b = length (unique_b ?d) + length (modified_b ?d) + length (common ?d)"
    using arg_cong [OF b, of size] len(2) [of ?es] by (simp add: diff_package_lists_eq)
  with a b len(1) [of ?es] show ?thesis
    by (simp add: Let_def) (simp add: diff_package_lists_eq)
qed

lemma diff_sorted_facts:
  assumes "sorted_wrt na_less a" "sorted_wrt na_less b"
    and "d = rpm_ostree_diff_package_lists evr a b"
  shows "x \<in> set (common d) \<longleftrightarrow> x \<in> set a \<and> (\<exists>y \<in> set b. same_na x y \<and> evr (p_evr x) (p_evr y) = 0)"
    and "x \<in> set (unique_a d) \<Longrightarrow> x \<in> set a \<and> (\<forall>y \<in> set b. \<not> same_na x y)"
    and "y \<in> set (unique_b d) \<Longrightarrow> y \<in> set b \<and> (\<forall>x \<in> set a. \<not> same_na x y)"
    and "(x, y) \<in> set (zip (modified_a d) (modified_b d)) \<Longrightarrow>
           p_name x = p_name y \<and> (p_arch x = p_arch y \<longrightarrow> evr (p_evr x) (p_evr y) \<noteq> 0)"
    and "x \<in> set a \<Longrightarrow> y \<in> set b \<Longrightarrow> same_na x y \<Longrightarrow> evr (p_evr x) (p_evr y) \<noteq> 0 \<Longrightarrow>
           (x, y) \<in> set (zip (modified_a d) (modified_b d))"
proof -
  note ok = align_ok [OF assms(1,2), of evr]
  note complete = align_complete [OF assms(1,2), of _ _ evr]
  show "x \<in> set (common d) \<longleftrightarrow> x \<in> set a \<and> (\<exists>y \<in> set b. same_na x y \<and> evr (p_evr x) (p_evr y) = 0)"
  proof
    assume "x \<in> set (common d)"
    then obtain y where "Same x y \<in> set (align evr a b)" by (auto simp: assms(3) diff_sets)
    with ok align_members [OF this] show "x \<in> set a \<and> (\<exists>y \<in> set b. same_na x y \<and> evr (p_evr x) (p_evr y) = 0)"
      by fastforce
  next
    assume "x \<in> set a \<and> (\<exists>y \<in> set b. same_na x y \<and> evr (p_evr x) (p_evr y) = 0)"
    with complete [of x] show "x \<in> set (common d)" by (fastforce simp: assms(3) diff_sets)
  qed
  show "x \<in> set (unique_a d) \<Longrightarrow> x \<in> set a \<and> (\<forall>y \<in> set b. \<not> same_na x y)"
    using ok align_members [of "Only_a x" evr a b] by (force simp: assms(3) diff_sets)
  show "y \<in> set (unique_b d) \<Longrightarrow> y \<in> set b \<and> (\<forall>x \<in> set a. \<not> same_na x y)"
    using ok align_members [of "Only_b y" evr a b] by (force simp: assms(3) diff_sets)
  show "(x, y) \<in> set (zip (modified_a d) (modified_b d)) \<Longrightarrow>
      p_name x = p_name y \<and> (p_arch x = p_arch y \<longrightarrow> evr (p_evr x) (p_evr y) \<noteq> 0)"
    using ok by (force simp: assms(3) diff_sets same_na_def)
  show "x \<in> set a \<Longrightarrow> y \<in> set b \<Longrightarrow> same_na x y \<Longrightarrow> evr (p_evr x) (p_evr y) \<noteq> 0 \<Longrightarrow>
      (x, y) \<in> set (zip (modified_a d) (modified_b d))"
    using complete [of x y] by (auto simp: assms(3) diff_sets)
qed


definition mk_pkg :: "string \<Rightarrow> string \<Rightarrow> string \<Rightarrow> RpmOstreePackage" where
  "mk_pkg name evr arch = \<lparr>p_name = name, p_evr = evr, p_arch = arch, p_nevra = name @ ''-'' @ evr @ ''.'' @ arch\<rparr>"

lemma mk_pkg_sel [simp]: "p_name (mk_pkg n e a) = n" "p_evr (mk_pkg n e a) = e" "p_arch (mk_pkg n e a) = a"
  by (simp_all add: mk_pkg_def)


end
