(* ===== verification/Pkg_Db.thy ===== *)
theory Pkg_Db
  imports Pkg_Diff
begin

text \<open>
  Package lists of commits and the two D-Bus renderings of their difference:
  \<open>_rpm_ostree_package_list_for_commit\<close> (\<^verbatim>\<open>src/src/lib/rpmostree-package.c\<close>), \<open>rpm_ostree_db_diff_ext\<close>
  (\<^verbatim>\<open>src/src/lib/rpmostree-db.c\<close>), \<open>rpm_ostree_db_diff_variant\<close>
  (\<^verbatim>\<open>src/src/daemon/rpmostree-package-variants.cxx\<close>) and the \<open>RpmDiff\<close> of
  \<^verbatim>\<open>src/src/daemon/rpmostreed-deployment-utils.cxx\<close>.
\<close>

section \<open>Package lists of commits\<close>

text \<open>
  The calls into libostree and the helper process are parameters: resolving a ref, loading a
  commit, its \<open>rpmostree.rpmdb.pkglist\<close> metadata, and the list the helper reads out of the commit's
  rpmdb (\<open>None\<close> when the commit has none).
\<close>

record 'c repo_ops =
  resolve_rev :: "string \<Rightarrow> string result"
  load_commit :: "string \<Rightarrow> 'c result"
  get_commit_rpmdb_pkglist :: "'c \<Rightarrow> gv_nevra list option"
  ipc_packagelist_from_commit :: "string \<Rightarrow> gv_nevra list option result"

definition package_variant_list_for_commit ::
  "'c repo_ops \<Rightarrow> string \<Rightarrow> bool \<Rightarrow> gv_nevra list option result" where
  "package_variant_list_for_commit repo revspec allow_noent =
     prefix_error ''Loading package list''
     (bindR (resolve_rev repo revspec) (\<lambda>checksum.
      bindR (load_commit repo checksum) (\<lambda>commit.
       case get_commit_rpmdb_pkglist repo commit of
         Some pkglist_v \<Rightarrow> Inr (Some pkglist_v)
       | None \<Rightarrow>
           bindR (ipc_packagelist_from_commit repo revspec) (\<lambda>maybe_pkglist.
             case maybe_pkglist of
               Some pkglist_v \<Rightarrow> Inr (Some pkglist_v)
             | None \<Rightarrow> if allow_noent then Inr None
                       else Inl (Throw ''No package database found'' [])))))"

text \<open>
  The result is a \<open>GPtrArray\<close> pointer, so it could be \<open>NULL\<close>; counting the children of a \<open>NULL\<close> variant
  and the assertion that the list is not empty both stop the process.
\<close>

definition package_list_for_commit ::
  "'c repo_ops \<Rightarrow> string \<Rightarrow> bool \<Rightarrow> RpmOstreePackage list option result" where
  "package_list_for_commit repo revspec allow_noent =
     bindR (package_variant_list_for_commit repo revspec allow_noent) (\<lambda>pkglist_v.
       case pkglist_v of
         None \<Rightarrow> Inl (Abort ''g_variant_n_children (NULL)'')
       | Some vs \<Rightarrow>
           let pkglist = map rpm_ostree_package_new_from_variant vs
           in if length pkglist > 0 then Inr (Some pkglist)
              else Inl (Abort ''pkglist->len > 0''))"

definition rpm_ostree_db_query_all :: "'c repo_ops \<Rightarrow> string \<Rightarrow> RpmOstreePackage list option result" where
  "rpm_ostree_db_query_all repo ref = package_list_for_commit repo ref False"

text \<open>\<open>None\<close> stands for the out parameters all set to \<open>NULL\<close>.\<close>

definition rpm_ostree_db_diff_ext ::
  "evr_cmp \<Rightarrow> 'c repo_ops \<Rightarrow> string \<Rightarrow> string \<Rightarrow> bool \<Rightarrow> pkg_diff option result" where
  "rpm_ostree_db_diff_ext evr repo orig_ref new_ref allow_noent =
     bindR (prefix_error ''Failed to load package list: '' (package_list_for_commit repo orig_ref allow_noent)) (\<lambda>orig_pkglist.
     bindR (case orig_pkglist of
              None \<Rightarrow> Inr None
            | Some _ \<Rightarrow> prefix_error ''Failed to load package list: '' (package_list_for_commit repo new_ref allow_noent)) (\<lambda>new_pkglist.
       case (orig_pkglist, new_pkglist) of
         (Some a, Some b) \<Rightarrow> Inr (Some (rpm_ostree_diff_package_lists evr a b))
       | _ \<Rightarrow> if allow_noent then Inr None else Inl (Abort ''allow_noent'')))"

definition rpm_ostree_db_diff ::
  "evr_cmp \<Rightarrow> 'c repo_ops \<Rightarrow> string \<Rightarrow> string \<Rightarrow> pkg_diff option result" where
  "rpm_ostree_db_diff evr repo orig_ref new_ref = rpm_ostree_db_diff_ext evr repo orig_ref new_ref False"

section \<open>The difference as a sorted variant\<close>

datatype RpmOstreePackageDiffTypes = PACKAGE_ADDED | PACKAGE_REMOVED | PACKAGE_UPGRADED | PACKAGE_DOWNGRADED

fun diff_type_num :: "RpmOstreePackageDiffTypes \<Rightarrow> u32" where
  "diff_type_num PACKAGE_ADDED = 0"
| "diff_type_num PACKAGE_REMOVED = 1"
| "diff_type_num PACKAGE_UPGRADED = 2"
| "diff_type_num PACKAGE_DOWNGRADED = 3"

text \<open>An entry \<open>(sua{sv})\<close>: its options hold the previous and the new package, when present.\<close>

type_synonym package_variant = "string \<times> string \<times> string"

definition package_variant_new :: "RpmOstreePackage \<Rightarrow> package_variant" where
  "package_variant_new package = (p_name package, p_evr package, p_arch package)"

record diff_variant =
  dv_name :: string
  dv_type :: RpmOstreePackageDiffTypes
  dv_previous :: "package_variant option"
  dv_new :: "package_variant option"

definition build_diff_variant ::
  "string \<Rightarrow> RpmOstreePackageDiffTypes \<Rightarrow> RpmOstreePackage option \<Rightarrow> RpmOstreePackage option \<Rightarrow> diff_variant" where
  "build_diff_variant name type old_package new_package =
     \<lparr>dv_name = name, dv_type = type, dv_previous = map_option package_variant_new old_package,
      dv_new = map_option package_variant_new new_package\<rparr>"

definition rpm_ostree_db_diff_variant_compare_by_name :: "diff_variant \<Rightarrow> diff_variant \<Rightarrow> int" where
  "rpm_ostree_db_diff_variant_compare_by_name v1 v2 = strcmp (dv_name v1) (dv_name v2)"

text \<open>The types are unsigned; their difference is taken modulo \<open>2 ^ 32\<close> and returned as a signed \<open>int\<close>.\<close>

definition rpm_ostree_db_diff_variant_compare_by_type :: "diff_variant \<Rightarrow> diff_variant \<Rightarrow> int" where
  "rpm_ostree_db_diff_variant_compare_by_type v1 v2 =
     (let type1 = diff_type_num (dv_type v1); type2 = diff_type_num (dv_type v2)
      in if type1 = type2 then rpm_ostree_db_diff_variant_compare_by_name v1 v2
         else sint (type1 - type2))"

definition modified_variant :: "evr_cmp \<Rightarrow> RpmOstreePackage \<times> RpmOstreePackage \<Rightarrow> diff_variant" where
  "modified_variant evr = (\<lambda>(oldpkg, newpkg).
     build_diff_variant (p_name oldpkg)
       (if rpm_ostree_package_cmp evr oldpkg newpkg > 0 then PACKAGE_DOWNGRADED else PACKAGE_UPGRADED)
       (Some oldpkg) (Some newpkg))"

definition diff_variants :: "evr_cmp \<Rightarrow> pkg_diff \<Rightarrow> diff_variant list" where
  "diff_variants evr d =
     map (modified_variant evr) (zip (modified_a d) (modified_b d)) @
     map (\<lambda>pkg. build_diff_variant (p_name pkg) PACKAGE_REMOVED (Some pkg) None) (unique_a d) @
     map (\<lambda>pkg. build_diff_variant (p_name pkg) PACKAGE_ADDED None (Some pkg)) (unique_b d)"

definition rpm_ostree_db_diff_variant ::
  "evr_cmp \<Rightarrow> 'c repo_ops \<Rightarrow> string \<Rightarrow> string \<Rightarrow> bool \<Rightarrow> diff_variant list option result" where
  "rpm_ostree_db_diff_variant evr repo from_rev to_rev allow_noent =
     bindR (rpm_ostree_db_diff_ext evr repo from_rev to_rev allow_noent) (\<lambda>diff.
       case diff of
         None \<Rightarrow> if allow_noent then Inr None else Inl (Abort ''modified_old == NULL'')
       | Some d \<Rightarrow>
           if length (modified_a d) \<noteq> length (modified_b d)
           then Inl (Abort ''modified_old->len == modified_new->len'')
           else Inr (Some (sort_by rpm_ostree_db_diff_variant_compare_by_type (diff_variants evr d))))"

section \<open>The difference by category\<close>

datatype RpmOstreePkgTypes = PKG_TYPE_BASE | PKG_TYPE_LAYER

type_synonym single_pkg = "RpmOstreePkgTypes \<times> string \<times> string \<times> string"
type_synonym modified_pkg = "RpmOstreePkgTypes \<times> string \<times> (string \<times> string) \<times> (string \<times> string)"

record RpmDiff =
  rd_initialized :: bool
  rd_upgraded :: "modified_pkg list"
  rd_downgraded :: "modified_pkg list"
  rd_removed :: "single_pkg list"
  rd_added :: "single_pkg list"

definition rpm_diff_init :: "RpmDiff \<Rightarrow> RpmDiff result" where
  "rpm_diff_init diff =
     (if rd_initialized diff then Inl (Abort ''!diff->initialized'')
      else Inr \<lparr>rd_initialized = True, rd_upgraded = [], rd_downgraded = [], rd_removed = [], rd_added = []\<rparr>)"

definition single_pkg_variant_new :: "RpmOstreePkgTypes \<Rightarrow> RpmOstreePackage \<Rightarrow> single_pkg" where
  "single_pkg_variant_new type pkg = (type, p_name pkg, p_evr pkg, p_arch pkg)"

definition modified_pkg_variant_new ::
  "RpmOstreePkgTypes \<Rightarrow> RpmOstreePackage \<Rightarrow> RpmOstreePackage \<Rightarrow> modified_pkg result" where
  "modified_pkg_variant_new type pkg_old pkg_new =
     (if p_name pkg_old \<noteq> p_name pkg_new then Inl (Abort ''name_old == name_new'')
      else Inr (type, p_name pkg_old, (p_evr pkg_old, p_arch pkg_old), (p_evr pkg_new, p_arch pkg_new)))"

fun add_modified_pkgs ::
  "evr_cmp \<Rightarrow> RpmOstreePkgTypes \<Rightarrow> (RpmOstreePackage \<times> RpmOstreePackage) list \<Rightarrow> RpmDiff \<Rightarrow> RpmDiff result" where
  "add_modified_pkgs evr type [] diff = Inr diff"
| "add_modified_pkgs evr type ((old_pkg, new_pkg) # ps) diff =
     bindR (modified_pkg_variant_new type old_pkg new_pkg) (\<lambda>v.
       add_modified_pkgs evr type ps
         (if rpm_ostree_package_cmp evr old_pkg new_pkg < 0
          then diff\<lparr>rd_upgraded := rd_upgraded diff @ [v]\<rparr>
          else diff\<lparr>rd_downgraded := rd_downgraded diff @ [v]\<rparr>))"

definition rpm_diff_add_db_diff ::
  "evr_cmp \<Rightarrow> 'c repo_ops \<Rightarrow> RpmDiff \<Rightarrow> RpmOstreePkgTypes \<Rightarrow> string \<Rightarrow> string \<Rightarrow>
   (RpmDiff \<times> RpmOstreePackage list option) result" where
  "rpm_diff_add_db_diff evr repo diff type old_checksum new_checksum =
     bindR (rpm_ostree_db_diff_ext evr repo old_checksum new_checksum True) (\<lambda>r.
       case r of
         None \<Rightarrow> Inr (diff, None)
       | Some d \<Rightarrow>
           if length (modified_a d) \<noteq> length (modified_b d)
           then Inl (Abort ''modified_old->len == modified_new->len'')
           else
             let diff = diff\<lparr>rd_removed := rd_removed diff @ map (single_pkg_variant_new type) (unique_a d)\<rparr>;
                 diff = diff\<lparr>rd_added := rd_added diff @ map (single_pkg_variant_new type) (unique_b d)\<rparr>
             in bindR (add_modified_pkgs evr type (zip (modified_a d) (modified_b d)) diff)
                  (\<lambda>diff. Inr (diff, Some (modified_b d))))"

definition rpm_diff_is_empty :: "RpmDiff \<Rightarrow> bool result" where
  "rpm_diff_is_empty diff =
     (if \<not> rd_initialized diff then Inl (Abort ''diff->initialized'')
      else Inr (length (rd_upgraded diff) = 0 \<and> length (rd_downgraded diff) = 0 \<and>
                length (rd_removed diff) = 0 \<and> length (rd_added diff) = 0))"

text \<open>The name is the second component of either tuple.\<close>

definition sort_pkgvariant_by_name :: "('t \<times> string \<times> 'r) \<Rightarrow> ('t \<times> string \<times> 'r) \<Rightarrow> int" where
  "sort_pkgvariant_by_name pkg_a pkg_b = strcmp (fst (snd pkg_a)) (fst (snd pkg_b))"

definition array_to_variant_new :: "('t \<times> string \<times> 'r) list \<Rightarrow> ('t \<times> string \<times> 'r) list" where
  "array_to_variant_new array = (if length array = 0 then [] else sort_by sort_pkgvariant_by_name array)"

record rpm_diff_variant =
  rv_upgraded :: "modified_pkg list"
  rv_downgraded :: "modified_pkg list"
  rv_removed :: "single_pkg list"
  rv_added :: "single_pkg list"

definition rpm_diff_variant_new :: "RpmDiff \<Rightarrow> rpm_diff_variant result" where
  "rpm_diff_variant_new diff =
     (if \<not> rd_initialized diff then Inl (Abort ''diff->initialized'')
      else Inr \<lparr>rv_upgraded = array_to_variant_new (rd_upgraded diff),
                rv_downgraded = array_to_variant_new (rd_downgraded diff),
                rv_removed = array_to_variant_new (rd_removed diff),
                rv_added = array_to_variant_new (rd_added diff)\<rparr>)"

subsection \<open>Newer layered packages in the repository metadata\<close>

text \<open>
  A libdnf query over the sack is a parameter: \<open>q_newer pkg\<close> are the latest packages of that name with a
  greater EVR, none of them sources, \<open>q_nevra pkg\<close> and \<open>q_exact pkg\<close> the ones with the same NEVRA.
\<close>

record DnfPackage =
  dnf_name :: string
  dnf_evr :: string
  dnf_arch :: string

record sack_ops =
  q_newer :: "RpmOstreePackage \<Rightarrow> DnfPackage list"
  q_nevra :: "RpmOstreePackage \<Rightarrow> DnfPackage list"
  q_exact :: "RpmOstreePackage \<Rightarrow> DnfPackage list"
  dnf_package_cmp :: "DnfPackage \<Rightarrow> DnfPackage \<Rightarrow> int"

definition find_package :: "sack_ops \<Rightarrow> bool \<Rightarrow> RpmOstreePackage \<Rightarrow> DnfPackage option" where
  "find_package sack newer pkg =
     (let pkgs = (if newer then q_newer sack pkg else q_nevra sack pkg)
      in if length pkgs = 0 then None
         else let pkgs = sort_by (dnf_package_cmp sack) pkgs in Some (pkgs ! (length pkgs - 1)))"

definition modified_dnfpkg_variant_new ::
  "RpmOstreePkgTypes \<Rightarrow> RpmOstreePackage \<Rightarrow> DnfPackage \<Rightarrow> modified_pkg result" where
  "modified_dnfpkg_variant_new type pkg_old pkg_new =
     (if p_name pkg_old \<noteq> dnf_name pkg_new then Inl (Abort ''name_old == name_new'')
      else Inr (type, p_name pkg_old, (p_evr pkg_old, p_arch pkg_old), (dnf_evr pkg_new, dnf_arch pkg_new)))"

definition rpm_diff_add_layered_diff :: "RpmDiff \<Rightarrow> RpmOstreePackage \<Rightarrow> DnfPackage \<Rightarrow> RpmDiff result" where
  "rpm_diff_add_layered_diff diff old_pkg new_pkg =
     bindR (modified_dnfpkg_variant_new PKG_TYPE_LAYER old_pkg new_pkg)
       (\<lambda>v. Inr (diff\<lparr>rd_upgraded := rd_upgraded diff @ [v]\<rparr>))"

fun guess_loop ::
  "sack_ops \<Rightarrow> RpmOstreePackage list \<Rightarrow> RpmDiff \<Rightarrow> DnfPackage list \<Rightarrow> (RpmDiff \<times> DnfPackage list) result" where
  "guess_loop sack [] rpm_diff newer_packages = Inr (rpm_diff, newer_packages)"
| "guess_loop sack (pkg # pkgs) rpm_diff newer_packages =
     (case find_package sack True pkg of
        None \<Rightarrow> guess_loop sack pkgs rpm_diff newer_packages
      | Some newer_pkg \<Rightarrow>
          bindR (rpm_diff_add_layered_diff rpm_diff pkg newer_pkg)
            (\<lambda>rpm_diff. guess_loop sack pkgs rpm_diff (newer_packages @ [newer_pkg])))"

definition rpmmd_diff_guess ::
  "evr_cmp \<Rightarrow> 'c repo_ops \<Rightarrow> string \<Rightarrow> string \<Rightarrow> sack_ops \<Rightarrow> RpmDiff \<Rightarrow> (RpmDiff \<times> DnfPackage list option) result" where
  "rpmmd_diff_guess evr repo base_checksum layered_checksum sack rpm_diff =
     bindR (rpm_ostree_db_diff_ext evr repo base_checksum layered_checksum True) (\<lambda>d.
       case map_option unique_b d of
         None \<Rightarrow> Inr (rpm_diff, None)
       | Some all_layered_pkgs \<Rightarrow>
           if length all_layered_pkgs = 0 then Inr (rpm_diff, None)
           else bindR (guess_loop sack all_layered_pkgs rpm_diff []) (\<lambda>(rpm_diff, newer_packages).
                  Inr (rpm_diff, if length newer_packages = 0 then None else Some newer_packages)))"

fun rpm_ostree_pkgs_to_dnf :: "sack_ops \<Rightarrow> RpmOstreePackage list \<Rightarrow> DnfPackage list" where
  "rpm_ostree_pkgs_to_dnf sack [] = []"
| "rpm_ostree_pkgs_to_dnf sack (pkg # pkgs) =
     (case q_exact sack pkg of [] \<Rightarrow> [] | p # _ \<Rightarrow> [p]) @ rpm_ostree_pkgs_to_dnf sack pkgs"

section \<open>What is shown\<close>

lemma db_diff_variant_sint:
  "diff_type_num s \<noteq> diff_type_num t \<Longrightarrow>
   sint (diff_type_num s - diff_type_num t) = int (unat (diff_type_num s)) - int (unat (diff_type_num t))"
  by (cases s; cases t; simp)

lemma diff_type_num_inj [simp]: "diff_type_num s = diff_type_num t \<longleftrightarrow> s = t"
  by (cases s; cases t; simp)

lemma compare_by_type_alt:
  "rpm_ostree_db_diff_variant_compare_by_type =
     cmp_then (\<lambda>v w. int (unat (diff_type_num (dv_type v))) - int (unat (diff_type_num (dv_type w))))
       (\<lambda>v w. strcmp (dv_name v) (dv_name w))"
proof (intro ext)
  fix v w
  show "rpm_ostree_db_diff_variant_compare_by_type v w =
     cmp_then (\<lambda>v w. int (unat (diff_type_num (dv_type v))) - int (unat (diff_type_num (dv_type w))))
       (\<lambda>v w. strcmp (dv_name v) (dv_name w)) v w"
  proof (cases "dv_type v = dv_type w")
    case True
    then show ?thesis
      by (simp add: rpm_ostree_db_diff_variant_compare_by_type_def cmp_then_def
          rpm_ostree_db_diff_variant_compare_by_name_def)
  next
    case False
    then show ?thesis
      using db_diff_variant_sint [of "dv_type v" "dv_type w"]
      by (simp add: rpm_ostree_db_diff_variant_compare_by_type_def cmp_then_def word_uint_eq_iff [symmetric])
  qed
qed

lemma compare_by_type_le_iff:
  "rpm_ostree_db_diff_variant_compare_by_type v w \<le> 0 \<longleftrightarrow>
   diff_type_num (dv_type v) < diff_type_num (dv_type w) \<or> dv_type v = dv_type w \<and> dv_name v \<le> dv_name w"
  by (cases "dv_type v"; cases "dv_type w")
     (simp_all add: rpm_ostree_db_diff_variant_compare_by_type_def
       rpm_ostree_db_diff_variant_compare_by_name_def strcmp_le_iff)

lemma comparator_diff: "comparator (\<lambda>a b. int (f a) - int (f b))"
  by unfold_locales (auto simp: sgn_if)

interpretation diff_variant_order: comparator rpm_ostree_db_diff_variant_compare_by_type
  unfolding compare_by_type_alt
  by (rule comparator_then [OF comparator_diff comparator_on [OF strcmp.comparator_axioms]])

lemma align_Changed:
  "Changed x y \<in> set (align evr a b) \<Longrightarrow>
   p_name x = p_name y \<and> (p_arch x = p_arch y \<longrightarrow> evr (p_evr x) (p_evr y) \<noteq> 0)"
proof (induction evr a b rule: align.induct)
  case (1 evr x' a y' b)
  from "1.prems" show ?case
    by (simp split: if_splits) (use "1.IH" in auto)
qed auto

lemma modified_pairs:
  assumes "(x, y) \<in> set (zip (modified_a (rpm_ostree_diff_package_lists evr a b))
                              (modified_b (rpm_ostree_diff_package_lists evr a b)))"
  shows "p_name x = p_name y" and "rpm_ostree_package_cmp evr x y \<noteq> 0"
proof -
  from assms have "Changed x y \<in> set (align evr a b)"
    using diff_sets(4) by blast
  from align_Changed [OF this] show "p_name x = p_name y" "rpm_ostree_package_cmp evr x y \<noteq> 0"
    by (auto simp: rpm_ostree_package_cmp_def Let_def)
qed

lemma modified_lengths:
  "length (modified_a (rpm_ostree_diff_package_lists evr a b)) =
   length (modified_b (rpm_ostree_diff_package_lists evr a b))"
proof -
  have "length (concat (map (\<lambda>e. case e of Changed x y \<Rightarrow> [x] | _ \<Rightarrow> []) es)) =
        length (concat (map (\<lambda>e. case e of Changed x y \<Rightarrow> [y] | _ \<Rightarrow> []) es))" for es
    by (induction es) (simp_all split: diff_step.splits)
  then show ?thesis by (simp add: diff_package_lists_eq)
qed

lemma package_list_not_null: "package_list_for_commit repo r noent \<noteq> Inr None"
  by (auto simp: package_list_for_commit_def bindR_Inr_iff Let_def split: option.splits)

lemma db_diff_ext_lists:
  assumes "package_list_for_commit repo from noent = Inr (Some p)"
    and "package_list_for_commit repo to noent = Inr (Some q)"
  shows "rpm_ostree_db_diff_ext evr repo from to noent = Inr (Some (rpm_ostree_diff_package_lists evr p q))"
  using assms by (simp add: rpm_ostree_db_diff_ext_def)

subsection \<open>A small repository\<close>

text \<open>Two commits with package lists, \<open>A\<close> and \<open>B\<close>; every other revision has none.\<close>

definition example_repo :: "string repo_ops" where
  "example_repo = \<lparr>resolve_rev = Inr, load_commit = Inr,
     get_commit_rpmdb_pkglist = (\<lambda>c.
       if c = ''A'' then Some [(''bash'', ''0'', ''1'', ''1'', ''i686''), (''vim'', ''0'', ''3'', ''1'', ''i686'')]
       else if c = ''B'' then Some [(''bash'', ''0'', ''2'', ''1'', ''i686''), (''zsh'', ''0'', ''5'', ''1'', ''i686'')]
       else None),
     ipc_packagelist_from_commit = (\<lambda>_. Inr None)\<rparr>"

lemma example_lists:
  "package_list_for_commit example_repo ''A'' noent =
     Inr (Some [mk_pkg ''bash'' ''1-1'' ''i686'', mk_pkg ''vim'' ''3-1'' ''i686''])"
  "package_list_for_commit example_repo ''B'' noent =
     Inr (Some [mk_pkg ''bash'' ''2-1'' ''i686'', mk_pkg ''zsh'' ''5-1'' ''i686''])"
  by (simp_all add: package_list_for_commit_def package_variant_list_for_commit_def example_repo_def mk_pkg_def)

lemma example_diff:
  "rpm_ostree_diff_package_lists strcmp
      [mk_pkg ''bash'' ''1-1'' ''i686'', mk_pkg ''vim'' ''3-1'' ''i686'']
      [mk_pkg ''bash'' ''2-1'' ''i686'', mk_pkg ''zsh'' ''5-1'' ''i686''] =
   \<lparr>unique_a = [mk_pkg ''vim'' ''3-1'' ''i686''], unique_b = [mk_pkg ''zsh'' ''5-1'' ''i686''],
    modified_a = [mk_pkg ''bash'' ''1-1'' ''i686''], modified_b = [mk_pkg ''bash'' ''2-1'' ''i686''], common = []\<rparr>"
  by (simp add: rpm_ostree_diff_package_lists_def empty_diff_def diff_adds mk_pkg_def)

text \<open>
  \<open>rpm_ostree_db_diff_ext\<close> never reports the missing package database that its flag \<open>ALLOW_NOENT\<close> is for:
  no call returns the \<open>NULL\<close> arrays, because reading the list of a commit without one stops the process.
\<close>

theorem db_diff_never_null:
  "rpm_ostree_db_diff_ext evr repo from to noent \<noteq> Inr None \<and>
   (package_variant_list_for_commit repo from noent = Inr None \<longrightarrow>
    \<not> safe (rpm_ostree_db_diff_ext evr repo from to noent))"
  using package_list_not_null
  by (auto simp: rpm_ostree_db_diff_ext_def bindR_Inr_iff safe_bindR package_list_for_commit_def
      split: option.splits)

theorem db_diff_never_null_witness:
  "package_variant_list_for_commit example_repo ''old'' True = Inr None \<and>
   \<not> safe (rpm_ostree_db_diff_ext strcmp example_repo ''old'' ''B'' True)"
proof -
  have "package_variant_list_for_commit example_repo ''old'' True = Inr None"
    by (simp add: package_variant_list_for_commit_def example_repo_def)
  with db_diff_never_null [of strcmp example_repo "''old''" "''B''" True] show ?thesis by blast
qed

text \<open>
  For two commits with package lists, the diff variant is built without a failing assertion. It is
  ordered by change type and then by name, and holds exactly one entry per modified pair, removed
  package and added package of the list diff.
\<close>

theorem db_diff_variant_sorted:
  assumes "package_list_for_commit repo from noent = Inr (Some p)"
    and "package_list_for_commit repo to noent = Inr (Some q)"
  shows "\<exists>vs. rpm_ostree_db_diff_variant evr repo from to noent = Inr (Some vs) \<and>
     sorted_wrt (\<lambda>v w. diff_type_num (dv_type v) < diff_type_num (dv_type w) \<or>
                        dv_type v = dv_type w \<and> dv_name v \<le> dv_name w) vs \<and>
     mset vs = mset (diff_variants evr (rpm_ostree_diff_package_lists evr p q))"
proof -
  let ?vs = "sort_by rpm_ostree_db_diff_variant_compare_by_type
               (diff_variants evr (rpm_ostree_diff_package_lists evr p q))"
  have "sorted_by rpm_ostree_db_diff_variant_compare_by_type ?vs"
    by (rule diff_variant_order.sorted_sort_by)
  then have "sorted_wrt (\<lambda>v w. diff_type_num (dv_type v) < diff_type_num (dv_type w) \<or>
                        dv_type v = dv_type w \<and> dv_name v \<le> dv_name w) ?vs"
    by (rule sorted_wrt_mono_rel [rotated])
       (simp add: compare_by_type_le_iff)
  then show ?thesis
    using db_diff_ext_lists [OF assms, of evr] modified_lengths [of evr p q]
    by (simp add: rpm_ostree_db_diff_variant_def)
qed

theorem db_diff_variant_sorted_witness:
  "\<exists>vs. rpm_ostree_db_diff_variant strcmp example_repo ''A'' ''B'' False = Inr (Some vs) \<and>
     mset (map (\<lambda>v. (dv_name v, dv_type v)) vs) =
       {#(''zsh'', PACKAGE_ADDED), (''vim'', PACKAGE_REMOVED), (''bash'', PACKAGE_UPGRADED)#}"
proof -
  obtain vs where "rpm_ostree_db_diff_variant strcmp example_repo ''A'' ''B'' False = Inr (Some vs)"
    and "mset vs = mset (diff_variants strcmp (rpm_ostree_diff_package_lists strcmp
      [mk_pkg ''bash'' ''1-1'' ''i686'', mk_pkg ''vim'' ''3-1'' ''i686'']
      [mk_pkg ''bash'' ''2-1'' ''i686'', mk_pkg ''zsh'' ''5-1'' ''i686'']))"
    using db_diff_variant_sorted [OF example_lists, of strcmp False] by blast
  then show ?thesis
    by (simp add: example_diff diff_variants_def modified_variant_def build_diff_variant_def
        rpm_ostree_package_cmp_def)
qed

subsection \<open>The two renderings agree\<close>

definition as_modified :: "RpmOstreePkgTypes \<Rightarrow> diff_variant \<Rightarrow> modified_pkg" where
  "as_modified type v =
     (type, dv_name v, (case dv_previous v of Some (_, evr, arch) \<Rightarrow> (evr, arch)),
      (case dv_new v of Some (_, evr, arch) \<Rightarrow> (evr, arch)))"

definition as_single :: "RpmOstreePkgTypes \<Rightarrow> diff_variant \<Rightarrow> single_pkg" where
  "as_single type v =
     (case (dv_previous v, dv_new v) of
        (Some (name, evr, arch), _) \<Rightarrow> (type, name, evr, arch)
      | (None, Some (name, evr, arch)) \<Rightarrow> (type, name, evr, arch))"

lemma add_modified_pkgs_eq:
  "\<forall>(x, y) \<in> set ps. p_name x = p_name y \<and> rpm_ostree_package_cmp evr x y \<noteq> 0 \<Longrightarrow>
   add_modified_pkgs evr type ps d =
     Inr (d\<lparr>rd_upgraded := rd_upgraded d @
              map (as_modified type) (filter (\<lambda>v. dv_type v = PACKAGE_UPGRADED) (map (modified_variant evr) ps)),
            rd_downgraded := rd_downgraded d @
              map (as_modified type) (filter (\<lambda>v. dv_type v = PACKAGE_DOWNGRADED) (map (modified_variant evr) ps))\<rparr>)"
proof (induction ps arbitrary: d)
  case (Cons xy ps)
  then show ?case
    by (cases xy) (auto simp: modified_pkg_variant_new_def modified_variant_def build_diff_variant_def package_variant_new_def as_modified_def)
qed simp

lemma modified_variant_type:
  "dv_type (modified_variant evr p) \<noteq> PACKAGE_ADDED" "dv_type (modified_variant evr p) \<noteq> PACKAGE_REMOVED"
  by (auto simp: modified_variant_def build_diff_variant_def split: prod.splits)

lemma filter_diff_variants:
  "filter (\<lambda>v. dv_type v = PACKAGE_UPGRADED) (diff_variants evr d) =
     filter (\<lambda>v. dv_type v = PACKAGE_UPGRADED) (map (modified_variant evr) (zip (modified_a d) (modified_b d)))"
  "filter (\<lambda>v. dv_type v = PACKAGE_DOWNGRADED) (diff_variants evr d) =
     filter (\<lambda>v. dv_type v = PACKAGE_DOWNGRADED) (map (modified_variant evr) (zip (modified_a d) (modified_b d)))"
  "map (as_single type) (filter (\<lambda>v. dv_type v = PACKAGE_REMOVED) (diff_variants evr d)) =
     map (single_pkg_variant_new type) (unique_a d)"
  "map (as_single type) (filter (\<lambda>v. dv_type v = PACKAGE_ADDED) (diff_variants evr d)) =
     map (single_pkg_variant_new type) (unique_b d)"
  by (simp_all add: diff_variants_def filter_map comp_def build_diff_variant_def modified_variant_type
      package_variant_new_def single_pkg_variant_new_def as_single_def)

lemma add_db_diff_eq:
  assumes "package_list_for_commit repo from True = Inr (Some p)"
    and "package_list_for_commit repo to True = Inr (Some q)"
    and d: "d = rpm_ostree_diff_package_lists evr p q"
  shows "rpm_diff_add_db_diff evr repo diff type from to =
    Inr (\<lparr>rd_initialized = rd_initialized diff,
          rd_upgraded = rd_upgraded diff @ map (as_modified type) (filter (\<lambda>v. dv_type v = PACKAGE_UPGRADED) (diff_variants evr d)),
          rd_downgraded = rd_downgraded diff @ map (as_modified type) (filter (\<lambda>v. dv_type v = PACKAGE_DOWNGRADED) (diff_variants evr d)),
          rd_removed = rd_removed diff @ map (as_single type) (filter (\<lambda>v. dv_type v = PACKAGE_REMOVED) (diff_variants evr d)),
          rd_added = rd_added diff @ map (as_single type) (filter (\<lambda>v. dv_type v = PACKAGE_ADDED) (diff_variants evr d))\<rparr>,
         Some (modified_b d))"
proof -
  have "\<forall>(x, y) \<in> set (zip (modified_a d) (modified_b d)).
          p_name x = p_name y \<and> rpm_ostree_package_cmp evr x y \<noteq> 0"
    using modified_pairs [of _ _ evr p q] by (auto simp: d)
  note pairs = add_modified_pkgs_eq [OF this]
  show ?thesis
    using db_diff_ext_lists [OF assms(1,2), of evr] modified_lengths [of evr p q]
    by (simp add: rpm_diff_add_db_diff_def d [symmetric] pairs filter_diff_variants Let_def)
qed

text \<open>
  C35: the two D-Bus renderings of a commit difference classify every package alike. Adding the difference
  to a fresh \<open>RpmDiff\<close> succeeds, the assertion that paired packages share their name included, and the
  upgraded, downgraded, removed and added arrays are, up to order, the entries of that type in
  the diff variant. An entry is never neither upgrade nor downgrade, although one routine tests
  for a negative and the other for a positive comparison.
\<close>

theorem db_diff_renderings_agree:
  assumes "package_list_for_commit repo from True = Inr (Some p)"
    and "package_list_for_commit repo to True = Inr (Some q)"
    and "rpm_diff_init d0 = Inr diff"
  shows "\<exists>vs d ms. rpm_ostree_db_diff_variant evr repo from to True = Inr (Some vs) \<and>
     rpm_diff_add_db_diff evr repo diff type from to = Inr (d, ms) \<and>
     mset (rd_upgraded d) = mset (map (as_modified type) (filter (\<lambda>v. dv_type v = PACKAGE_UPGRADED) vs)) \<and>
     mset (rd_downgraded d) = mset (map (as_modified type) (filter (\<lambda>v. dv_type v = PACKAGE_DOWNGRADED) vs)) \<and>
     mset (rd_removed d) = mset (map (as_single type) (filter (\<lambda>v. dv_type v = PACKAGE_REMOVED) vs)) \<and>
     mset (rd_added d) = mset (map (as_single type) (filter (\<lambda>v. dv_type v = PACKAGE_ADDED) vs))"
proof -
  let ?vs = "diff_variants evr (rpm_ostree_diff_package_lists evr p q)"
  have "rpm_ostree_db_diff_variant evr repo from to True =
          Inr (Some (sort_by rpm_ostree_db_diff_variant_compare_by_type ?vs))"
    using db_diff_ext_lists [OF assms(1,2), of evr] modified_lengths [of evr p q]
    by (simp add: rpm_ostree_db_diff_variant_def)
  moreover have "diff = \<lparr>rd_initialized = True, rd_upgraded = [], rd_downgraded = [], rd_removed = [], rd_added = []\<rparr>"
    using assms(3) by (simp add: rpm_diff_init_def split: if_splits)
  ultimately show ?thesis
    by (simp add: add_db_diff_eq [OF assms(1,2) refl] mset_map mset_filter)
qed

theorem db_diff_renderings_agree_witness:
  "\<exists>vs d ms. rpm_ostree_db_diff_variant strcmp example_repo ''A'' ''B'' True = Inr (Some vs) \<and>
     rpm_diff_add_db_diff strcmp example_repo
       \<lparr>rd_initialized = True, rd_upgraded = [], rd_downgraded = [], rd_removed = [], rd_added = []\<rparr>
       PKG_TYPE_BASE ''A'' ''B'' = Inr (d, ms) \<and>
     mset (rd_upgraded d) = mset (map (as_modified PKG_TYPE_BASE) (filter (\<lambda>v. dv_type v = PACKAGE_UPGRADED) vs))"
proof -
  have "rpm_diff_init \<lparr>rd_initialized = False, rd_upgraded = [], rd_downgraded = [], rd_removed = [], rd_added = []\<rparr> =
      Inr \<lparr>rd_initialized = True, rd_upgraded = [], rd_downgraded = [], rd_removed = [], rd_added = []\<rparr>"
    by (simp add: rpm_diff_init_def)
  from db_diff_renderings_agree [OF example_lists this, of strcmp PKG_TYPE_BASE] show ?thesis by blast
qed

subsection \<open>Newer layered packages\<close>

lemma find_package_max:
  assumes "comparator (dnf_package_cmp sack)" and "find_package sack True pkg = Some p"
  shows "p \<in> set (q_newer sack pkg)" and "q \<in> set (q_newer sack pkg) \<Longrightarrow> dnf_package_cmp sack q p \<le> 0"
proof -
  let ?s = "sort_by (dnf_package_cmp sack) (q_newer sack pkg)"
  from assms(2) have ne: "?s \<noteq> []" and p: "p = last ?s"
    using last_conv_nth [of ?s] length_sort_by [of "dnf_package_cmp sack" "q_newer sack pkg"]
    by (auto simp: find_package_def Let_def split: if_splits)
  then show "p \<in> set (q_newer sack pkg)"
    using last_in_set [of ?s] by simp
  assume "q \<in> set (q_newer sack pkg)"
  then have "q \<in> set (butlast ?s @ [last ?s])"
    using ne by (metis append_butlast_last_id set_sort_by)
  moreover have "sorted_by (dnf_package_cmp sack) (butlast ?s @ [last ?s])"
    using ne comparator.sorted_sort_by [OF assms(1)] by (metis append_butlast_last_id)
  ultimately show "dnf_package_cmp sack q p \<le> 0"
    using comparator.cmp_refl [OF assms(1)] by (auto simp: p sorted_wrt_append)
qed

lemma guess_loop_eq:
  assumes "\<forall>pkg. \<forall>p \<in> set (q_newer sack pkg). dnf_name p = p_name pkg"
    and "comparator (dnf_package_cmp sack)"
  shows "guess_loop sack pkgs diff newer =
     Inr (diff\<lparr>rd_upgraded := rd_upgraded diff @
                 concat (map (\<lambda>pkg. case find_package sack True pkg of None \<Rightarrow> []
                   | Some n \<Rightarrow> [(PKG_TYPE_LAYER, p_name pkg, (p_evr pkg, p_arch pkg), (dnf_evr n, dnf_arch n))]) pkgs)\<rparr>,
          newer @ List.map_filter (find_package sack True) pkgs)"
proof (induction pkgs arbitrary: diff newer)
  case (Cons pkg pkgs)
  show ?case
  proof (cases "find_package sack True pkg")
    case None
    then show ?thesis using Cons.IH by (simp add: List.map_filter_simps)
  next
    case (Some n)
    with find_package_max(1) [OF assms(2)] assms(1) have "p_name pkg = dnf_name n" by metis
    with Some show ?thesis
      using Cons.IH by (simp add: List.map_filter_simps rpm_diff_add_layered_diff_def modified_dnfpkg_variant_new_def)
  qed
qed (simp add: List.map_filter_simps)

text \<open>
  The layered packages with newer versions in the repository metadata. When the query for newer
  packages returns packages of the asked name, \<open>rpmmd_diff_guess\<close> adds one upgrade entry per package that
  is in the layered commit only and has a newer version, in order, naming a greatest candidate of the
  query; it returns \<open>NULL\<close> exactly when there is none.
\<close>

theorem rpmmd_diff_guess_upgrades:
  assumes names: "\<forall>pkg. \<forall>p \<in> set (q_newer sack pkg). dnf_name p = p_name pkg"
    and cmp: "comparator (dnf_package_cmp sack)"
    and "package_list_for_commit repo base True = Inr (Some p)"
    and "package_list_for_commit repo layered True = Inr (Some q)"
  shows "\<exists>newer. rpmmd_diff_guess evr repo base layered sack diff =
      Inr (diff\<lparr>rd_upgraded := rd_upgraded diff @
             map (\<lambda>(pkg, n). (PKG_TYPE_LAYER, p_name pkg, (p_evr pkg, p_arch pkg), (dnf_evr n, dnf_arch n))) newer\<rparr>,
           if newer = [] then None else Some (map snd newer)) \<and>
      map fst newer = filter (\<lambda>pkg. q_newer sack pkg \<noteq> []) (unique_b (rpm_ostree_diff_package_lists evr p q)) \<and>
      (\<forall>(pkg, n) \<in> set newer. n \<in> set (q_newer sack pkg) \<and> (\<forall>m \<in> set (q_newer sack pkg). dnf_package_cmp sack m n \<le> 0))"
proof -
  let ?new = "\<lambda>pkgs. concat (map (\<lambda>pkg. case find_package sack True pkg of None \<Rightarrow> [] | Some n \<Rightarrow> [(pkg, n)]) pkgs)"
  let ?b = "unique_b (rpm_ostree_diff_package_lists evr p q)"
  have up: "concat (map (\<lambda>pkg. case find_package sack True pkg of None \<Rightarrow> []
                   | Some n \<Rightarrow> [(PKG_TYPE_LAYER, p_name pkg, (p_evr pkg, p_arch pkg), (dnf_evr n, dnf_arch n))]) pkgs) =
      map (\<lambda>(pkg, n). (PKG_TYPE_LAYER, p_name pkg, (p_evr pkg, p_arch pkg), (dnf_evr n, dnf_arch n))) (?new pkgs)" for pkgs
    by (induction pkgs) (simp_all split: option.splits)
  have snd: "List.map_filter (find_package sack True) pkgs = map snd (?new pkgs)" for pkgs
    by (induction pkgs) (simp_all add: List.map_filter_simps split: option.splits)
  have fst: "map fst (?new pkgs) = filter (\<lambda>pkg. q_newer sack pkg \<noteq> []) pkgs" for pkgs
    by (induction pkgs) (simp_all add: find_package_def Let_def)
  have max: "\<forall>(pkg, n) \<in> set (?new ?b). n \<in> set (q_newer sack pkg) \<and> (\<forall>m \<in> set (q_newer sack pkg). dnf_package_cmp sack m n \<le> 0)"
    using find_package_max [OF cmp] by (fastforce split: option.splits)
  have "rpmmd_diff_guess evr repo base layered sack diff =
      Inr (diff\<lparr>rd_upgraded := rd_upgraded diff @
             map (\<lambda>(pkg, n). (PKG_TYPE_LAYER, p_name pkg, (p_evr pkg, p_arch pkg), (dnf_evr n, dnf_arch n))) (?new ?b)\<rparr>,
           if ?new ?b = [] then None else Some (map snd (?new ?b)))"
    using db_diff_ext_lists [OF assms(3,4), of evr]
    by (cases "?b = []")
       (simp_all add: rpmmd_diff_guess_def guess_loop_eq [OF names cmp] up snd del: concat_eq_Nil_conv)
  with fst [of ?b] max show ?thesis by blast
qed

definition example_sack :: sack_ops where
  "example_sack =
     \<lparr>q_newer = (\<lambda>pkg. if p_name pkg = ''zsh''
                       then [\<lparr>dnf_name = ''zsh'', dnf_evr = ''7-1'', dnf_arch = ''i686''\<rparr>,
                             \<lparr>dnf_name = ''zsh'', dnf_evr = ''6-1'', dnf_arch = ''i686''\<rparr>] else []),
      q_nevra = (\<lambda>_. []), q_exact = (\<lambda>_. []), dnf_package_cmp = (\<lambda>a b. strcmp (dnf_evr a) (dnf_evr b))\<rparr>"

theorem rpmmd_diff_guess_upgrades_witness:
  "\<exists>n. rpmmd_diff_guess strcmp example_repo ''A'' ''B'' example_sack
        \<lparr>rd_initialized = True, rd_upgraded = [], rd_downgraded = [], rd_removed = [], rd_added = []\<rparr> =
       Inr (\<lparr>rd_initialized = True,
             rd_upgraded = [(PKG_TYPE_LAYER, ''zsh'', (''5-1'', ''i686''), (dnf_evr n, dnf_arch n))],
             rd_downgraded = [], rd_removed = [], rd_added = []\<rparr>, Some [n]) \<and> dnf_evr n = ''7-1''"
proof -
  have names: "\<forall>pkg. \<forall>p \<in> set (q_newer example_sack pkg). dnf_name p = p_name pkg"
    by (auto simp: example_sack_def split: if_splits)
  have cmp: "comparator (dnf_package_cmp example_sack)"
    using comparator_on [OF strcmp.comparator_axioms, of dnf_evr] by (simp add: example_sack_def)
  have b: "filter (\<lambda>pkg. q_newer example_sack pkg \<noteq> []) (unique_b (rpm_ostree_diff_package_lists strcmp
      [mk_pkg ''bash'' ''1-1'' ''i686'', mk_pkg ''vim'' ''3-1'' ''i686'']
      [mk_pkg ''bash'' ''2-1'' ''i686'', mk_pkg ''zsh'' ''5-1'' ''i686''])) = [mk_pkg ''zsh'' ''5-1'' ''i686'']"
    unfolding example_diff by (simp add: example_sack_def)
  have max: "n \<in> set (q_newer example_sack (mk_pkg ''zsh'' ''5-1'' ''i686'')) \<and>
    (\<forall>m \<in> set (q_newer example_sack (mk_pkg ''zsh'' ''5-1'' ''i686'')). dnf_package_cmp example_sack m n \<le> 0) \<Longrightarrow>
    dnf_evr n = ''7-1''" for n
    by (auto simp: example_sack_def mk_pkg_def)
  let ?diff = "\<lparr>rd_initialized = True, rd_upgraded = [], rd_downgraded = [], rd_removed = [], rd_added = []\<rparr>"
  obtain newer where g: "rpmmd_diff_guess strcmp example_repo ''A'' ''B'' example_sack ?diff =
      Inr (?diff\<lparr>rd_upgraded := rd_upgraded ?diff @
             map (\<lambda>(pkg, n). (PKG_TYPE_LAYER, p_name pkg, (p_evr pkg, p_arch pkg), (dnf_evr n, dnf_arch n))) newer\<rparr>,
           if newer = [] then None else Some (map snd newer))"
    and fst: "map fst newer = [mk_pkg ''zsh'' ''5-1'' ''i686'']"
    and n: "\<forall>(pkg, n) \<in> set newer. n \<in> set (q_newer example_sack pkg) \<and>
              (\<forall>m \<in> set (q_newer example_sack pkg). dnf_package_cmp example_sack m n \<le> 0)"
    using rpmmd_diff_guess_upgrades [OF names cmp example_lists, of strcmp ?diff]
    unfolding b by (elim exE conjE) (rule that)
  from fst obtain m where "newer = [(mk_pkg ''zsh'' ''5-1'' ''i686'', m)]" by (auto simp: map_eq_Cons_conv)
  with g n max [of m] show ?thesis by auto
qed

end
