(* ===== verification/Util.thy ===== *)
theory Util
  imports RO_Prelude
begin

text \<open>
  The general helpers of \<^verbatim>\<open>src/src/libpriv/rpmostree-util.cxx\<close>: automatic versions, string array tests,
  the binary search over a sorted metadata array, the automatic update policy names, the size
  limit, the layering metadata of a commit, and the migration of the old package cache.
\<close>

section \<open>Definitions\<close>

subsection \<open>Size limit and string arrays\<close>

definition rpmostree_check_size_within_limit ::
  "(u64 \<Rightarrow> string) \<Rightarrow> u64 \<Rightarrow> u64 \<Rightarrow> string \<Rightarrow> unit result" where
  "rpmostree_check_size_within_limit g_format_size actual limit subject =
     (if actual \<le> limit then Inr ()
      else Inl (Throw ''Exceeded maximum size %s; %s is of size: %s''
                  [g_format_size limit, subject, g_format_size actual]))"

text \<open>A negative count means the array is \<open>NULL\<close>-terminated and its length is taken.\<close>

definition rpmostree_str_has_prefix_in_strv :: "string \<Rightarrow> string list \<Rightarrow> int \<Rightarrow> bool" where
  "rpmostree_str_has_prefix_in_strv str prefs n =
     (let n = (if n < 0 then length prefs else nat n)
      in list_ex (\<lambda>i. has_prefix str (prefs ! i)) [0..<n])"

definition rpmostree_str_has_prefix_in_ptrarray :: "string \<Rightarrow> string list \<Rightarrow> bool" where
  "rpmostree_str_has_prefix_in_ptrarray str prefs =
     rpmostree_str_has_prefix_in_strv str prefs (int (length prefs))"

definition rpmostree_str_ptrarray_contains :: "string list option \<Rightarrow> string \<Rightarrow> bool" where
  "rpmostree_str_ptrarray_contains strs str =
     (case strs of None \<Rightarrow> False | Some strs \<Rightarrow> list_ex (\<lambda>s. str = s) strs)"

subsection \<open>Automatic versions\<close>

text \<open>\<open>g_ascii_strtoull\<close> in base 10: white space, a sign, digits; it saturates at the greatest value.\<close>

definition ascii_isspace :: "char \<Rightarrow> bool" where
  "ascii_isspace c \<longleftrightarrow> c = CHR '' '' \<or> 9 \<le> code c \<and> code c \<le> 13 \<and> code c \<noteq> 11"

definition strtoull_digits :: "string \<Rightarrow> u64" where
  "strtoull_digits s =
     (let v = digits_value 0 (takeWhile is_digit s)
      in if v < 2 ^ 64 then of_nat v else - 1)"

definition ascii_strtoull :: "string \<Rightarrow> u64" where
  "ascii_strtoull s =
     (let s = dropWhile ascii_isspace s
      in case s of
           [] \<Rightarrow> 0
         | c # r \<Rightarrow> if c = CHR ''-'' then - strtoull_digits r
                    else if c = CHR ''+'' then strtoull_digits r
                    else strtoull_digits s)"

definition increment_version ::
  "string option \<Rightarrow> string option \<Rightarrow> string \<Rightarrow> string option \<Rightarrow> string result" where
  "increment_version version_suffix_str last_version prefix increment_start =
     bindR (case version_suffix_str of
              None \<Rightarrow> Inr (CHR ''.'')
            | Some s \<Rightarrow> if length s = 1 then Inr (s ! 0)
                       else Inl (Abort ''strlen (version_suffix_str) == 1'')) (\<lambda>version_suffix.
       let given = (\<lambda>dflt. case increment_start of
                      Some start \<Rightarrow> prefix @ [version_suffix] @ start
                    | None \<Rightarrow> dflt)
       in case last_version of
            None \<Rightarrow> Inr (given prefix)
          | Some lastv \<Rightarrow>
              if \<not> has_prefix lastv prefix then Inr (given prefix)
              else if lastv = prefix then Inr (given (prefix @ [version_suffix] @ ''1''))
              else if \<not> length lastv > length prefix
              then Inl (Abort ''strlen (last_version) > strlen (prefix)'')
              else let end = drop (length prefix) lastv
                   in if hd end \<noteq> version_suffix then Inr (given prefix)
                      else let num = ascii_strtoull (tl end)
                           in Inr (prefix @ [version_suffix] @ show_nat (unat (num + 1))))"

text \<open>
  \<open>VERSION_TAG_REGEX\<close> is \<^verbatim>\<open><([a-zA-Z]+):(.*)?>\<close>; the dot does not match a newline and the star is greedy.
  \<open>match_at\<close> gives the tag, the format and the rest for a match at the head of a string.
\<close>

definition ascii_isalpha :: "char \<Rightarrow> bool" where
  "ascii_isalpha c \<longleftrightarrow> 65 \<le> code c \<and> code c \<le> 90 \<or> 97 \<le> code c \<and> code c \<le> 122"

definition match_at :: "string \<Rightarrow> (string \<times> string) option" where
  "match_at s =
     (if s = [] \<or> hd s \<noteq> CHR ''<'' then None
      else let tag = takeWhile ascii_isalpha (tl s);
               r = drop (length tag) (tl s)
           in if tag = [] \<or> r = [] \<or> hd r \<noteq> CHR '':'' then None
              else let line = takeWhile (\<lambda>c. c \<noteq> CHR 0x0A) (tl r)
                   in if CHR ''>'' \<notin> set line then None
                      else Some (tag, rev (tl (dropWhile (\<lambda>c. c \<noteq> CHR ''>'') (rev line)))))"

text \<open>The matches of a string as offset, tag and format; a match is \<open>length tag + length fmt + 3\<close> long.\<close>

function tag_matches :: "nat \<Rightarrow> string \<Rightarrow> (nat \<times> string \<times> string) list" where
  "tag_matches off s =
     (case s of
        [] \<Rightarrow> []
      | _ # s' \<Rightarrow>
          (case match_at s of
             None \<Rightarrow> tag_matches (off + 1) s'
           | Some (tag, fmt) \<Rightarrow>
               (off, tag, fmt) # tag_matches (off + length tag + length fmt + 3)
                                   (drop (length tag + length fmt + 2) s')))"
  by pat_completeness auto
termination by (relation "measure (\<lambda>(_, s). length s)") auto

definition handle_date_tag ::
  "(string \<Rightarrow> string option) \<Rightarrow> string \<Rightarrow> string \<Rightarrow> nat \<Rightarrow> nat \<Rightarrow> string result" where
  "handle_date_tag format_now prefix date_fmt tag_start tag_end =
     (case format_now date_fmt of
        None \<Rightarrow> Inl (Throw ''error in formatting date string (%s)'' [date_fmt])
      | Some date_time_str \<Rightarrow> Inr (take tag_start prefix @ date_time_str @ drop tag_end prefix))"

text \<open>
  The loop over the matches. The positions are those of the prefix as given: the source edits the
  buffer that the match info iterates over, so that its positions after a date tag are those of the
  unedited text.
\<close>

fun next_version_loop ::
  "(string \<Rightarrow> string option) \<Rightarrow> (nat \<times> string \<times> string) list \<Rightarrow> string \<Rightarrow> bool \<Rightarrow> (string \<times> bool) result" where
  "next_version_loop format_now [] next_version date_tag_given = Inr (next_version, date_tag_given)"
| "next_version_loop format_now ((match_start, tag, date_fmt) # ms) next_version date_tag_given =
     (if tag = ''date''
      then bindR (handle_date_tag format_now next_version date_fmt match_start
                    (match_start + length tag + length date_fmt + 3))
             (\<lambda>next_version. next_version_loop format_now ms next_version True)
      else next_version_loop format_now ms next_version date_tag_given)"

definition util_next_version ::
  "(string \<Rightarrow> string option) \<Rightarrow> string \<Rightarrow> string \<Rightarrow> string \<Rightarrow> string result" where
  "util_next_version format_now auto_version_prefix version_suffix last_version =
     bindR (next_version_loop format_now (tag_matches 0 auto_version_prefix) auto_version_prefix False)
       (\<lambda>(next_version, date_tag_given).
          increment_version (if length version_suffix > 0 then Some version_suffix else None)
            (if length last_version > 0 then Some last_version else None)
            next_version (if date_tag_given then Some ''0'' else None))"

subsection \<open>Binary search over a sorted array\<close>

function bsearch_loop :: "string list \<Rightarrow> string \<Rightarrow> nat \<Rightarrow> nat \<Rightarrow> nat \<Rightarrow> bool \<times> nat" where
  "bsearch_loop array str imin imax imid =
     (if imax < imin then (False, imid)
      else let imid = (imin + imax) div 2; cmp = strcmp (array ! imid) str
           in if cmp < 0 then bsearch_loop array str (imid + 1) imax imid
              else if cmp > 0
              then (if imid = 0 then (False, imid) else bsearch_loop array str imin (imid - 1) imid)
              else if imin < imid then bsearch_loop array str imin imid imid
              else (True, imid))"
  by pat_completeness auto
termination
  by (relation "measure (\<lambda>(_, _, imin, imax, _). Suc imax - imin)") (auto simp: not_less)

text \<open>\<open>None\<close> as a position means that the out parameter is left alone.\<close>

definition rpmostree_variant_bsearch_str :: "string list \<Rightarrow> string \<Rightarrow> bool \<times> nat option" where
  "rpmostree_variant_bsearch_str array str =
     (let n = length array
      in if n = 0 then (False, None)
         else map_prod id Some (bsearch_loop array str 0 (n - 1) (2 ^ 64 - 1)))"

subsection \<open>Automatic update policy\<close>

datatype RpmostreedAutomaticUpdatePolicy = POLICY_NONE | POLICY_CHECK | POLICY_STAGE | POLICY_APPLY

fun rpmostree_auto_update_policy_to_str :: "RpmostreedAutomaticUpdatePolicy \<Rightarrow> string" where
  "rpmostree_auto_update_policy_to_str POLICY_NONE = ''none''"
| "rpmostree_auto_update_policy_to_str POLICY_CHECK = ''check''"
| "rpmostree_auto_update_policy_to_str POLICY_STAGE = ''stage''"
| "rpmostree_auto_update_policy_to_str POLICY_APPLY = ''apply''"

definition rpmostree_str_to_auto_update_policy :: "string \<Rightarrow> RpmostreedAutomaticUpdatePolicy result" where
  "rpmostree_str_to_auto_update_policy str =
     (if str = ''none'' \<or> str = ''off'' then Inr POLICY_NONE
      else if str = ''check'' then Inr POLICY_CHECK
      else if str = ''stage'' \<or> str = ''ex-stage'' then Inr POLICY_STAGE
      else if str = ''apply'' then Inr POLICY_APPLY
      else Inl (Throw (''Invalid value for AutomaticUpdatePolicy: '' @ [CHR 0x27] @ ''%s'' @ [CHR 0x27]) [str]))"

subsection \<open>Summary of a difference\<close>

fun diff_summary_loop :: "(u32 \<times> string) list \<Rightarrow> string \<Rightarrow> string" where
  "diff_summary_loop [] summary = summary"
| "diff_summary_loop ((arg, desc) # rest) summary =
     (if arg = 0 then diff_summary_loop rest summary
      else diff_summary_loop rest
        ((if length summary > 0 then summary @ '', '' else summary) @ show_nat (unat arg) @ '' '' @ desc))"

definition rpmostree_generate_diff_summary :: "u32 \<Rightarrow> u32 \<Rightarrow> u32 \<Rightarrow> u32 \<Rightarrow> string" where
  "rpmostree_generate_diff_summary upgraded downgraded removed added =
     diff_summary_loop [(upgraded, ''upgraded''), (downgraded, ''downgraded''),
       (removed, ''removed''), (added, ''added'')] []"

subsection \<open>Layering metadata of a deployment\<close>

text \<open>
  What the commit metadata of a deployment says about client layering. The entries are optional, the
  variants below them opaque. \<open>layeredmeta\<close> is the result of the Rust helper on the commit.
\<close>

record 'v commit_dict =
  cd_packages :: "string list option"
  cd_spec_packages :: "string list option option"
  cd_removed_base_packages :: "'v list option"
  cd_replaced_base_packages :: "'v list option"
  cd_replaced_base_remote_packages :: "'v list option"

record layeredmeta =
  is_layered :: bool
  clientlayer_version :: u32
  base_commit :: string

record 'v layered_info =
  li_is_layered :: bool
  li_layer_version :: u32
  li_base_layer :: "string option"
  li_layered_pkgs :: "string list"
  li_layered_modules :: "string list"
  li_removed_base_pkgs :: "'v list"
  li_replaced_base_local_pkgs :: "'v list"
  li_replaced_base_remote_pkgs :: "'v list"

definition assert_some :: "string \<Rightarrow> 'a option \<Rightarrow> 'a result" where
  "assert_some what x = (case x of Some a \<Rightarrow> Inr a | None \<Rightarrow> Inl (Abort what))"

text \<open>\<open>want_pkgs\<close> tells whether the caller passed a location for the packages.\<close>

definition rpmostree_deployment_get_layered_info ::
  "(string \<Rightarrow> (layeredmeta \<times> 'v commit_dict) result) \<Rightarrow> string \<Rightarrow> bool \<Rightarrow> 'v layered_info result" where
  "rpmostree_deployment_get_layered_info load_commit csum want_pkgs =
     prefix_error ''Getting layered info''
     (bindR (load_commit csum) (\<lambda>(layeredmeta, dict).
       let fetch = is_layered layeredmeta \<and> want_pkgs in
       bindR (if \<not> fetch then Inr []
              else if clientlayer_version layeredmeta \<ge> 1
              then assert_some ''rpmostree.packages'' (cd_packages dict)
              else bindR (assert_some ''rpmostree.spec'' (cd_spec_packages dict)) (assert_some ''packages''))
         (\<lambda>layered_pkgs.
       bindR (if fetch \<and> clientlayer_version layeredmeta \<ge> 2
              then bindR (assert_some ''rpmostree.removed-base-packages'' (cd_removed_base_packages dict)) (\<lambda>removed.
                   bindR (assert_some ''rpmostree.replaced-base-packages'' (cd_replaced_base_packages dict)) (\<lambda>replaced.
                     Inr (removed, replaced)))
              else Inr ([], []))
         (\<lambda>(removed_base_pkgs, replaced_base_local_pkgs).
       bindR (if fetch \<and> clientlayer_version layeredmeta \<ge> 6
              then assert_some ''rpmostree.replaced-base-remote-packages'' (cd_replaced_base_remote_packages dict)
              else Inr [])
         (\<lambda>replaced_base_remote_pkgs.
       Inr \<lparr>li_is_layered = is_layered layeredmeta,
            li_layer_version = clientlayer_version layeredmeta,
            li_base_layer = (if is_layered layeredmeta \<and> base_commit layeredmeta \<noteq> []
                             then Some (base_commit layeredmeta) else None),
            li_layered_pkgs = layered_pkgs,
            li_layered_modules = [],
            li_removed_base_pkgs = removed_base_pkgs,
            li_replaced_base_local_pkgs = replaced_base_local_pkgs,
            li_replaced_base_remote_pkgs = replaced_base_remote_pkgs\<rparr>)))))"

definition rpmostree_deployment_get_base_layer ::
  "(string \<Rightarrow> (layeredmeta \<times> 'v commit_dict) result) \<Rightarrow> string \<Rightarrow> string option result" where
  "rpmostree_deployment_get_base_layer load_commit csum =
     bindR (rpmostree_deployment_get_layered_info load_commit csum False) (\<lambda>li. Inr (li_base_layer li))"

subsection \<open>Migration of the package cache\<close>

text \<open>
  The old cache is a repository in a subdirectory of the system repository. The environment says which
  of the system calls fails, if any, and what an interrupted removal leaves behind.
\<close>

datatype pkgcache_node = Absent | Symlink | Dir "string list" | Other

record pkgcache_fs =
  pkgcache :: pkgcache_node
  repo_refs :: "string list"

record migrate_env =
  fstatat_error :: "string option"
  repo_open_error :: "string option"
  list_refs_error :: "string option"
  pull_error :: "string option"
  rm_rf_error :: "(string \<times> pkgcache_node) option"
  mkdir_error :: "string option"
  symlink_error :: "string option"

definition do_pkgcache_migration ::
  "migrate_env \<Rightarrow> string list \<Rightarrow> pkgcache_fs \<Rightarrow> nat result \<times> pkgcache_fs" where
  "do_pkgcache_migration env pkgcache_refs fs =
     (case list_refs_error env of
        Some e \<Rightarrow> (Inl (External e), fs)
      | None \<Rightarrow>
          if length pkgcache_refs = 0 then (Inr 0, fs)
          else case pull_error env of
                 Some e \<Rightarrow> (Inl (External e), fs)
               | None \<Rightarrow> (Inr (length pkgcache_refs), fs\<lparr>repo_refs := repo_refs fs @ pkgcache_refs\<rparr>))"

definition leave_symlink :: "migrate_env \<Rightarrow> pkgcache_fs \<Rightarrow> unit result \<times> pkgcache_fs" where
  "leave_symlink env fs =
     (case symlink_error env of
        Some e \<Rightarrow> (Inl (Prefixed ''symlinkat'' (External e)), fs)
      | None \<Rightarrow> (Inr (), fs\<lparr>pkgcache := Symlink\<rparr>))"

definition rm_rf_and_symlink :: "migrate_env \<Rightarrow> pkgcache_fs \<Rightarrow> unit result \<times> pkgcache_fs" where
  "rm_rf_and_symlink env fs =
     (case rm_rf_error env of
        Some (e, node) \<Rightarrow> (Inl (External e), fs\<lparr>pkgcache := node\<rparr>)
      | None \<Rightarrow> leave_symlink env (fs\<lparr>pkgcache := Absent\<rparr>))"

definition rpmostree_migrate_pkgcache_repo :: "migrate_env \<Rightarrow> pkgcache_fs \<Rightarrow> unit result \<times> pkgcache_fs" where
  "rpmostree_migrate_pkgcache_repo env fs =
     (case fstatat_error env of
        Some e \<Rightarrow> (Inl (External e), fs)
      | None \<Rightarrow>
          (case pkgcache fs of
             Symlink \<Rightarrow> (Inr (), fs)
           | Dir refs \<Rightarrow>
               (case repo_open_error env of
                  Some e \<Rightarrow> (Inl (External e), fs)
                | None \<Rightarrow>
                    (case do_pkgcache_migration env refs fs of
                       (Inl e, fs) \<Rightarrow> (Inl e, fs)
                     | (Inr n_migrated, fs) \<Rightarrow> rm_rf_and_symlink env fs))
           | Other \<Rightarrow> rm_rf_and_symlink env fs
           | Absent \<Rightarrow>
               (case mkdir_error env of
                  Some e \<Rightarrow> (Inl (External e), fs)
                | None \<Rightarrow> leave_symlink env fs)))"

section \<open>What is shown\<close>

subsection \<open>Automatic versions\<close>

lemma strtoull_show_nat: "ascii_strtoull (show_nat n) = (if n < 2 ^ 64 then of_nat n else - 1)"
proof -
  obtain c r where cr: "show_nat n = c # r" by (cases "show_nat n") auto
  have digits: "\<forall>d \<in> set (show_nat n). is_digit d" by (auto dest: show_nat_digits)
  with cr have c: "is_digit c" by simp
  then have "\<not> ascii_isspace c" "c \<noteq> CHR ''-''" "c \<noteq> CHR ''+''"
    by (auto simp: ascii_isspace_def is_digit_def)
  then have "ascii_strtoull (show_nat n) = strtoull_digits (show_nat n)"
    by (simp add: ascii_strtoull_def cr)
  moreover have tw: "takeWhile is_digit (show_nat n) = show_nat n"
    using digits by (simp add: takeWhile_eq_all_conv)
  have "strtoull_digits (show_nat n) = (if n < 2 ^ 64 then of_nat n else - 1)"
    unfolding strtoull_digits_def tw digits_value_show_nat Let_def ..
  ultimately show ?thesis by simp
qed

text \<open>
  The next automatic version is never the last version again, whatever the prefix, the suffix
  character and the last version are, including last versions whose number does not fit 64 bits.
\<close>

theorem increment_version_changes:
  assumes "increment_version sfx (Some lastv) prefix start = Inr v"
  shows "v \<noteq> lastv"
proof
  assume eq: "v = lastv"
  from assms obtain c where c: "(case sfx of None \<Rightarrow> Inr (CHR ''.'') | Some s \<Rightarrow>
      if length s = 1 then Inr (s ! 0) else Inl (Abort ''strlen (version_suffix_str) == 1'')) = Inr c"
    by (auto simp: increment_version_def bindR_Inr_iff)
  note def = assms [unfolded increment_version_def c bindR.simps Let_def option.case eq]
  from def have pre: "has_prefix lastv prefix"
    by (cases start) (auto simp: has_prefix_iff split: if_splits)
  then obtain r where r: "lastv = prefix @ r" by (auto simp: has_prefix_iff)
  from def r have "r \<noteq> []" by (cases start) auto
  then obtain d r' where r': "r = d # r'" by (cases r) auto
  from def r r' have d: "d = c" by (cases start) (auto split: if_splits)
  with def r r' have "r' = show_nat (unat (ascii_strtoull r' + 1))"
    by (simp split: if_splits)
  then have "ascii_strtoull r' = ascii_strtoull (show_nat (unat (ascii_strtoull r' + 1)))"
    by simp
  also have "\<dots> = ascii_strtoull r' + 1"
    using unsigned_less [of "ascii_strtoull r' + 1", where ?'a = nat] by (simp add: strtoull_show_nat)
  finally show False by simp
qed

theorem increment_version_changes_witness:
  "increment_version None (Some ''10.7'') ''10'' None = Inr ''10.8'' \<and> ''10.8'' \<noteq> ''10.7''"
proof -
  have "increment_version None (Some ''10.7'') ''10'' None = Inr ''10.8''"
    by (simp add: increment_version_def ascii_strtoull_def ascii_isspace_def strtoull_digits_def is_digit_def digit_simps show_nat.simps)
  with increment_version_changes [OF this] show ?thesis by blast
qed

text \<open>
  A last version with a number below the 64-bit limit is counted up by one; at the greatest 64-bit
  number the counter wraps to zero instead of growing.
\<close>

theorem increment_version_counts:
  "increment_version (Some [c]) (Some (prefix @ [c] @ show_nat n)) prefix start =
     Inr (prefix @ [c] @ show_nat (if n < 2 ^ 64 - 1 then n + 1 else 0))"
proof -
  have "unat (ascii_strtoull (show_nat n) + 1) = (if n < 2 ^ 64 - 1 then n + 1 else 0)"
  proof (cases "n < 2 ^ 64 - 1")
    case True
    then have "unat (of_nat (n + 1) :: u64) = n + 1"
      unfolding unat_of_nat by simp
    with True show ?thesis by (simp add: strtoull_show_nat add.commute)
  next
    case False
    then have "n = 2 ^ 64 - 1 \<or> \<not> n < 2 ^ 64" by auto
    then have "ascii_strtoull (show_nat n) = - 1"
      by (auto simp: strtoull_show_nat)
    with False show ?thesis by simp
  qed
  then show ?thesis
    by (simp add: increment_version_def Let_def)
qed

subsection \<open>Binary search\<close>

declare bsearch_loop.simps [simp del] tag_matches.simps [simp del]

lemma bsearch_loop_step:
  assumes "imin \<le> imax" and "m = (imin + imax) div 2"
  shows "bsearch_loop array str imin imax imid =
     (if array ! m < str then bsearch_loop array str (m + 1) imax m
      else if str < array ! m then (if m = 0 then (False, m) else bsearch_loop array str imin (m - 1) m)
      else if imin < m then bsearch_loop array str imin m m else (True, m))"
  using assms by (subst bsearch_loop.simps) (simp add: Let_def strcmp_less_iff strcmp_pos_iff)

lemma bsearch_loop_found:
  assumes "sorted array" and "imax < length array"
    and "\<forall>i < imin. array ! i < str" and "\<forall>i. imax < i \<and> i < length array \<longrightarrow> str \<le> array ! i"
    and "bsearch_loop array str imin imax imid = (True, p)"
  shows "p < length array \<and> array ! p = str \<and> (\<forall>i < p. array ! i < str)"
  using assms
proof (induction array str imin imax imid rule: bsearch_loop.induct)
  case (1 array str imin imax imid)
  let ?m = "(imin + imax) div 2"
  from "1.prems"(5) have le: "imin \<le> imax" by (subst (asm) bsearch_loop.simps) (auto split: if_splits)
  then have m: "imin \<le> ?m" "?m \<le> imax" and nle: "\<not> imax < imin" by auto
  note step = "1.prems"(5) [unfolded bsearch_loop_step [OF le refl]]
  have mono: "i \<le> j \<Longrightarrow> j < length array \<Longrightarrow> array ! i \<le> array ! j" for i j
    using "1.prems"(1) by (simp add: sorted_iff_nth_mono)
  consider (less) "array ! ?m < str" | (greater) "str < array ! ?m" | (eq) "array ! ?m = str" by fastforce
  then show ?case
  proof cases
    case less
    then have c: "strcmp (array ! ?m) str < 0" by (simp add: strcmp_less_iff)
    have "\<forall>i < ?m + 1. array ! i < str"
    proof (intro allI impI)
      fix i assume "i < ?m + 1"
      then show "array ! i < str"
        by (intro le_less_trans [OF mono less]) (use m "1.prems"(2) in auto)
    qed
    from "1.IH"(1) [OF nle refl refl c "1.prems"(1,2) this "1.prems"(4)] less step show ?thesis by simp
  next
    case greater
    with step have nz: "?m \<noteq> 0" by (auto split: if_splits)
    from greater have c: "\<not> strcmp (array ! ?m) str < 0" "0 < strcmp (array ! ?m) str"
      by (auto simp: strcmp_less_iff strcmp_pos_iff)
    have "\<forall>i. ?m - 1 < i \<and> i < length array \<longrightarrow> str \<le> array ! i"
    proof (intro allI impI)
      fix i assume "?m - 1 < i \<and> i < length array"
      then show "str \<le> array ! i"
        by (intro order_trans [OF less_imp_le [OF greater] mono]) (use nz in auto)
    qed
    moreover have "bsearch_loop array str imin (?m - 1) ?m = (True, p)"
      using step greater nz less_not_sym [OF greater] by simp
    moreover have "?m - 1 < length array" using m "1.prems"(2) by simp
    ultimately show ?thesis using "1.IH"(2) [OF nle refl refl c nz "1.prems"(1) _ "1.prems"(3)] by blast
  next
    case eq
    then have c: "\<not> strcmp (array ! ?m) str < 0" "\<not> 0 < strcmp (array ! ?m) str"
      by (auto simp: strcmp_less_iff strcmp_pos_iff)
    show ?thesis
    proof (cases "imin < ?m")
      case True
      have "\<forall>i. ?m < i \<and> i < length array \<longrightarrow> str \<le> array ! i"
        using eq mono [of ?m] by auto
      from "1.IH"(3) [OF nle refl refl c True "1.prems"(1) _ "1.prems"(3) this] eq True step m "1.prems"(2)
      show ?thesis by simp
    next
      case False
      with eq step m "1.prems"(2,3) show ?thesis by auto
    qed
  qed
qed

text \<open>The search interval always keeps every occurrence of the string.\<close>

lemma bsearch_loop_complete:
  assumes "sorted array" and "imax < length array" and "imin \<le> k" "k \<le> imax" and "array ! k = str"
  shows "fst (bsearch_loop array str imin imax imid)"
  using assms
proof (induction array str imin imax imid arbitrary: k rule: bsearch_loop.induct)
  case (1 array str imin imax imid)
  let ?m = "(imin + imax) div 2"
  have le: "imin \<le> imax" and nle: "\<not> imax < imin" using "1.prems" by auto
  then have m: "imin \<le> ?m" "?m \<le> imax" by auto
  have mono: "i \<le> j \<Longrightarrow> j < length array \<Longrightarrow> array ! i \<le> array ! j" for i j
    using "1.prems"(1) by (simp add: sorted_iff_nth_mono)
  consider (less) "array ! ?m < str" | (greater) "str < array ! ?m" | (eq) "array ! ?m = str" by fastforce
  then show ?case
  proof cases
    case less
    then have c: "strcmp (array ! ?m) str < 0" by (simp add: strcmp_less_iff)
    have "?m + 1 \<le> k"
      using mono [of k ?m] less m "1.prems"(2,5) by (metis Suc_eq_plus1 not_less_eq_eq leD le_less_trans)
    with "1.IH"(1) [OF nle refl refl c "1.prems"(1,2) _ "1.prems"(4,5)] less show ?thesis
      by (simp add: bsearch_loop_step [OF le refl])
  next
    case greater
    then have c: "\<not> strcmp (array ! ?m) str < 0" "0 < strcmp (array ! ?m) str"
      by (auto simp: strcmp_less_iff strcmp_pos_iff)
    have k: "k < ?m"
      using mono [of ?m k] greater "1.prems"(2,4,5) by (metis leI leD le_less_trans)
    then have nz: "?m \<noteq> 0" and k': "k \<le> ?m - 1" by auto
    have "?m - 1 < length array" using m "1.prems"(2) by simp
    from "1.IH"(2) [OF nle refl refl c nz "1.prems"(1) this "1.prems"(3) k' "1.prems"(5)]
    show ?thesis using nz greater less_not_sym [OF greater] by (simp add: bsearch_loop_step [OF le refl])
  next
    case eq
    then have c: "\<not> strcmp (array ! ?m) str < 0" "\<not> 0 < strcmp (array ! ?m) str"
      by (auto simp: strcmp_less_iff strcmp_pos_iff)
    show ?thesis
    proof (cases "imin < ?m")
      case True
      have "?m < length array" using m "1.prems"(2) by simp
      from "1.IH"(3) [OF nle refl refl c True "1.prems"(1) this m(1) le_refl eq] eq True show ?thesis
        by (simp add: bsearch_loop_step [OF le refl])
    next
      case False
      with eq show ?thesis by (simp add: bsearch_loop_step [OF le refl])
    qed
  qed
qed

text \<open>
  On a sorted array the binary search finds a string exactly when it is there, and then returns the
  first of its occurrences.
\<close>

theorem variant_bsearch_str_correct:
  assumes "sorted array"
  shows "(fst (rpmostree_variant_bsearch_str array str) \<longleftrightarrow> str \<in> set array) \<and>
     (\<forall>pos. rpmostree_variant_bsearch_str array str = (True, Some pos) \<longrightarrow>
        pos < length array \<and> array ! pos = str \<and> (\<forall>i < pos. array ! i < str))"
proof (cases "array = []")
  case True
  then show ?thesis by (simp add: rpmostree_variant_bsearch_str_def)
next
  case False
  let ?r = "bsearch_loop array str 0 (length array - 1) (2 ^ 64 - 1)"
  have n: "length array - 1 < length array" using False by (cases array) auto
  have found: "p < length array \<and> array ! p = str \<and> (\<forall>i < p. array ! i < str)" if "?r = (True, p)" for p
    by (rule bsearch_loop_found [OF assms n _ _ that]) auto
  have "fst ?r" if "str \<in> set array"
  proof -
    from that obtain k where "k < length array" "array ! k = str" by (auto simp: in_set_conv_nth)
    then show ?thesis
      using bsearch_loop_complete [OF assms n, of 0 k str] by simp
  qed
  moreover have "str \<in> set array" if "fst ?r"
    using found [of "snd ?r"] that by (metis nth_mem prod.collapse)
  ultimately have "fst ?r \<longleftrightarrow> str \<in> set array" by blast
  with False found show ?thesis
    by (auto simp: rpmostree_variant_bsearch_str_def Let_def map_prod_def split: prod.splits)
qed

theorem variant_bsearch_str_correct_witness:
  "fst (rpmostree_variant_bsearch_str [''acl'', ''bash'', ''bash'', ''zsh''] ''bash'') \<and>
   \<not> fst (rpmostree_variant_bsearch_str [''acl'', ''bash'', ''bash'', ''zsh''] ''vim'')"
proof -
  have "sorted [''acl'', ''bash'', ''bash'', ''zsh'']" by (simp add: less_char_def)
  from variant_bsearch_str_correct [OF this] show ?thesis by simp
qed

subsection \<open>Policies, limits and arrays\<close>

text \<open>An automatic update policy survives being printed and parsed.\<close>

theorem auto_update_policy_roundtrip:
  "rpmostree_str_to_auto_update_policy (rpmostree_auto_update_policy_to_str p) = Inr p"
  by (cases p) (simp_all add: rpmostree_str_to_auto_update_policy_def)

lemma str_has_prefix_in_ptrarray_iff:
  "rpmostree_str_has_prefix_in_ptrarray str prefs \<longleftrightarrow> (\<exists>p \<in> set prefs. has_prefix str p)"
proof -
  have "list_ex (\<lambda>i. has_prefix str (prefs ! i)) [0..<length prefs] \<longleftrightarrow> list_ex (has_prefix str) (map ((!) prefs) [0..<length prefs])"
    by (simp add: list_ex_iff)
  then show ?thesis
    by (simp add: rpmostree_str_has_prefix_in_ptrarray_def rpmostree_str_has_prefix_in_strv_def map_nth list_ex_iff)
qed

lemma str_has_prefix_in_strv_all:
  "rpmostree_str_has_prefix_in_strv str prefs (- 1) = rpmostree_str_has_prefix_in_ptrarray str prefs"
  by (simp add: rpmostree_str_has_prefix_in_ptrarray_def rpmostree_str_has_prefix_in_strv_def)

lemma str_ptrarray_contains_iff:
  "rpmostree_str_ptrarray_contains strs str \<longleftrightarrow> (\<exists>ss. strs = Some ss \<and> str \<in> set ss)"
  by (auto simp: rpmostree_str_ptrarray_contains_def list_ex_iff split: option.splits)

lemma diff_summary_empty:
  "rpmostree_generate_diff_summary u d r a = [] \<longleftrightarrow> u = 0 \<and> d = 0 \<and> r = 0 \<and> a = 0"
  by (simp add: rpmostree_generate_diff_summary_def)

subsection \<open>The package cache\<close>

fun node_refs :: "pkgcache_node \<Rightarrow> string set" where
  "node_refs (Dir refs) = set refs"
| "node_refs _ = {}"


definition no_errors :: migrate_env where
  "no_errors = \<lparr>fstatat_error = None, repo_open_error = None, list_refs_error = None, pull_error = None,
     rm_rf_error = None, mkdir_error = None, symlink_error = None\<rparr>"


subsection \<open>Layering metadata\<close>

lemma layered_info_safe:
  assumes "load_commit csum = Inr (meta, dict)"
    and "1 \<le> clientlayer_version meta \<longrightarrow> cd_packages dict \<noteq> None"
    and "\<not> 1 \<le> clientlayer_version meta \<longrightarrow> (\<exists>ps. cd_spec_packages dict = Some (Some ps))"
    and "2 \<le> clientlayer_version meta \<longrightarrow> cd_removed_base_packages dict \<noteq> None \<and> cd_replaced_base_packages dict \<noteq> None"
    and "6 \<le> clientlayer_version meta \<longrightarrow> cd_replaced_base_remote_packages dict \<noteq> None"
  shows "safe (rpmostree_deployment_get_layered_info load_commit csum want)"
proof (cases "is_layered meta \<and> want")
  case True
  then show ?thesis
    using assms
    by (cases "1 \<le> clientlayer_version meta"; cases "2 \<le> clientlayer_version meta"; cases "6 \<le> clientlayer_version meta")
       (auto simp: rpmostree_deployment_get_layered_info_def Let_def assert_some_def)
qed (use assms(1) in \<open>auto simp: rpmostree_deployment_get_layered_info_def Let_def\<close>)

lemma base_layer_iff:
  "load_commit csum = Inr (meta, dict) \<Longrightarrow>
   rpmostree_deployment_get_base_layer load_commit csum =
     Inr (if is_layered meta \<and> base_commit meta \<noteq> [] then Some (base_commit meta) else None)"
  by (simp add: rpmostree_deployment_get_base_layer_def rpmostree_deployment_get_layered_info_def Let_def)

end
