(* ===== verification/Deployments.thy ===== *)
theory Deployments
  imports Nevra Pkg_Db Util
begin

text \<open>
  Deployments of a sysroot and the references that keep their content alive:
  \<^verbatim>\<open>src/src/daemon/rpmostree-sysroot-core.cxx\<close> and \<open>rpmostreed_deployment_get_for_index\<close> of
  \<^verbatim>\<open>src/src/daemon/rpmostreed-deployment-utils.cxx\<close>. libostree (loading the sysroot, writing deployments,
  pruning) is a parameter; the refs of the repository are a list of names, changed in a transaction.
\<close>

section \<open>The deployments of a sysroot\<close>

record OstreeDeployment =
  d_osname :: string
  d_csum :: string
  d_deployserial :: nat
  d_pinned :: bool
  d_staged :: bool
  d_bootconfig :: "string \<rightharpoonup> string"

text \<open>\<open>ostree_deployment_equal\<close> compares the OS name, the checksum and the serial.\<close>

definition ostree_deployment_equal :: "OstreeDeployment \<Rightarrow> OstreeDeployment \<Rightarrow> bool" where
  "ostree_deployment_equal a b \<longleftrightarrow>
     d_osname a = d_osname b \<and> d_csum a = d_csum b \<and> d_deployserial a = d_deployserial b"

record OstreeSysroot =
  sr_deployments :: "OstreeDeployment list"
  sr_booted :: "OstreeDeployment option"

text \<open>
  \<open>atoi\<close> on digits: glibc converts with \<open>strtol\<close>, which stops at the greatest 64 bit value, and keeps the low 32
  bits. The comparison with the unsigned length is unsigned.
\<close>

definition atoi_digits :: "string \<Rightarrow> 32 word" where
  "atoi_digits index = word_of_nat (min (digits_value 0 index) (2 ^ 63 - 1))"

definition rpmostreed_deployment_get_for_index :: "OstreeSysroot \<Rightarrow> string \<Rightarrow> OstreeDeployment result" where
  "rpmostreed_deployment_get_for_index sysroot index =
     (if \<not> list_all is_digit index
      then Inl (Throw ''Invalid deployment index %s, must be a number and >= 0'' [index])
      else let deployment_index = atoi_digits index;
               deployments = sr_deployments sysroot
           in if deployment_index \<ge> word_of_nat (length deployments)
              then Inl (Throw ''Out of range deployment index %d, expected < %d'' [])
              else Inr (deployments ! unat deployment_index))"

fun rpmostree_syscore_get_origin_merge_deployment :: "OstreeDeployment list \<Rightarrow> string \<Rightarrow> OstreeDeployment option" where
  "rpmostree_syscore_get_origin_merge_deployment [] osname = None"
| "rpmostree_syscore_get_origin_merge_deployment (deployment # deployments) osname =
     (if strcmp (d_osname deployment) osname \<noteq> 0
      then rpmostree_syscore_get_origin_merge_deployment deployments osname
      else Some deployment)"

section \<open>Dropping pending and rollback deployments\<close>

fun filter_deployments_loop ::
  "OstreeDeployment option \<Rightarrow> string \<Rightarrow> bool \<Rightarrow> bool \<Rightarrow> bool \<Rightarrow> OstreeDeployment list \<Rightarrow> OstreeDeployment list" where
  "filter_deployments_loop booted osname cleanup_pending cleanup_rollback found_booted [] = []"
| "filter_deployments_loop booted osname cleanup_pending cleanup_rollback found_booted (deployment # deployments) =
     (if (case booted of Some b \<Rightarrow> ostree_deployment_equal deployment b | None \<Rightarrow> False)
      then deployment # filter_deployments_loop booted osname cleanup_pending cleanup_rollback True deployments
      else
        let rest = filter_deployments_loop booted osname cleanup_pending cleanup_rollback found_booted deployments;
            osname_matches = (strcmp (d_osname deployment) osname = 0)
        in if \<not> osname_matches \<or> d_pinned deployment then deployment # rest
           else if \<not> found_booted \<and> cleanup_pending then rest
           else if found_booted \<and> cleanup_rollback then rest
           else deployment # rest)"

text \<open>\<open>None\<close> when nothing changes.\<close>

definition rpmostree_syscore_filter_deployments ::
  "OstreeSysroot \<Rightarrow> string \<Rightarrow> bool \<Rightarrow> bool \<Rightarrow> OstreeDeployment list option" where
  "rpmostree_syscore_filter_deployments sysroot osname cleanup_pending cleanup_rollback =
     (let deployments = sr_deployments sysroot;
          new_deployments = filter_deployments_loop (sr_booted sysroot) osname cleanup_pending cleanup_rollback False deployments
      in if length new_deployments = length deployments then None else Some new_deployments)"

section \<open>References into the package cache\<close>

definition rpmostree_get_cache_branch_pkg :: "DnfPackage \<Rightarrow> string" where
  "rpmostree_get_cache_branch_pkg p = rpmostree_get_cache_branch_for_n_evr_a (dnf_name p) (dnf_evr p) (dnf_arch p)"

definition add_package_refs_to_set :: "DnfPackage list \<Rightarrow> string set \<Rightarrow> string set result" where
  "add_package_refs_to_set pkglist referenced_pkgs =
     (if length pkglist = 0 then Inl (Throw ''Failed to find any packages in root'' [])
      else Inr (foldl (\<lambda>r p. Set.insert (rpmostree_get_cache_branch_pkg p) r) referenced_pkgs pkglist))"

text \<open>
  What the garbage collection reads of each deployment: its base layer, its origin (the local
  replacements), and the packages of its rpmdb.
\<close>

record 'v gc_env =
  gc_load_commit :: "string \<Rightarrow> (layeredmeta \<times> 'v commit_dict) result"
  gc_local_replace :: "OstreeDeployment \<Rightarrow> string list result"
  gc_system_packages :: "OstreeDeployment \<Rightarrow> DnfPackage list result"
  gc_validate_checksum :: "string \<Rightarrow> gerror option"
  gc_split_nevra :: split_nevra

fun add_local_replacements :: "'v gc_env \<Rightarrow> string list \<Rightarrow> string set \<Rightarrow> string set result" where
  "add_local_replacements env [] referenced_pkgs = Inr referenced_pkgs"
| "add_local_replacements env (nevra_v # local_replace) referenced_pkgs =
     bindR (rpmostree_decompose_sha256_nevra (gc_validate_checksum env) nevra_v) (\<lambda>(nevra, sha256).
     bindR (nevra_to_cache_branch (gc_split_nevra env) nevra) (\<lambda>cachebranch.
       add_local_replacements env local_replace (Set.insert cachebranch referenced_pkgs)))"

definition add_deployment_refs :: "'v gc_env \<Rightarrow> OstreeDeployment \<Rightarrow> string set \<Rightarrow> string set result" where
  "add_deployment_refs env deployment referenced_pkgs =
     bindR (rpmostree_deployment_get_base_layer (gc_load_commit env) (d_csum deployment)) (\<lambda>base_commit.
     bindR (gc_local_replace env deployment) (\<lambda>local_replace.
     bindR (case base_commit of
              None \<Rightarrow> Inr referenced_pkgs
            | Some _ \<Rightarrow>
                bindR (gc_system_packages env deployment) (\<lambda>pkglist.
                  prefix_error ''Deployment index=%d'' (add_package_refs_to_set pkglist referenced_pkgs)))
       (add_local_replacements env local_replace)))"

fun deployments_refs :: "'v gc_env \<Rightarrow> OstreeDeployment list \<Rightarrow> string set \<Rightarrow> string set result" where
  "deployments_refs env [] referenced_pkgs = Inr referenced_pkgs"
| "deployments_refs env (deployment # deployments) referenced_pkgs =
     bindR (add_deployment_refs env deployment referenced_pkgs) (deployments_refs env deployments)"

text \<open>
  The refs under \<open>rpmostree/pkg\<close> that no deployment needs, which the repository transaction deletes, and
  their number.
\<close>

definition generate_pkgcache_refs ::
  "'v gc_env \<Rightarrow> OstreeDeployment list \<Rightarrow> string list result \<Rightarrow> (string list \<times> nat) result" where
  "generate_pkgcache_refs env deployments pkg_refs =
     prefix_error ''pkgcache cleanup''
     (bindR (deployments_refs env deployments {}) (\<lambda>referenced_pkgs.
      bindR pkg_refs (\<lambda>pkg_refs.
        let freed = filter (\<lambda>ref. ref \<notin> referenced_pkgs) pkg_refs
        in Inr (freed, length freed))))"

section \<open>Regenerating refs and pruning\<close>

text \<open>
  The refs of a repository, with the changes of a running transaction, which take effect in order when it
  is committed. \<open>generate_baselayer_refs\<close> is in \<^verbatim>\<open>src/rust/src/daemon.rs\<close>.
\<close>

type_synonym refs = "(string \<times> string) list"
type_synonym ref_updates = "(string \<times> string option) list"

definition set_ref :: "refs \<Rightarrow> string \<times> string option \<Rightarrow> refs" where
  "set_ref refs u =
     (let others = filter (\<lambda>(r, _). r \<noteq> fst u) refs
      in case snd u of Some c \<Rightarrow> (fst u, c) # others | None \<Rightarrow> others)"

definition commit_refs :: "refs \<Rightarrow> ref_updates \<Rightarrow> refs" where
  "commit_refs refs updates = foldl set_ref refs updates"

definition list_refs :: "string \<Rightarrow> refs \<Rightarrow> string list" where
  "list_refs ref_prefix refs = filter (\<lambda>r. has_prefix r (ref_prefix @ ''/'')) (map fst refs)"

record 'v syscore_env =
  se_gc :: "'v gc_env"
  se_transaction_start :: "unit result"
  se_list_refs_error :: "string \<Rightarrow> gerror option"
  se_commit_transaction :: "unit result"
  se_prepare_cleanup :: "unit result"
  se_rm_rf_tmp_rootfs :: "unit result"
  se_history_prune :: "unit result"
  se_applylive_sync_ref :: "unit result"
  se_container_prune :: "(nat \<times> nat) result"
  se_prune_repo :: "refs \<Rightarrow> u64 result"

definition list_refs_ext :: "'v syscore_env \<Rightarrow> string \<Rightarrow> refs \<Rightarrow> string list result" where
  "list_refs_ext env ref_prefix refs =
     (case se_list_refs_error env ref_prefix of Some e \<Rightarrow> Inl e | None \<Rightarrow> Inr (list_refs ref_prefix refs))"

fun base_revs :: "'v gc_env \<Rightarrow> OstreeDeployment list \<Rightarrow> string result list" where
  "base_revs env [] = []"
| "base_revs env (deployment # deployments) =
     (case gc_load_commit env (d_csum deployment) of
        Inl e \<Rightarrow> [Inl e]
      | Inr (meta, _) \<Rightarrow> if is_layered meta then [Inr (base_commit meta)] else []) @ base_revs env deployments"

fun set_base_refs :: "nat \<Rightarrow> string result list \<Rightarrow> ref_updates \<Rightarrow> ref_updates result" where
  "set_base_refs index [] updates = Inr updates"
| "set_base_refs index (base_rev # bases) updates =
     bindR base_rev (\<lambda>base_rev.
       set_base_refs (index + 1) bases (updates @ [(''rpmostree/base/'' @ show_nat index, Some base_rev)]))"

definition generate_baselayer_refs :: "'v syscore_env \<Rightarrow> OstreeSysroot \<Rightarrow> refs \<Rightarrow> ref_updates result" where
  "generate_baselayer_refs env sysroot refs =
     bindR (list_refs_ext env ''rpmostree/base'' refs) (\<lambda>base_refs.
       set_base_refs 0 (base_revs (se_gc env) (sr_deployments sysroot)) (map (\<lambda>r. (r, None)) base_refs))"

abbreviation (input) RPMOSTREE_TMP_BASE_REF :: string where
  "RPMOSTREE_TMP_BASE_REF \<equiv> ''rpmostree/base/tmp''"

definition syscore_regenerate_refs ::
  "'v syscore_env \<Rightarrow> OstreeSysroot \<Rightarrow> refs \<Rightarrow> (nat \<times> refs) result" where
  "syscore_regenerate_refs env sysroot refs =
     prefix_error ''regenerating refs''
     (bindR (se_transaction_start env) (\<lambda>_.
      bindR (generate_baselayer_refs env sysroot refs) (\<lambda>updates.
      bindR (generate_pkgcache_refs (se_gc env) (sr_deployments sysroot) (list_refs_ext env ''rpmostree/pkg'' refs)) (\<lambda>(freed, n_freed).
      bindR (se_commit_transaction env) (\<lambda>_.
        Inr (n_freed, commit_refs refs (updates @ map (\<lambda>r. (r, None)) freed @ [(RPMOSTREE_TMP_BASE_REF, None)])))))))"

text \<open>The cleanup, with the messages it prints.\<close>

definition rpmostree_syscore_cleanup ::
  "'v syscore_env \<Rightarrow> OstreeSysroot \<Rightarrow> refs \<Rightarrow> (string list \<times> refs) result" where
  "rpmostree_syscore_cleanup env sysroot repo =
     prefix_error ''syscore cleanup''
     (bindR (se_prepare_cleanup env) (\<lambda>_.
      bindR (prefix_error ''cleaning tmp rootfs'' (se_rm_rf_tmp_rootfs env)) (\<lambda>_.
      bindR (se_history_prune env) (\<lambda>_.
      bindR (syscore_regenerate_refs env sysroot repo) (\<lambda>(n_pkgcache_freed, repo).
      bindR (se_applylive_sync_ref env) (\<lambda>_.
      bindR (se_container_prune env) (\<lambda>(images, layers).
      bindR (prefix_error ''pruning'' (se_prune_repo env repo)) (\<lambda>freed_space.
        Inr ((if images > 0 \<or> layers > 0 then [''Pruned images: %u (layers: %u)''] else []) @
             (if n_pkgcache_freed > 0 \<or> freed_space > 0 then [''Freed: %s (pkgcache branches: %u)''] else []),
             repo)))))))))"

text \<open>
  The flags for \<open>ostree_sysroot_simple_write_deployment\<close>; \<open>has_live_apply_state\<close> is the Rust query on the booted
  deployment and \<open>simple_write\<close> the libostree call, which yields the new state of the sysroot.
\<close>

datatype write_flag = RETAIN | NOT_DEFAULT | NO_CLEAN | RETAIN_PENDING | RETAIN_ROLLBACK

definition write_deployment_flags ::
  "(OstreeDeployment \<Rightarrow> bool result) \<Rightarrow> OstreeSysroot \<Rightarrow> bool \<Rightarrow> write_flag list result" where
  "write_deployment_flags has_live_apply_state sysroot pushing_rollback =
     (if pushing_rollback then Inr [NO_CLEAN, NOT_DEFAULT, RETAIN_PENDING]
      else case sr_booted sysroot of
             None \<Rightarrow> Inr [NO_CLEAN]
           | Some booted \<Rightarrow>
               bindR (has_live_apply_state booted) (\<lambda>is_live.
                 Inr (NO_CLEAN # (if is_live then [RETAIN_ROLLBACK] else []))))"

definition rpmostree_syscore_write_deployment ::
  "'v syscore_env \<Rightarrow> (OstreeDeployment \<Rightarrow> bool result) \<Rightarrow>
   (string \<Rightarrow> OstreeDeployment \<Rightarrow> OstreeDeployment option \<Rightarrow> write_flag list \<Rightarrow> OstreeSysroot result) \<Rightarrow>
   OstreeSysroot \<Rightarrow> OstreeDeployment \<Rightarrow> OstreeDeployment option \<Rightarrow> bool \<Rightarrow> refs \<Rightarrow> (OstreeSysroot \<times> string list \<times> refs) result" where
  "rpmostree_syscore_write_deployment env has_live simple_write sysroot new_deployment merge_deployment pushing_rollback repo =
     bindR (write_deployment_flags has_live sysroot pushing_rollback) (\<lambda>flags.
     bindR (simple_write (d_osname new_deployment) new_deployment merge_deployment flags) (\<lambda>sysroot.
     bindR (rpmostree_syscore_cleanup env sysroot repo) (\<lambda>(msgs, repo).
       Inr (sysroot, msgs, repo))))"

section \<open>Filtering keeps what must stay\<close>

definition is_booted :: "OstreeDeployment option \<Rightarrow> OstreeDeployment \<Rightarrow> bool" where
  "is_booted booted x = (case booted of Some b \<Rightarrow> ostree_deployment_equal x b | None \<Rightarrow> False)"

definition retained :: "string \<Rightarrow> bool \<Rightarrow> OstreeDeployment \<Rightarrow> bool" where
  "retained osname cleanup x \<longleftrightarrow> d_osname x \<noteq> osname \<or> d_pinned x \<or> \<not> cleanup"

lemma filter_deployments_Cons:
  "filter_deployments_loop booted osname p r found (x # xs) =
     (if is_booted booted x then x # filter_deployments_loop booted osname p r True xs
      else if retained osname (if found then r else p) x then x # filter_deployments_loop booted osname p r found xs
      else filter_deployments_loop booted osname p r found xs)"
  unfolding filter_deployments_loop.simps(2) is_booted_def [symmetric] Let_def strcmp_zero_iff retained_def by auto

declare filter_deployments_loop.simps(2) [simp del]

lemma filter_deployments_found:
  "filter_deployments_loop booted osname p r True ds = filter (\<lambda>x. is_booted booted x \<or> retained osname r x) ds"
  by (induction ds) (simp_all add: filter_deployments_Cons)

lemma filter_deployments_split:
  "list_all (\<lambda>x. \<not> is_booted booted x) ds \<Longrightarrow> is_booted booted b \<Longrightarrow>
   filter_deployments_loop booted osname p r False (ds @ b # es) =
     filter (retained osname p) ds @ b # filter (\<lambda>x. is_booted booted x \<or> retained osname r x) es"
  by (induction ds) (simp_all add: filter_deployments_Cons filter_deployments_found)

text \<open>
  C31: dropping the pending and the rollback deployments of an OS: with the booted deployment in the list, the
  ones before it are the pending ones and the ones after it the rollbacks; the booted deployment, pinned
  ones and those of other OSes always stay, the order is kept, and the caller learns exactly whether
  something was dropped.
\<close>

theorem filter_deployments_correct:
  assumes "sr_booted sysroot = Some b" "b \<in> set (sr_deployments sysroot)"
  shows "\<exists>pend booted rest. sr_deployments sysroot = pend @ booted # rest \<and> ostree_deployment_equal booted b \<and>
    (let kept = filter (retained osname cleanup_pending) pend @ booted #
                filter (\<lambda>x. ostree_deployment_equal x b \<or> retained osname cleanup_rollback x) rest
     in rpmostree_syscore_filter_deployments sysroot osname cleanup_pending cleanup_rollback =
          (if kept = sr_deployments sysroot then None else Some kept))"
proof -
  let ?P = "is_booted (Some b)"
  have "?P b" by (simp add: is_booted_def ostree_deployment_equal_def)
  with assms(2) obtain pend booted rest where ds: "sr_deployments sysroot = pend @ booted # rest"
    and "?P booted" and "\<forall>x \<in> set pend. \<not> ?P x" by (metis split_list_first_prop)
  then have eq: "filter_deployments_loop (Some b) osname cleanup_pending cleanup_rollback False (sr_deployments sysroot) =
     filter (retained osname cleanup_pending) pend @ booted # filter (\<lambda>x. ?P x \<or> retained osname cleanup_rollback x) rest"
    by (simp add: filter_deployments_split list_all_iff)
  have len: "length (filter p pend @ booted # filter q rest) = length (pend @ booted # rest) \<longleftrightarrow>
      filter p pend @ booted # filter q rest = pend @ booted # rest" for p q
  proof
    assume "length (filter p pend @ booted # filter q rest) = length (pend @ booted # rest)"
    then have "length (filter p pend) + length (filter q rest) = length pend + length rest" by simp
    then have "length (filter p pend) = length pend" "length (filter q rest) = length rest"
      using length_filter_le [of p pend] length_filter_le [of q rest] by linarith+
    then have "filter p pend = pend" "filter q rest = rest" by (metis filter_True length_filter_less linorder_neq_iff)+
    then show "filter p pend @ booted # filter q rest = pend @ booted # rest" by simp
  qed simp
  show ?thesis
    using ds \<open>?P booted\<close> eq len assms(1)
    by (intro exI [of _ pend] exI [of _ booted] exI [of _ rest])
      (simp add: rpmostree_syscore_filter_deployments_def Let_def is_booted_def)
qed

definition mk_deployment :: "string \<Rightarrow> string \<Rightarrow> bool \<Rightarrow> OstreeDeployment" where
  "mk_deployment osname csum pinned = \<lparr>d_osname = osname, d_csum = csum, d_deployserial = 0, d_pinned = pinned,
     d_staged = False, d_bootconfig = Map.empty\<rparr>"

definition demo_sysroot :: OstreeSysroot where
  "demo_sysroot = \<lparr>sr_deployments = [mk_deployment ''fedora'' ''c'' False, mk_deployment ''fedora'' ''b'' False,
       mk_deployment ''fedora'' ''a'' True, mk_deployment ''centos'' ''d'' False],
     sr_booted = Some (mk_deployment ''fedora'' ''b'' False)\<rparr>"

theorem filter_deployments_correct_witness:
  "\<exists>pend booted rest. sr_deployments demo_sysroot = pend @ booted # rest \<and>
    ostree_deployment_equal booted (mk_deployment ''fedora'' ''b'' False) \<and>
    (let kept = filter (retained ''fedora'' True) pend @ booted #
                filter (\<lambda>x. ostree_deployment_equal x (mk_deployment ''fedora'' ''b'' False) \<or> retained ''fedora'' True x) rest
     in rpmostree_syscore_filter_deployments demo_sysroot ''fedora'' True True =
          (if kept = sr_deployments demo_sysroot then None else Some kept))"
  by (rule filter_deployments_correct) (simp_all add: demo_sysroot_def)

section \<open>Deployment indices\<close>

text \<open>
  C39: a deployment index is taken modulo \<open>2 ^ 32\<close>: numbers below the count select that deployment, but so does any
  number that is congruent to one, although it is out of range.
\<close>

theorem get_for_index_wraps:
  assumes "list_all is_digit index" "digits_value 0 index < 2 ^ 63" "length (sr_deployments sysroot) < 2 ^ 32"
  shows "rpmostreed_deployment_get_for_index sysroot index =
    (if digits_value 0 index mod 2 ^ 32 < length (sr_deployments sysroot)
     then Inr (sr_deployments sysroot ! (digits_value 0 index mod 2 ^ 32))
     else Inl (Throw ''Out of range deployment index %d, expected < %d'' []))"
proof -
  have "atoi_digits index = word_of_nat (digits_value 0 index)" using assms(2) by (simp add: atoi_digits_def)
  then have idx: "unat (atoi_digits index) = digits_value 0 index mod 2 ^ 32"
    by (simp add: unat_of_nat)
  have len: "unat (word_of_nat (length (sr_deployments sysroot)) :: 32 word) = length (sr_deployments sysroot)"
    using assms(3) by (simp add: unat_of_nat)
  show ?thesis
    unfolding rpmostreed_deployment_get_for_index_def Let_def word_le_nat_alt idx len
    using assms(1) by (simp add: not_le)
qed

theorem get_for_index_wraps_witness:
  "rpmostreed_deployment_get_for_index demo_sysroot ''4294967297'' = Inr (mk_deployment ''fedora'' ''b'' False)"
proof -
  have "digits_value 0 ''4294967297'' = 4294967297" "list_all is_digit ''4294967297''"
    by (simp_all add: is_digit_def)
  then show ?thesis
    using get_for_index_wraps [of "''4294967297''" demo_sysroot] by (simp add: demo_sysroot_def)
qed

section \<open>Regenerated refs keep what deployments need\<close>

lemma map_of_filter_fst: "map_of (filter (\<lambda>(r, _). r \<noteq> k) xs) = (map_of xs)(k := None)"
  by (induction xs) auto

lemma map_of_set_ref: "map_of (set_ref refs u) = (map_of refs)(fst u := snd u)"
  by (cases "snd u") (simp_all add: set_ref_def Let_def map_of_filter_fst)

lemma commit_refs_append: "commit_refs refs (us @ vs) = commit_refs (commit_refs refs us) vs"
  by (simp add: commit_refs_def)

lemma commit_refs_other: "r \<notin> fst ` set us \<Longrightarrow> map_of (commit_refs refs us) r = map_of refs r"
  by (induction us arbitrary: refs) (auto simp: commit_refs_def map_of_set_ref)

lemma deleted_keys: "fst ` set (map (\<lambda>r. (r, None)) rs) = set rs"
  by (simp add: image_image)

lemma commit_refs_deleted: "r \<in> set rs \<Longrightarrow> map_of (commit_refs refs (map (\<lambda>r. (r, None)) rs)) r = None"
proof (induction rs rule: rev_induct)
  case (snoc x xs)
  then show ?case
    by (cases "r = x") (auto simp: commit_refs_append commit_refs_def map_of_set_ref)
qed simp

fun numbered :: "nat \<Rightarrow> string list \<Rightarrow> ref_updates" where
  "numbered index [] = []"
| "numbered index (b # bs) = (''rpmostree/base/'' @ show_nat index, Some b) # numbered (index + 1) bs"

lemma set_base_refs_eq:
  "set_base_refs index revs updates = Inr updates' \<Longrightarrow>
   \<exists>bs. map Inr bs = revs \<and> updates' = updates @ numbered index bs"
proof (induction index revs updates rule: set_base_refs.induct)
  case (2 index base_rev bases updates)
  then obtain b bs where "base_rev = Inr b" "map Inr bs = bases"
    "updates' = (updates @ [(''rpmostree/base/'' @ show_nat index, Some b)]) @ numbered (index + 1) bs"
    by (auto simp: bindR_Inr_iff)
  then show ?case
    by (intro exI [of _ "b # bs"]) simp
qed simp

lemma numbered_keys: "r \<in> fst ` set (numbered index bs) \<Longrightarrow> \<exists>i \<ge> index. r = ''rpmostree/base/'' @ show_nat i"
proof (induction index bs rule: numbered.induct)
  case (2 index b bs)
  then consider "r = ''rpmostree/base/'' @ show_nat index" | "r \<in> fst ` set (numbered (index + 1) bs)" by auto
  then show ?case
  proof cases
    case 2
    from "2.IH" [OF this] obtain i where "i \<ge> index + 1" "r = ''rpmostree/base/'' @ show_nat i" by blast
    then show ?thesis by (intro exI [of _ i] conjI) simp_all
  qed blast
qed simp

lemma numbered_prefix: "r \<in> fst ` set (numbered index bs) \<Longrightarrow> has_prefix r ''rpmostree/base/''"
proof -
  assume "r \<in> fst ` set (numbered index bs)"
  then obtain i where "r = ''rpmostree/base/'' @ show_nat i" using numbered_keys by blast
  then show ?thesis by (simp only: has_prefix_append)
qed

lemma commit_numbered:
  "k < length bs \<Longrightarrow> map_of (commit_refs refs (numbered index bs)) (''rpmostree/base/'' @ show_nat (index + k)) = Some (bs ! k)"
proof (induction bs arbitrary: index k refs)
  case (Cons b bs)
  let ?u = "(''rpmostree/base/'' @ show_nat index, Some b)"
  show ?case
  proof (cases k)
    case 0
    have "''rpmostree/base/'' @ show_nat index \<notin> fst ` set (numbered (index + 1) bs)"
      using numbered_keys [of "''rpmostree/base/'' @ show_nat index" "index + 1" bs] by (auto simp: show_nat_inj)
    then have "map_of (commit_refs (set_ref refs ?u) (numbered (index + 1) bs)) (''rpmostree/base/'' @ show_nat index) = Some b"
      by (subst commit_refs_other) (simp_all add: map_of_set_ref)
    with 0 show ?thesis by (simp add: commit_refs_def)
  next
    case (Suc j)
    then show ?thesis using Cons.IH [of j "set_ref refs ?u" "index + 1"] Cons.prems by (simp add: commit_refs_def)
  qed
qed simp

text \<open>The cache branches that a deployment needs.\<close>

definition needs :: "'v gc_env \<Rightarrow> OstreeDeployment \<Rightarrow> string \<Rightarrow> bool" where
  "needs env d b \<longleftrightarrow>
     (\<exists>base ps p. rpmostree_deployment_get_base_layer (gc_load_commit env) (d_csum d) = Inr (Some base) \<and>
        gc_system_packages env d = Inr ps \<and> p \<in> set ps \<and> b = rpmostree_get_cache_branch_pkg p) \<or>
     (\<exists>lr v nevra sha256. gc_local_replace env d = Inr lr \<and> v \<in> set lr \<and>
        rpmostree_decompose_sha256_nevra (gc_validate_checksum env) v = Inr (nevra, sha256) \<and>
        nevra_to_cache_branch (gc_split_nevra env) nevra = Inr b)"

lemma foldl_insert: "foldl (\<lambda>r p. Set.insert (f p) r) R ps = R \<union> f ` set ps"
  by (induction ps arbitrary: R) auto

lemma add_local_replacements_eq:
  "add_local_replacements env lr R = Inr R' \<Longrightarrow>
   R' = R \<union> {b. \<exists>v \<in> set lr. \<exists>nevra sha256. rpmostree_decompose_sha256_nevra (gc_validate_checksum env) v = Inr (nevra, sha256) \<and>
      nevra_to_cache_branch (gc_split_nevra env) nevra = Inr b}"
proof (induction env lr R rule: add_local_replacements.induct)
  case (2 env v lr R)
  then obtain nevra sha256 b where v: "rpmostree_decompose_sha256_nevra (gc_validate_checksum env) v = Inr (nevra, sha256)"
    "nevra_to_cache_branch (gc_split_nevra env) nevra = Inr b"
    and r: "add_local_replacements env lr (Set.insert b R) = Inr R'"
    by (auto simp: bindR_Inr_iff)
  from "2.IH" [OF v(1) refl v(2) r] v show ?case by auto
qed simp

lemma prefix_error_Inr: "prefix_error w m = Inr x \<longleftrightarrow> m = Inr x"
  by (cases m) auto

lemma add_deployment_refs_eq:
  assumes "add_deployment_refs env d R = Inr R'"
  shows "R' = R \<union> {b. needs env d b}"
proof -
  obtain base lr R1 where base: "rpmostree_deployment_get_base_layer (gc_load_commit env) (d_csum d) = Inr base"
    and lr: "gc_local_replace env d = Inr lr"
    and R1: "(case base of None \<Rightarrow> Inr R | Some _ \<Rightarrow> bindR (gc_system_packages env d) (\<lambda>pkglist.
        prefix_error ''Deployment index=%d'' (add_package_refs_to_set pkglist R))) = Inr R1"
    and R': "add_local_replacements env lr R1 = Inr R'"
    using assms by (auto simp: add_deployment_refs_def bindR_Inr_iff)
  have "R1 = R \<union> {b. \<exists>x ps p. base = Some x \<and> gc_system_packages env d = Inr ps \<and> p \<in> set ps \<and> b = rpmostree_get_cache_branch_pkg p}"
  proof (cases base)
    case (Some x)
    with R1 obtain ps where ps: "gc_system_packages env d = Inr ps" "add_package_refs_to_set ps R = Inr R1"
      by (auto simp: bindR_Inr_iff prefix_error_Inr)
    then have "R1 = R \<union> rpmostree_get_cache_branch_pkg ` set ps"
      by (simp add: add_package_refs_to_set_def foldl_insert split: if_splits)
    with Some ps show ?thesis by auto
  qed (use R1 in simp)
  moreover have "needs env d b \<longleftrightarrow> (\<exists>x ps p. base = Some x \<and> gc_system_packages env d = Inr ps \<and> p \<in> set ps \<and> b = rpmostree_get_cache_branch_pkg p) \<or>
      (\<exists>v \<in> set lr. \<exists>nevra sha256. rpmostree_decompose_sha256_nevra (gc_validate_checksum env) v = Inr (nevra, sha256) \<and>
      nevra_to_cache_branch (gc_split_nevra env) nevra = Inr b)" for b
    unfolding needs_def base lr by blast
  ultimately show ?thesis unfolding add_local_replacements_eq [OF R'] by blast
qed

lemma deployments_refs_eq:
  "deployments_refs env ds R = Inr R' \<Longrightarrow> R' = R \<union> {b. \<exists>d \<in> set ds. needs env d b}"
proof (induction ds arbitrary: R)
  case (Cons d ds)
  then obtain R1 where "add_deployment_refs env d R = Inr R1" "deployments_refs env ds R1 = Inr R'"
    by (auto simp: bindR_Inr_iff)
  with Cons.IH add_deployment_refs_eq show ?case by fastforce
qed simp

lemma base_revs_layered:
  "d \<in> set ds \<Longrightarrow> gc_load_commit env (d_csum d) = Inr (m, x) \<Longrightarrow> is_layered m \<Longrightarrow> Inr (base_commit m) \<in> set (base_revs env ds)"
  by (induction ds) auto

lemma base_ref_not_tmp: "''rpmostree/base/'' @ show_nat i \<noteq> RPMOSTREE_TMP_BASE_REF"
proof
  assume "''rpmostree/base/'' @ show_nat i = RPMOSTREE_TMP_BASE_REF"
  then have "show_nat i = ''tmp''" by simp
  then have "is_digit (CHR ''t'')" using show_nat_digits [of "CHR ''t''" i] by simp
  then show False by (simp add: is_digit_def)
qed

lemma list_refs_iff: "r \<in> set (list_refs p refs) \<longleftrightarrow> has_prefix r (p @ ''/'') \<and> map_of refs r \<noteq> None"
  by (auto simp: list_refs_def map_of_eq_None_iff)

lemma regenerate_refs_parts:
  assumes "syscore_regenerate_refs env sysroot refs = Inr (n, refs')"
  shows "\<exists>bs. map Inr bs = base_revs (se_gc env) (sr_deployments sysroot) \<and>
    refs' = commit_refs refs ((map (\<lambda>r. (r, None)) (list_refs ''rpmostree/base'' refs) @ numbered 0 bs) @
      map (\<lambda>r. (r, None)) (filter (\<lambda>r. \<not> (\<exists>d \<in> set (sr_deployments sysroot). needs (se_gc env) d r)) (list_refs ''rpmostree/pkg'' refs)) @
      [(RPMOSTREE_TMP_BASE_REF, None)])"
proof -
  obtain updates freed where u: "generate_baselayer_refs env sysroot refs = Inr updates"
    and f: "generate_pkgcache_refs (se_gc env) (sr_deployments sysroot) (list_refs_ext env ''rpmostree/pkg'' refs) = Inr (freed, n)"
    and r: "refs' = commit_refs refs (updates @ map (\<lambda>r. (r, None)) freed @ [(RPMOSTREE_TMP_BASE_REF, None)])"
    using assms by (auto simp: syscore_regenerate_refs_def bindR_Inr_iff prefix_error_Inr)
  from u obtain bs where "map Inr bs = base_revs (se_gc env) (sr_deployments sysroot)"
    "updates = map (\<lambda>r. (r, None)) (list_refs ''rpmostree/base'' refs) @ numbered 0 bs"
    by (auto simp: generate_baselayer_refs_def list_refs_ext_def bindR_Inr_iff split: option.splits dest: set_base_refs_eq)
  moreover from f obtain R where "deployments_refs (se_gc env) (sr_deployments sysroot) {} = Inr R"
    and "freed = filter (\<lambda>r. r \<notin> R) (list_refs ''rpmostree/pkg'' refs)"
    by (auto simp: generate_pkgcache_refs_def list_refs_ext_def bindR_Inr_iff prefix_error_Inr Let_def split: option.splits)
  ultimately show ?thesis using deployments_refs_eq [of "se_gc env" "sr_deployments sysroot" "{}" R] r by auto
qed

lemma base_and_pkg_refs_differ: "has_prefix r ''rpmostree/base/'' \<Longrightarrow> \<not> has_prefix r ''rpmostree/pkg/''"
  by (auto simp: has_prefix_iff)

lemma base_ref_keys:
  assumes "r \<in> fst ` set (map (\<lambda>r. (r, None)) (list_refs ''rpmostree/base'' refs) @ numbered 0 bs)"
  shows "has_prefix r ''rpmostree/base/''"
proof -
  have "r \<in> set (list_refs ''rpmostree/base'' refs) \<or> r \<in> fst ` set (numbered 0 bs)" using assms by (simp add: image_Un image_image)
  then show ?thesis using numbered_prefix [of r 0 bs] by (auto simp: list_refs_iff)
qed

text \<open>
  C20: what the cleanup does to the refs of the repository: outside \<open>rpmostree/base\<close> and \<open>rpmostree/pkg\<close> nothing changes;
  a package ref stays exactly if some deployment needs it, for a package of its rpmdb or for a local
  replacement of its origin; and the base commit of every layered deployment has a base ref again.
\<close>

theorem regenerate_refs_keeps_needed:
  assumes "syscore_regenerate_refs env sysroot refs = Inr (n, refs')"
  shows "(\<forall>r. \<not> has_prefix r ''rpmostree/base/'' \<longrightarrow>
      map_of refs' r = (if has_prefix r ''rpmostree/pkg/'' \<and> \<not> (\<exists>d \<in> set (sr_deployments sysroot). needs (se_gc env) d r)
                        then None else map_of refs r)) \<and>
    (\<forall>d \<in> set (sr_deployments sysroot). \<forall>m x. gc_load_commit (se_gc env) (d_csum d) = Inr (m, x) \<longrightarrow> is_layered m \<longrightarrow>
      (\<exists>i. map_of refs' (''rpmostree/base/'' @ show_nat i) = Some (base_commit m)))"
proof -
  obtain bs where bs: "map Inr bs = base_revs (se_gc env) (sr_deployments sysroot)"
    and refs': "refs' = commit_refs refs ((map (\<lambda>r. (r, None)) (list_refs ''rpmostree/base'' refs) @ numbered 0 bs) @
      map (\<lambda>r. (r, None)) (filter (\<lambda>r. \<not> (\<exists>d \<in> set (sr_deployments sysroot). needs (se_gc env) d r)) (list_refs ''rpmostree/pkg'' refs)) @
      [(RPMOSTREE_TMP_BASE_REF, None)])" (is "_ = commit_refs refs (?base @ map _ ?freed @ _)")
    using regenerate_refs_parts [OF assms] by blast
  have tmp: "map_of refs' r = map_of (commit_refs (commit_refs refs ?base) (map (\<lambda>r. (r, None)) ?freed)) r"
    if "r \<noteq> RPMOSTREE_TMP_BASE_REF" for r
    using that unfolding refs' commit_refs_append by (subst commit_refs_other) simp_all
  have "map_of refs' r = (if has_prefix r ''rpmostree/pkg/'' \<and> \<not> (\<exists>d \<in> set (sr_deployments sysroot). needs (se_gc env) d r)
                        then None else map_of refs r)" if nb: "\<not> has_prefix r ''rpmostree/base/''" for r
  proof -
    have nt: "r \<noteq> RPMOSTREE_TMP_BASE_REF" using nb by auto
    have nbase: "r \<notin> fst ` set ?base" using base_ref_keys [of r refs bs] nb by blast
    show ?thesis
    proof (cases "r \<in> set ?freed")
      case True
      then show ?thesis using tmp [OF nt] commit_refs_deleted [OF True] by (auto simp: list_refs_iff)
    next
      case False
      then have "r \<notin> fst ` set (map (\<lambda>r. (r, None :: string option)) ?freed)" unfolding deleted_keys .
      then have "map_of refs' r = map_of refs r"
        using tmp [OF nt] commit_refs_other [OF nbase] commit_refs_other [of r "map (\<lambda>r. (r, None)) ?freed"] by simp
      then show ?thesis using False by (auto simp: list_refs_iff)
    qed
  qed
  moreover have "\<exists>i. map_of refs' (''rpmostree/base/'' @ show_nat i) = Some (base_commit m)"
    if "d \<in> set (sr_deployments sysroot)" "gc_load_commit (se_gc env) (d_csum d) = Inr (m, x)" "is_layered m" for d m x
  proof -
    have "Inr (base_commit m) \<in> set (map Inr bs :: string result list)" using base_revs_layered [OF that] bs by simp
    then obtain i where i: "i < length bs" "bs ! i = base_commit m" by (auto simp: in_set_conv_nth)
    have "''rpmostree/base/'' @ show_nat i \<notin> set ?freed"
      using base_and_pkg_refs_differ [of "''rpmostree/base/'' @ show_nat i"] by (auto simp: list_refs_iff)
    then have "''rpmostree/base/'' @ show_nat i \<notin> fst ` set (map (\<lambda>r. (r, None :: string option)) ?freed)" 
      unfolding deleted_keys .
    then have "map_of refs' (''rpmostree/base/'' @ show_nat i) = map_of (commit_refs refs ?base) (''rpmostree/base/'' @ show_nat i)"
      unfolding tmp [OF base_ref_not_tmp] by (rule commit_refs_other)
    then show ?thesis
      using commit_numbered [OF i(1), of _ 0] i(2) by (auto simp: commit_refs_append intro!: exI [of _ i])
  qed
  ultimately show ?thesis by blast
qed

definition demo_env :: "'v syscore_env" where
  "demo_env = \<lparr>se_gc = \<lparr>
       gc_load_commit = (\<lambda>csum. Inr (\<lparr>is_layered = True, clientlayer_version = 6, base_commit = ''base''\<rparr>,
         \<lparr>cd_packages = Some [''foo''], cd_spec_packages = None, cd_removed_base_packages = Some [],
          cd_replaced_base_packages = Some [], cd_replaced_base_remote_packages = Some []\<rparr>)),
       gc_local_replace = (\<lambda>_. Inr []),
       gc_system_packages = (\<lambda>_. Inr [\<lparr>dnf_name = ''foo'', dnf_evr = ''1-1'', dnf_arch = ''noarch''\<rparr>]),
       gc_validate_checksum = (\<lambda>_. None), gc_split_nevra = (\<lambda>_. None)\<rparr>,
     se_transaction_start = Inr (), se_list_refs_error = (\<lambda>_. None), se_commit_transaction = Inr (),
     se_prepare_cleanup = Inr (), se_rm_rf_tmp_rootfs = Inr (), se_history_prune = Inr (), se_applylive_sync_ref = Inr (),
     se_container_prune = Inr (0, 0), se_prune_repo = (\<lambda>_. Inr 0)\<rparr>"

definition demo_refs :: refs where
  "demo_refs = [(''rpmostree/pkg/foo/1-1.noarch'', ''p1''), (''rpmostree/pkg/bar/2-1.noarch'', ''p2''),
     (''rpmostree/base/tmp'', ''t''), (''fedora/stable'', ''f'')]"

theorem regenerate_refs_keeps_needed_witness:
  "\<exists>n refs'. syscore_regenerate_refs (demo_env :: unit syscore_env) demo_sysroot demo_refs = Inr (n, refs') \<and>
     map_of refs' ''fedora/stable'' = Some ''f''"
proof -
  have "\<not> isl (syscore_regenerate_refs (demo_env :: unit syscore_env) demo_sysroot demo_refs)"
    by (simp add: syscore_regenerate_refs_def generate_baselayer_refs_def list_refs_ext_def demo_env_def demo_sysroot_def
        generate_pkgcache_refs_def add_deployment_refs_def rpmostree_deployment_get_base_layer_def
        rpmostree_deployment_get_layered_info_def add_package_refs_to_set_def Let_def)
  then obtain n refs' where r: "syscore_regenerate_refs (demo_env :: unit syscore_env) demo_sysroot demo_refs = Inr (n, refs')"
    by (cases "syscore_regenerate_refs (demo_env :: unit syscore_env) demo_sysroot demo_refs") auto
  from regenerate_refs_keeps_needed [OF r] have "map_of refs' ''fedora/stable'' = map_of demo_refs ''fedora/stable''" by simp
  then show ?thesis using r by (simp add: demo_refs_def)
qed

end
