(* ===== verification/Origin.thy ===== *)
theory Origin
  imports Nevra
begin

text \<open>
  The origin of a deployment: what the user asked for on top of the base commit. The C++ class of
  \<^verbatim>\<open>src/src/libpriv/rpmostree-origin.cxx\<close> is a shell around the derivation part of a treefile, whose operations are
  in \<^verbatim>\<open>src/rust/src/treefile.rs\<close>. A \<open>BTreeSet\<close> is its ascending list of members, a \<open>BTreeMap\<close> its ascending list of
  pairs; a \<open>panic\<close> of the Rust side stops the process. libostree's checksum check, libdnf's NEVRA parser and the
  image reference parser are parameters.
\<close>

section \<open>Ordered sets and maps\<close>

fun bset_insert :: "string \<Rightarrow> string list \<Rightarrow> string list" where
  "bset_insert x [] = [x]"
| "bset_insert x (y # ys) =
     (if x = y then y # ys else if strcmp x y < 0 then x # y # ys else y # bset_insert x ys)"

definition bset_extend :: "string list \<Rightarrow> string list \<Rightarrow> string list" where
  "bset_extend s xs = foldl (\<lambda>s x. bset_insert x s) s xs"

fun bmap_insert :: "string \<Rightarrow> 'v \<Rightarrow> (string \<times> 'v) list \<Rightarrow> (string \<times> 'v) list" where
  "bmap_insert k v [] = [(k, v)]"
| "bmap_insert k v ((k', v') # m) =
     (if k = k' then (k, v) # m else if strcmp k k' < 0 then (k, v) # (k', v') # m else (k', v') # bmap_insert k v m)"

definition bmap_remove :: "string \<Rightarrow> (string \<times> 'v) list \<Rightarrow> (string \<times> 'v) list" where
  "bmap_remove k m = filter (\<lambda>(k', _). k' \<noteq> k) m"

lemma set_bset_insert [simp]: "set (bset_insert x s) = Set.insert x (set s)"
  by (induction x s rule: bset_insert.induct) auto

lemma set_bset_extend [simp]: "set (bset_extend s xs) = set s \<union> set xs"
  unfolding bset_extend_def by (induction xs arbitrary: s) auto

lemma map_of_bmap_insert [simp]: "sorted_wrt (\<lambda>a b. strcmp (fst a) (fst b) < 0) m \<Longrightarrow> map_of (bmap_insert k v m) = (map_of m)(k \<mapsto> v)"
  by (induction k v m rule: bmap_insert.induct) auto

lemma keys_bmap_insert [simp]: "fst ` set (bmap_insert k v m) = Set.insert k (fst ` set m)"
  by (induction k v m rule: bmap_insert.induct) auto

lemma map_of_bmap_remove [simp]: "map_of (bmap_remove k m) = (map_of m)(k := None)"
  by (induction m) (auto simp: bmap_remove_def)

lemma keys_bmap_remove [simp]: "fst ` set (bmap_remove k m) = fst ` set m - {k}"
  by (auto simp: bmap_remove_def)

definition ascending :: "string list \<Rightarrow> bool" where
  "ascending = sorted_wrt (\<lambda>a b. strcmp a b < 0)"

lemma strcmp_less_trans: "strcmp a b < 0 \<Longrightarrow> strcmp b c < 0 \<Longrightarrow> strcmp a c < 0"
  using strcmp.cmp_less_le_trans [of a b c] by simp

lemma strcmp_antisym: "\<not> strcmp x y < 0 \<Longrightarrow> x \<noteq> y \<Longrightarrow> strcmp y x < 0"
  using strcmp.cmp_pos_iff [of x y] strcmp_zero_iff [of x y] by linarith

lemma ascending_insert: "ascending s \<Longrightarrow> ascending (bset_insert x s)"
  unfolding ascending_def
  by (induction x s rule: bset_insert.induct) (auto intro: strcmp_less_trans strcmp_antisym)

lemma ascending_extend: "ascending s \<Longrightarrow> ascending (bset_extend s xs)"
  unfolding bset_extend_def by (induction xs arbitrary: s) (auto intro: ascending_insert)

lemma ascending_remove: "ascending s \<Longrightarrow> ascending (removeAll x s)"
  unfolding ascending_def by (induction s) auto

lemma keys_insert_list: "map fst (bmap_insert k v m) = bset_insert k (map fst m)"
  by (induction k v m rule: bmap_insert.induct) auto

lemma keys_remove_list: "map fst (bmap_remove k m) = removeAll k (map fst m)"
  by (induction m) (auto simp: bmap_remove_def)

section \<open>The derivation fields of a treefile\<close>

record DeriveInitramfs =
  regenerate :: bool
  etc :: "string list option"
  args :: "string list option"

record treefile =
  packages :: "string list option"
  base_refspec :: "string option"
  container_image_reference :: "string option"
  packages_local :: "(string \<times> string) list option"
  packages_local_fileoverride :: "(string \<times> string) list option"
  override_remove :: "string list option"
  override_replace :: "(string \<times> string list) list option"
  override_replace_local :: "(string \<times> string) list option"
  initramfs :: "DeriveInitramfs option"
  custom :: "(string \<times> string option) option"
  override_commit :: "string option"
  unconfigured_state :: "string option"
  cliwrap :: "bool option"
  initramfs_args :: "string list option"

text \<open>\<open>unwrap_or_default\<close> and \<open>ext_get_or_insert_default\<close> of an optional collection.\<close>

definition unwrap :: "'a list option \<Rightarrow> 'a list" where
  "unwrap x = (case x of Some v \<Rightarrow> v | None \<Rightarrow> [])"

lemma unwrap_simps [simp]: "unwrap None = []" "unwrap (Some v) = v"
  by (simp_all add: unwrap_def)

datatype RefspecType = Ostree | Checksum | Container

record origin_env =
  validate_checksum_string :: "string \<Rightarrow> gerror option"
  is_image_reference :: "string \<Rightarrow> bool"
  split_nevra :: split_nevra

definition refspec_classify :: "origin_env \<Rightarrow> string \<Rightarrow> RefspecType" where
  "refspec_classify env refspec =
     (if is_image_reference env refspec then Container
      else if validate_checksum_string env refspec = None then Checksum
      else Ostree)"

text \<open>\<open>splitn (2, ':')\<close>, then the checksum check on the first part.\<close>

definition decompose_sha256_nevra :: "origin_env \<Rightarrow> string \<Rightarrow> (string \<times> string) result" where
  "decompose_sha256_nevra env v =
     (let sha256 = takeWhile (\<lambda>c. c \<noteq> CHR '':'') v; rest = dropWhile (\<lambda>c. c \<noteq> CHR '':'') v
      in case rest of
           [] \<Rightarrow> Inl (Throw ''Missing : in {}'' [v])
         | _ # nevra \<Rightarrow>
             (case validate_checksum_string env sha256 of Some e \<Rightarrow> Inl e | None \<Rightarrow> Inr (nevra, sha256)))"

subsection \<open>Base\<close>

definition rpmostree_origin_get_refspec :: "origin_env \<Rightarrow> treefile \<Rightarrow> (RefspecType \<times> string) result" where
  "rpmostree_origin_get_refspec env o1 =
     (case container_image_reference o1 of
        Some s \<Rightarrow> Inr (Container, s)
      | None \<Rightarrow>
          (case base_refspec o1 of
             Some s \<Rightarrow> Inr (if validate_checksum_string env s = None then Checksum else Ostree, s)
           | None \<Rightarrow> Inl (Abort ''unreachable'')))"

definition rpmostree_origin_set_rebase_custom ::
  "origin_env \<Rightarrow> treefile \<Rightarrow> string \<Rightarrow> string option \<Rightarrow> string option \<Rightarrow> treefile" where
  "rpmostree_origin_set_rebase_custom env o1 new_refspec custom_origin_url custom_origin_description =
     (let url = (case custom_origin_url of Some u \<Rightarrow> u | None \<Rightarrow> []);
          description = (case custom_origin_description of Some d \<Rightarrow> d | None \<Rightarrow> []);
          o1 = o1\<lparr>override_commit := None\<rparr>;
          o1 = (case refspec_classify env new_refspec of
                  Container \<Rightarrow> o1\<lparr>base_refspec := None, container_image_reference := Some new_refspec\<rparr>
                | _ \<Rightarrow> o1\<lparr>base_refspec := Some new_refspec, container_image_reference := None\<rparr>)
      in if url = [] then o1\<lparr>custom := None\<rparr>
         else o1\<lparr>custom := Some (url, if description = [] then None else Some description)\<rparr>)"

definition rpmostree_origin_set_rebase :: "origin_env \<Rightarrow> treefile \<Rightarrow> string \<Rightarrow> treefile" where
  "rpmostree_origin_set_rebase env o1 new_refspec = rpmostree_origin_set_rebase_custom env o1 new_refspec None None"

definition rpmostree_origin_get_custom_url :: "treefile \<Rightarrow> string" where
  "rpmostree_origin_get_custom_url o1 = (case custom o1 of Some (url, _) \<Rightarrow> url | None \<Rightarrow> [])"

definition rpmostree_origin_get_custom_description :: "treefile \<Rightarrow> string" where
  "rpmostree_origin_get_custom_description o1 = (case custom o1 of Some (_, Some d) \<Rightarrow> d | _ \<Rightarrow> [])"

definition rpmostree_origin_get_override_commit :: "treefile \<Rightarrow> string" where
  "rpmostree_origin_get_override_commit o1 = (case override_commit o1 of Some c \<Rightarrow> c | None \<Rightarrow> [])"

definition rpmostree_origin_set_override_commit :: "treefile \<Rightarrow> string option \<Rightarrow> treefile" where
  "rpmostree_origin_set_override_commit o1 checksum =
     (let checksum = (case checksum of Some c \<Rightarrow> c | None \<Rightarrow> [])
      in o1\<lparr>override_commit := if checksum \<noteq> [] then Some checksum else None\<rparr>)"

definition rpmostree_origin_get_unconfigured_state :: "treefile \<Rightarrow> string" where
  "rpmostree_origin_get_unconfigured_state o1 = (case unconfigured_state o1 of Some s \<Rightarrow> s | None \<Rightarrow> [])"

definition rpmostree_origin_get_cliwrap :: "treefile \<Rightarrow> bool" where
  "rpmostree_origin_get_cliwrap o1 = (case cliwrap o1 of Some b \<Rightarrow> b | None \<Rightarrow> False)"

definition rpmostree_origin_set_cliwrap :: "treefile \<Rightarrow> bool \<Rightarrow> treefile" where
  "rpmostree_origin_set_cliwrap o1 b = o1\<lparr>cliwrap := Some b\<rparr>"

subsection \<open>Packages\<close>

definition rpmostree_origin_get_packages :: "treefile \<Rightarrow> string list" where
  "rpmostree_origin_get_packages o1 = unwrap (packages o1)"

definition rpmostree_origin_has_packages :: "treefile \<Rightarrow> bool" where
  "rpmostree_origin_has_packages o1 \<longleftrightarrow> unwrap (packages o1) \<noteq> []"

definition sha256_nevras :: "(string \<times> string) list option \<Rightarrow> string list" where
  "sha256_nevras m = map (\<lambda>(k, v). v @ '':'' @ k) (unwrap m)"

definition rpmostree_origin_get_local_packages :: "treefile \<Rightarrow> string list" where
  "rpmostree_origin_get_local_packages o1 = sha256_nevras (packages_local o1)"

definition rpmostree_origin_get_local_fileoverride_packages :: "treefile \<Rightarrow> string list" where
  "rpmostree_origin_get_local_fileoverride_packages o1 = sha256_nevras (packages_local_fileoverride o1)"

definition has_package :: "treefile \<Rightarrow> string \<Rightarrow> bool" where
  "has_package o1 p \<longleftrightarrow> p \<in> set (unwrap (packages o1))"

definition has_local_package :: "treefile \<Rightarrow> string \<Rightarrow> bool" where
  "has_local_package o1 p \<longleftrightarrow> p \<in> fst ` set (unwrap (packages_local o1))"

definition has_local_fileoverride_package :: "treefile \<Rightarrow> string \<Rightarrow> bool" where
  "has_local_fileoverride_package o1 p \<longleftrightarrow> p \<in> fst ` set (unwrap (packages_local_fileoverride o1))"

fun filter_package_requests :: "origin_env \<Rightarrow> treefile \<Rightarrow> string list \<Rightarrow> bool \<Rightarrow> bool \<Rightarrow> string list result" where
  "filter_package_requests env o1 [] sha256_split allow_existing = Inr []"
| "filter_package_requests env o1 (p # ps) sha256_split allow_existing =
     bindR (if sha256_split then bindR (decompose_sha256_nevra env p) (\<lambda>(nevra, _). Inr nevra) else Inr p) (\<lambda>pkgname.
       if has_package o1 pkgname
       then if \<not> allow_existing then Inl (Throw ''Package/capability %s is already requested'' [p])
            else filter_package_requests env o1 ps sha256_split allow_existing
       else if has_local_package o1 pkgname \<or> has_local_fileoverride_package o1 pkgname
       then if \<not> allow_existing then Inl (Throw ''Package %s is already layered'' [p])
            else filter_package_requests env o1 ps sha256_split allow_existing
       else bindR (filter_package_requests env o1 ps sha256_split allow_existing) (\<lambda>rpackages. Inr (p # rpackages)))"

definition add_packages :: "origin_env \<Rightarrow> treefile \<Rightarrow> string list \<Rightarrow> bool \<Rightarrow> (treefile \<times> bool) result" where
  "add_packages env o1 pkgs allow_existing =
     bindR (filter_package_requests env o1 pkgs False allow_existing) (\<lambda>pkgs.
       let s = unwrap (packages o1); s' = bset_extend s pkgs
       in Inr (o1\<lparr>packages := Some s'\<rparr>, length s' \<noteq> length s))"

fun add_sha256_nevra_to_map ::
  "origin_env \<Rightarrow> (string \<times> string) list \<Rightarrow> string list \<Rightarrow> bool \<Rightarrow> ((string \<times> string) list \<times> bool) result" where
  "add_sha256_nevra_to_map env m [] changed = Inr (m, changed)"
| "add_sha256_nevra_to_map env m (p # ps) changed =
     bindR (decompose_sha256_nevra env p) (\<lambda>(nevra, sha256).
       add_sha256_nevra_to_map env (bmap_insert nevra sha256 m) ps (map_of m nevra = None \<or> changed))"

definition add_local_packages :: "origin_env \<Rightarrow> treefile \<Rightarrow> string list \<Rightarrow> bool \<Rightarrow> (treefile \<times> bool) result" where
  "add_local_packages env o1 pkgs allow_existing =
     bindR (filter_package_requests env o1 pkgs True allow_existing) (\<lambda>pkgs.
     bindR (add_sha256_nevra_to_map env (unwrap (packages_local o1)) pkgs False) (\<lambda>(m, changed).
       Inr (o1\<lparr>packages_local := Some m\<rparr>, changed)))"

definition add_local_fileoverride_packages :: "origin_env \<Rightarrow> treefile \<Rightarrow> string list \<Rightarrow> bool \<Rightarrow> (treefile \<times> bool) result" where
  "add_local_fileoverride_packages env o1 pkgs allow_existing =
     bindR (filter_package_requests env o1 pkgs True allow_existing) (\<lambda>pkgs.
     bindR (add_sha256_nevra_to_map env (unwrap (packages_local_fileoverride o1)) pkgs False) (\<lambda>(m, changed).
       Inr (o1\<lparr>packages_local_fileoverride := Some m\<rparr>, changed)))"

fun build_name_to_nevra_map ::
  "origin_env \<Rightarrow> (string \<times> string) list \<Rightarrow> (string \<times> string) list \<Rightarrow> (string \<times> string) list result" where
  "build_name_to_nevra_map env [] acc = Inr acc"
| "build_name_to_nevra_map env ((nevra, _) # m) acc =
     (case split_nevra env nevra of
        None \<Rightarrow> Inl (Throw ''Failed to decompose NEVRA string'' [nevra])
      | Some (name, _) \<Rightarrow> build_name_to_nevra_map env m (bmap_insert name nevra acc))"

text \<open>
  The two maps from names to NEVRAs are built when first needed and not updated afterwards. An assertion
  checks that the entry they lead to was still there.
\<close>

type_synonym name_maps = "((string \<times> string) list \<times> (string \<times> string) list) option"

fun remove_packages_loop ::
  "origin_env \<Rightarrow> bool \<Rightarrow> string list \<Rightarrow> name_maps \<Rightarrow> treefile \<Rightarrow> bool \<Rightarrow> (treefile \<times> bool) result" where
  "remove_packages_loop env allow_noent [] lazy o1 changed = Inr (o1, changed)"
| "remove_packages_loop env allow_noent (p # ps) lazy o1 changed =
     (if has_package o1 p
      then remove_packages_loop env allow_noent ps lazy (o1\<lparr>packages := map_option (removeAll p) (packages o1)\<rparr>) True
      else if has_local_package o1 p
      then remove_packages_loop env allow_noent ps lazy (o1\<lparr>packages_local := map_option (bmap_remove p) (packages_local o1)\<rparr>) True
      else if has_local_fileoverride_package o1 p
      then remove_packages_loop env allow_noent ps lazy
             (o1\<lparr>packages_local_fileoverride := map_option (bmap_remove p) (packages_local_fileoverride o1)\<rparr>) True
      else
        bindR (case lazy of
                 Some maps \<Rightarrow> Inr maps
               | None \<Rightarrow>
                   bindR (build_name_to_nevra_map env (unwrap (packages_local o1)) []) (\<lambda>m.
                   bindR (build_name_to_nevra_map env (unwrap (packages_local_fileoverride o1)) []) (\<lambda>m'. Inr (m, m'))))
          (\<lambda>(name_to_nevra, name_to_nevra_fileoverride).
             let lazy = Some (name_to_nevra, name_to_nevra_fileoverride) in
             case map_of name_to_nevra p of
               Some nevra \<Rightarrow>
                 if \<not> has_local_package o1 nevra then Inl (Abort ''assert!(changed)'')
                 else remove_packages_loop env allow_noent ps lazy (o1\<lparr>packages_local := map_option (bmap_remove nevra) (packages_local o1)\<rparr>) True
             | None \<Rightarrow>
                 (case map_of name_to_nevra_fileoverride p of
                    Some nevra \<Rightarrow>
                      if \<not> has_local_fileoverride_package o1 nevra then Inl (Abort ''assert!(changed)'')
                      else remove_packages_loop env allow_noent ps lazy
                             (o1\<lparr>packages_local_fileoverride := map_option (bmap_remove nevra) (packages_local_fileoverride o1)\<rparr>) True
                  | None \<Rightarrow>
                      if \<not> allow_noent then Inl (Throw ''Package/capability %s is not currently requested'' [p])
                      else remove_packages_loop env allow_noent ps lazy o1 changed)))"

definition remove_packages :: "origin_env \<Rightarrow> treefile \<Rightarrow> string list \<Rightarrow> bool \<Rightarrow> (treefile \<times> bool) result" where
  "remove_packages env o1 pkgs allow_noent = remove_packages_loop env allow_noent pkgs None o1 False"

text \<open>The C++ entry points accumulate the change flag of the caller.\<close>

definition set_changed :: "bool \<Rightarrow> (treefile \<times> bool) result \<Rightarrow> (treefile \<times> bool) result" where
  "set_changed out r = bindR r (\<lambda>(o1, c). Inr (o1, out \<or> c))"

definition rpmostree_origin_add_packages :: "origin_env \<Rightarrow> treefile \<Rightarrow> string list \<Rightarrow> bool \<Rightarrow> bool \<Rightarrow> (treefile \<times> bool) result" where
  "rpmostree_origin_add_packages env o1 pkgs allow_existing out_changed = set_changed out_changed (add_packages env o1 pkgs allow_existing)"

definition rpmostree_origin_add_local_packages :: "origin_env \<Rightarrow> treefile \<Rightarrow> string list \<Rightarrow> bool \<Rightarrow> bool \<Rightarrow> (treefile \<times> bool) result" where
  "rpmostree_origin_add_local_packages env o1 pkgs allow_existing out_changed =
     set_changed out_changed (add_local_packages env o1 pkgs allow_existing)"

definition rpmostree_origin_add_local_fileoverride_packages ::
  "origin_env \<Rightarrow> treefile \<Rightarrow> string list \<Rightarrow> bool \<Rightarrow> bool \<Rightarrow> (treefile \<times> bool) result" where
  "rpmostree_origin_add_local_fileoverride_packages env o1 pkgs allow_existing out_changed =
     set_changed out_changed (add_local_fileoverride_packages env o1 pkgs allow_existing)"

definition rpmostree_origin_remove_packages :: "origin_env \<Rightarrow> treefile \<Rightarrow> string list \<Rightarrow> bool \<Rightarrow> bool \<Rightarrow> (treefile \<times> bool) result" where
  "rpmostree_origin_remove_packages env o1 pkgs allow_noent out_changed = set_changed out_changed (remove_packages env o1 pkgs allow_noent)"

definition rpmostree_origin_remove_all_packages :: "treefile \<Rightarrow> treefile \<times> bool" where
  "rpmostree_origin_remove_all_packages o1 =
     (o1\<lparr>packages := None, packages_local := None, packages_local_fileoverride := None\<rparr>,
      unwrap (packages o1) \<noteq> [] \<or> unwrap (packages_local o1) \<noteq> [] \<or> unwrap (packages_local_fileoverride o1) \<noteq> [])"

subsection \<open>Overrides\<close>

definition rpmostree_origin_get_overrides_remove :: "treefile \<Rightarrow> string list" where
  "rpmostree_origin_get_overrides_remove o1 = unwrap (override_remove o1)"

definition rpmostree_origin_has_overrides_remove_name :: "treefile \<Rightarrow> string \<Rightarrow> bool" where
  "rpmostree_origin_has_overrides_remove_name o1 name \<longleftrightarrow> name \<in> set (unwrap (override_remove o1))"

definition rpmostree_origin_get_overrides_replace :: "treefile \<Rightarrow> (string \<times> string list) list" where
  "rpmostree_origin_get_overrides_replace o1 = unwrap (override_replace o1)"

definition rpmostree_origin_get_overrides_local_replace :: "treefile \<Rightarrow> string list" where
  "rpmostree_origin_get_overrides_local_replace o1 = sha256_nevras (override_replace_local o1)"

definition has_override :: "treefile \<Rightarrow> string \<Rightarrow> bool" where
  "has_override o1 name_or_nevra \<longleftrightarrow>
     rpmostree_origin_has_overrides_remove_name o1 name_or_nevra \<or>
     name_or_nevra \<in> fst ` set (unwrap (override_replace_local o1)) \<or>
     list_ex (\<lambda>(_, pkgs). name_or_nevra \<in> set pkgs) (unwrap (override_replace o1))"

fun rpmostree_origin_add_override_remove :: "treefile \<Rightarrow> string list \<Rightarrow> treefile result" where
  "rpmostree_origin_add_override_remove o1 [] = Inr o1"
| "rpmostree_origin_add_override_remove o1 (p # ps) =
     (if has_override o1 p then Inl (Throw ''Override already exists for package %s'' [p])
      else let s = unwrap (override_remove o1)
           in if p \<in> set s then Inl (Abort ''assert!(is_new)'')
              else rpmostree_origin_add_override_remove (o1\<lparr>override_remove := Some (bset_insert p s)\<rparr>) ps)"

fun rpmostree_origin_add_override_replace_local :: "origin_env \<Rightarrow> treefile \<Rightarrow> string list \<Rightarrow> treefile result" where
  "rpmostree_origin_add_override_replace_local env o1 [] = Inr o1"
| "rpmostree_origin_add_override_replace_local env o1 (p # ps) =
     bindR (decompose_sha256_nevra env p) (\<lambda>(nevra, sha256).
       if has_override o1 nevra then Inl (Throw ''Override already exists for package %s'' [p])
       else let m = unwrap (override_replace_local o1)
            in if map_of m nevra \<noteq> None then Inl (Abort ''assert!(prev.is_none())'')
               else rpmostree_origin_add_override_replace_local env
                      (o1\<lparr>override_replace_local := Some (bmap_insert nevra sha256 m)\<rparr>) ps)"

definition rpmostree_origin_remove_override_remove :: "treefile \<Rightarrow> string \<Rightarrow> treefile \<times> bool" where
  "rpmostree_origin_remove_override_remove o1 p =
     (o1\<lparr>override_remove := map_option (removeAll p) (override_remove o1)\<rparr>, p \<in> set (unwrap (override_remove o1)))"

definition rpmostree_origin_remove_override_replace_local :: "treefile \<Rightarrow> string \<Rightarrow> treefile \<times> bool" where
  "rpmostree_origin_remove_override_replace_local o1 p =
     (o1\<lparr>override_replace_local := map_option (bmap_remove p) (override_replace_local o1)\<rparr>,
      p \<in> fst ` set (unwrap (override_replace_local o1)))"

text \<open>\<open>any\<close> stops at the first replacement the package is removed from.\<close>

fun remove_first :: "string \<Rightarrow> (string \<times> string list) list \<Rightarrow> (string \<times> string list) list \<times> bool" where
  "remove_first p [] = ([], False)"
| "remove_first p ((repo, pkgs) # v) =
     (if p \<in> set pkgs then ((repo, removeAll p pkgs) # v, True)
      else let (v, b) = remove_first p v in ((repo, pkgs) # v, b))"

definition rpmostree_origin_remove_override_replace :: "treefile \<Rightarrow> string \<Rightarrow> treefile \<times> bool" where
  "rpmostree_origin_remove_override_replace o1 p =
     (case override_replace o1 of
        None \<Rightarrow> (o1, False)
      | Some v \<Rightarrow> (o1\<lparr>override_replace := Some (fst (remove_first p v))\<rparr>, snd (remove_first p v)))"

definition rpmostree_origin_remove_all_overrides :: "treefile \<Rightarrow> treefile \<times> bool" where
  "rpmostree_origin_remove_all_overrides o1 =
     (o1\<lparr>override_remove := None, override_replace := None, override_replace_local := None\<rparr>,
      unwrap (override_remove o1) \<noteq> [] \<or> unwrap (override_replace o1) \<noteq> [] \<or> unwrap (override_replace_local o1) \<noteq> [])"

subsection \<open>Initramfs\<close>

definition default_initramfs :: DeriveInitramfs where
  "default_initramfs = \<lparr>regenerate = False, etc = None, args = None\<rparr>"

definition get_initramfs :: "treefile \<Rightarrow> DeriveInitramfs" where
  "get_initramfs o1 = (case initramfs o1 of Some i \<Rightarrow> i | None \<Rightarrow> default_initramfs)"

definition rpmostree_origin_get_initramfs_etc_files :: "treefile \<Rightarrow> string list" where
  "rpmostree_origin_get_initramfs_etc_files o1 = unwrap (etc (get_initramfs o1))"

definition rpmostree_origin_has_initramfs_etc_files :: "treefile \<Rightarrow> bool" where
  "rpmostree_origin_has_initramfs_etc_files o1 \<longleftrightarrow> unwrap (etc (get_initramfs o1)) \<noteq> []"

definition rpmostree_origin_initramfs_etc_files_track :: "treefile \<Rightarrow> string list \<Rightarrow> treefile \<times> bool" where
  "rpmostree_origin_initramfs_etc_files_track o1 paths =
     (let i = get_initramfs o1; s = unwrap (etc i); s' = bset_extend s paths
      in (o1\<lparr>initramfs := Some (i\<lparr>etc := Some s'\<rparr>)\<rparr>, length s' \<noteq> length s))"

definition rpmostree_origin_initramfs_etc_files_untrack :: "treefile \<Rightarrow> string list \<Rightarrow> treefile \<times> bool" where
  "rpmostree_origin_initramfs_etc_files_untrack o1 paths =
     (let i = get_initramfs o1;
          (s, changed) = foldl (\<lambda>(s, changed) f. (removeAll f s, f \<in> set s \<or> changed)) (unwrap (etc i), False) paths
      in (o1\<lparr>initramfs := Some (i\<lparr>etc := Some s\<rparr>)\<rparr>, changed))"

definition rpmostree_origin_initramfs_etc_files_untrack_all :: "treefile \<Rightarrow> treefile \<times> bool" where
  "rpmostree_origin_initramfs_etc_files_untrack_all o1 =
     (let i = get_initramfs o1
      in (o1\<lparr>initramfs := Some (i\<lparr>etc := None\<rparr>)\<rparr>, unwrap (etc i) \<noteq> []))"

definition rpmostree_origin_get_regenerate_initramfs :: "treefile \<Rightarrow> bool" where
  "rpmostree_origin_get_regenerate_initramfs o1 = regenerate (get_initramfs o1)"

definition rpmostree_origin_get_initramfs_args :: "treefile \<Rightarrow> string list" where
  "rpmostree_origin_get_initramfs_args o1 = unwrap (args (get_initramfs o1)) @ unwrap (initramfs_args o1)"

definition rpmostree_origin_set_regenerate_initramfs :: "treefile \<Rightarrow> bool \<Rightarrow> string list \<Rightarrow> treefile" where
  "rpmostree_origin_set_regenerate_initramfs o1 regen new_args =
     (if \<not> regen
      then o1\<lparr>initramfs := map_option (\<lambda>i. i\<lparr>regenerate := False, args := None\<rparr>) (initramfs o1)\<rparr>
      else o1\<lparr>initramfs := Some ((get_initramfs o1)\<lparr>regenerate := True, args := Some new_args\<rparr>)\<rparr>)"

subsection \<open>Whether anything has to be assembled\<close>

definition rpmostree_origin_has_any_packages :: "treefile \<Rightarrow> bool" where
  "rpmostree_origin_has_any_packages o1 \<longleftrightarrow>
     rpmostree_origin_has_packages o1 \<or> unwrap (packages_local o1) \<noteq> [] \<or> unwrap (packages_local_fileoverride o1) \<noteq> [] \<or>
     list_ex (\<lambda>(_, pkgs). pkgs \<noteq> []) (unwrap (override_replace o1)) \<or>
     unwrap (override_replace_local o1) \<noteq> [] \<or> unwrap (override_remove o1) \<noteq> []"

definition rpmostree_origin_may_require_local_assembly :: "treefile \<Rightarrow> bool" where
  "rpmostree_origin_may_require_local_assembly o1 \<longleftrightarrow>
     rpmostree_origin_get_cliwrap o1 \<or> rpmostree_origin_get_regenerate_initramfs o1 \<or>
     rpmostree_origin_has_initramfs_etc_files o1 \<or> rpmostree_origin_has_any_packages o1"

section \<open>Well-formed origins\<close>

text \<open>
  The collections are ordered; no string is requested in two ways, so that removing it is unambiguous; and
  no package is both removed and replaced.
\<close>

definition keys :: "(string \<times> string) list option \<Rightarrow> string list" where
  "keys m = map fst (unwrap m)"

lemma set_keys: "set (keys m) = fst ` set (unwrap m)"
  by (simp add: keys_def)

definition origin_ok :: "treefile \<Rightarrow> bool" where
  "origin_ok o1 \<longleftrightarrow>
     ascending (unwrap (packages o1)) \<and> ascending (keys (packages_local o1)) \<and> ascending (keys (packages_local_fileoverride o1)) \<and>
     ascending (unwrap (override_remove o1)) \<and> ascending (keys (override_replace_local o1)) \<and>
     set (unwrap (packages o1)) \<inter> set (keys (packages_local o1)) = {} \<and>
     set (unwrap (packages o1)) \<inter> set (keys (packages_local_fileoverride o1)) = {} \<and>
     set (keys (packages_local o1)) \<inter> set (keys (packages_local_fileoverride o1)) = {} \<and>
     set (unwrap (override_remove o1)) \<inter> set (keys (override_replace_local o1)) = {}"

lemma has_package_sets:
  "has_package o1 p \<longleftrightarrow> p \<in> set (unwrap (packages o1))"
  "has_local_package o1 p \<longleftrightarrow> p \<in> set (keys (packages_local o1))"
  "has_local_fileoverride_package o1 p \<longleftrightarrow> p \<in> set (keys (packages_local_fileoverride o1))"
  by (simp_all add: has_package_def has_local_package_def has_local_fileoverride_package_def set_keys)

lemma filter_requests_fresh:
  "filter_package_requests env o1 ps False ae = Inr qs \<Longrightarrow> q \<in> set qs \<Longrightarrow>
   q \<in> set ps \<and> \<not> has_package o1 q \<and> \<not> has_local_package o1 q \<and> \<not> has_local_fileoverride_package o1 q"
  by (induction ps arbitrary: qs) (auto simp: bindR_Inr_iff split: if_splits)

lemma filter_requests_fresh_sha256:
  "filter_package_requests env o1 ps True ae = Inr qs \<Longrightarrow> q \<in> set qs \<Longrightarrow>
   \<exists>nevra sha256. decompose_sha256_nevra env q = Inr (nevra, sha256) \<and>
     \<not> has_package o1 nevra \<and> \<not> has_local_package o1 nevra \<and> \<not> has_local_fileoverride_package o1 nevra"
  by (induction ps arbitrary: qs) (auto simp: bindR_Inr_iff split: if_splits)

lemma add_sha256_keys:
  "add_sha256_nevra_to_map env m ps c = Inr (m', c') \<Longrightarrow> ascending (map fst m) \<Longrightarrow>
   ascending (map fst m') \<and>
   set (map fst m') = set (map fst m) \<union> {nevra. \<exists>q \<in> set ps. \<exists>sha256. decompose_sha256_nevra env q = Inr (nevra, sha256)}"
proof (induction env m ps c rule: add_sha256_nevra_to_map.induct)
  case (2 env m p ps c)
  then obtain nevra sha256 where d: "decompose_sha256_nevra env p = Inr (nevra, sha256)"
    and r: "add_sha256_nevra_to_map env (bmap_insert nevra sha256 m) ps (map_of m nevra = None \<or> c) = Inr (m', c')"
    by (auto simp: bindR_Inr_iff)
  have "ascending (map fst (bmap_insert nevra sha256 m))" using "2.prems"(2) by (simp add: keys_insert_list ascending_insert)
  from "2.IH" [OF d refl r this] d show ?case by (auto simp: keys_insert_list simp del: keys_bmap_insert)
qed auto

inductive origin_step :: "origin_env \<Rightarrow> treefile \<Rightarrow> treefile \<Rightarrow> bool" for env where
  "rpmostree_origin_add_packages env a ps ae c = Inr (b, c') \<Longrightarrow> origin_step env a b"
| "rpmostree_origin_add_local_packages env a ps ae c = Inr (b, c') \<Longrightarrow> origin_step env a b"
| "rpmostree_origin_add_local_fileoverride_packages env a ps ae c = Inr (b, c') \<Longrightarrow> origin_step env a b"
| "rpmostree_origin_remove_packages env a ps an c = Inr (b, c') \<Longrightarrow> origin_step env a b"
| "origin_step env a (fst (rpmostree_origin_remove_all_packages a))"
| "rpmostree_origin_add_override_remove a ps = Inr b \<Longrightarrow> origin_step env a b"
| "rpmostree_origin_add_override_replace_local env a ps = Inr b \<Longrightarrow> origin_step env a b"
| "origin_step env a (fst (rpmostree_origin_remove_override_remove a p))"
| "origin_step env a (fst (rpmostree_origin_remove_override_replace_local a p))"
| "origin_step env a (fst (rpmostree_origin_remove_override_replace a p))"
| "origin_step env a (fst (rpmostree_origin_remove_all_overrides a))"
| "origin_step env a (rpmostree_origin_set_rebase_custom env a refspec url description)"
| "origin_step env a (rpmostree_origin_set_override_commit a commit)"
| "origin_step env a (rpmostree_origin_set_cliwrap a b)"
| "origin_step env a (fst (rpmostree_origin_initramfs_etc_files_track a paths))"
| "origin_step env a (fst (rpmostree_origin_initramfs_etc_files_untrack a paths))"
| "origin_step env a (fst (rpmostree_origin_initramfs_etc_files_untrack_all a))"
| "origin_step env a (rpmostree_origin_set_regenerate_initramfs a regen new_args)"

lemma add_packages_ok:
  "origin_ok a \<Longrightarrow> add_packages env a ps ae = Inr (b, c) \<Longrightarrow> origin_ok b"
proof -
  assume ok: "origin_ok a" and "add_packages env a ps ae = Inr (b, c)"
  then obtain qs where qs: "filter_package_requests env a ps False ae = Inr qs"
    and b: "b = a\<lparr>packages := Some (bset_extend (unwrap (packages a)) qs)\<rparr>"
    by (auto simp: add_packages_def bindR_Inr_iff Let_def)
  have "q \<notin> set (keys (packages_local a)) \<and> q \<notin> set (keys (packages_local_fileoverride a))" if "q \<in> set qs" for q
    using filter_requests_fresh [OF qs that] by (simp add: has_package_sets)
  with ok show ?thesis unfolding origin_ok_def b by (auto simp: ascending_extend)
qed

lemma local_map_ok:
  assumes "filter_package_requests env a ps True ae = Inr qs" "add_sha256_nevra_to_map env (unwrap m) qs c = Inr (m', c')"
    "ascending (keys m)"
  shows "ascending (keys (Some m'))"
    and "x \<in> set (keys (Some m')) \<Longrightarrow> x \<in> set (keys m) \<or>
      x \<notin> set (unwrap (packages a)) \<and> x \<notin> set (keys (packages_local a)) \<and> x \<notin> set (keys (packages_local_fileoverride a))"
proof -
  note k = add_sha256_keys [OF assms(2)] 
  show "ascending (keys (Some m'))" using k assms(3) by (simp add: keys_def)
  assume "x \<in> set (keys (Some m'))"
  then consider "x \<in> set (keys m)" | q sha256 where "q \<in> set qs" "decompose_sha256_nevra env q = Inr (x, sha256)"
    using k assms(3) by (auto simp: keys_def)
  then show "x \<in> set (keys m) \<or>
      x \<notin> set (unwrap (packages a)) \<and> x \<notin> set (keys (packages_local a)) \<and> x \<notin> set (keys (packages_local_fileoverride a))"
  proof cases
    case 2
    then show ?thesis using filter_requests_fresh_sha256 [OF assms(1) 2(1)] by (auto simp: has_package_sets)
  qed blast
qed

lemma add_local_packages_ok:
  "origin_ok a \<Longrightarrow> add_local_packages env a ps ae = Inr (b, c) \<Longrightarrow> origin_ok b"
  "origin_ok a \<Longrightarrow> add_local_fileoverride_packages env a ps ae = Inr (b, c) \<Longrightarrow> origin_ok b"
proof -
  assume ok: "origin_ok a"
  {
    assume "add_local_packages env a ps ae = Inr (b, c)"
    then obtain qs m where qs: "filter_package_requests env a ps True ae = Inr qs"
      and m: "add_sha256_nevra_to_map env (unwrap (packages_local a)) qs False = Inr (m, c)"
      and b: "b = a\<lparr>packages_local := Some m\<rparr>"
      by (auto simp: add_local_packages_def bindR_Inr_iff)
    have "ascending (keys (packages_local a))" using ok by (simp add: origin_ok_def)
    note k = local_map_ok [OF qs m this]
    show "origin_ok b" using ok k(1) k(2) unfolding origin_ok_def b by auto
  }
  {
    assume "add_local_fileoverride_packages env a ps ae = Inr (b, c)"
    then obtain qs m where qs: "filter_package_requests env a ps True ae = Inr qs"
      and m: "add_sha256_nevra_to_map env (unwrap (packages_local_fileoverride a)) qs False = Inr (m, c)"
      and b: "b = a\<lparr>packages_local_fileoverride := Some m\<rparr>"
      by (auto simp: add_local_fileoverride_packages_def bindR_Inr_iff)
    have "ascending (keys (packages_local_fileoverride a))" using ok by (simp add: origin_ok_def)
    note k = local_map_ok [OF qs m this]
    show "origin_ok b" using ok k(1) k(2) unfolding origin_ok_def b by auto
  }
qed

lemma unwrap_removeAll [simp]: "unwrap (map_option (removeAll p) x) = removeAll p (unwrap x)"
  by (cases x) simp_all

lemma keys_bmap_removed [simp]: "keys (map_option (bmap_remove p) m) = removeAll p (keys m)"
  by (cases m) (simp_all add: keys_def keys_remove_list)

lemma origin_ok_shrink:
  assumes "origin_ok a"
    and "ascending (unwrap (packages b))" "set (unwrap (packages b)) \<subseteq> set (unwrap (packages a))"
    and "ascending (keys (packages_local b))" "set (keys (packages_local b)) \<subseteq> set (keys (packages_local a))"
    and "ascending (keys (packages_local_fileoverride b))" "set (keys (packages_local_fileoverride b)) \<subseteq> set (keys (packages_local_fileoverride a))"
    and "ascending (unwrap (override_remove b))" "set (unwrap (override_remove b)) \<subseteq> set (unwrap (override_remove a))"
    and "ascending (keys (override_replace_local b))" "set (keys (override_replace_local b)) \<subseteq> set (keys (override_replace_local a))"
  shows "origin_ok b"
  using assms unfolding origin_ok_def by blast

lemma origin_ok_parts:
  assumes "origin_ok a"
  shows "ascending (unwrap (packages a))" "ascending (keys (packages_local a))" "ascending (keys (packages_local_fileoverride a))"
    "ascending (unwrap (override_remove a))" "ascending (keys (override_replace_local a))"
  using assms by (simp_all add: origin_ok_def)

lemma ascending_Nil [simp]: "ascending []"
  by (simp add: ascending_def)

lemma keys_None [simp]: "keys None = []"
  by (simp add: keys_def)

lemma origin_ok_removals:
  assumes "origin_ok a"
  shows "origin_ok (a\<lparr>packages := map_option (removeAll p) (packages a)\<rparr>)"
    "origin_ok (a\<lparr>packages_local := map_option (bmap_remove p) (packages_local a)\<rparr>)"
    "origin_ok (a\<lparr>packages_local_fileoverride := map_option (bmap_remove p) (packages_local_fileoverride a)\<rparr>)"
    "origin_ok (a\<lparr>override_remove := map_option (removeAll p) (override_remove a)\<rparr>)"
    "origin_ok (a\<lparr>override_replace_local := map_option (bmap_remove p) (override_replace_local a)\<rparr>)"
    "origin_ok (a\<lparr>packages := None, packages_local := None, packages_local_fileoverride := None\<rparr>)"
    "origin_ok (a\<lparr>override_remove := None, override_replace := None, override_replace_local := None\<rparr>)"
  by (rule origin_ok_shrink [OF assms]; use origin_ok_parts [OF assms] in \<open>auto simp: ascending_remove\<close>)+

lemma remove_packages_loop_ok:
  "remove_packages_loop env an ps lazy a c = Inr (b, c') \<Longrightarrow> origin_ok a \<Longrightarrow> origin_ok b"
proof (induction ps arbitrary: an lazy a c)
  case (Cons p ps)
  note IH = Cons.IH [OF _ origin_ok_removals(1) [OF Cons.prems(2)]] Cons.IH [OF _ origin_ok_removals(2) [OF Cons.prems(2)]]
    Cons.IH [OF _ origin_ok_removals(3) [OF Cons.prems(2)]] Cons.IH [OF _ Cons.prems(2)]
  from Cons.prems(1) show ?case
    by (auto simp: bindR_Inr_iff Let_def dest: IH split: if_splits option.splits)
qed simp

lemma add_override_remove_ok:
  "rpmostree_origin_add_override_remove a ps = Inr b \<Longrightarrow> origin_ok a \<Longrightarrow> origin_ok b"
proof (induction a ps rule: rpmostree_origin_add_override_remove.induct)
  case (2 a p ps)
  let ?a = "a\<lparr>override_remove := Some (bset_insert p (unwrap (override_remove a)))\<rparr>"
  from 2 have no: "\<not> has_override a p" and r: "rpmostree_origin_add_override_remove ?a ps = Inr b"
    by (auto simp: Let_def split: if_splits)
  from no "2.prems"(2) have "origin_ok ?a"
    unfolding origin_ok_def has_override_def by (auto simp: ascending_insert set_keys)
  with "2.IH" [OF no refl _ r] r no show ?case
    by (simp add: has_override_def rpmostree_origin_has_overrides_remove_name_def)
qed simp

lemma add_override_replace_local_ok:
  "rpmostree_origin_add_override_replace_local env a ps = Inr b \<Longrightarrow> origin_ok a \<Longrightarrow> origin_ok b"
proof (induction env a ps rule: rpmostree_origin_add_override_replace_local.induct)
  case (2 env a p ps)
  then obtain nevra sha256 where d: "decompose_sha256_nevra env p = Inr (nevra, sha256)" and no: "\<not> has_override a nevra"
    and n: "\<not> map_of (unwrap (override_replace_local a)) nevra \<noteq> None"
    and r: "rpmostree_origin_add_override_replace_local env
        (a\<lparr>override_replace_local := Some (bmap_insert nevra sha256 (unwrap (override_replace_local a)))\<rparr>) ps = Inr b"
    by (auto simp: bindR_Inr_iff Let_def split: if_splits)
  let ?a = "a\<lparr>override_replace_local := Some (bmap_insert nevra sha256 (unwrap (override_replace_local a)))\<rparr>"
  have "keys (override_replace_local ?a) = bset_insert nevra (keys (override_replace_local a))"
    by (simp add: keys_def keys_insert_list)
  with no "2.prems"(2) have "origin_ok ?a"
    unfolding origin_ok_def has_override_def rpmostree_origin_has_overrides_remove_name_def by (auto simp: ascending_insert)
  with "2.IH" [OF d refl no refl n r] show ?case by simp
qed simp

lemma origin_ok_frame:
  assumes "origin_ok a" "packages b = packages a" "packages_local b = packages_local a"
    "packages_local_fileoverride b = packages_local_fileoverride a" "override_remove b = override_remove a"
    "override_replace_local b = override_replace_local a"
  shows "origin_ok b"
  using assms unfolding origin_ok_def by presburger

lemmas origin_setters = rpmostree_origin_set_rebase_custom_def rpmostree_origin_set_override_commit_def
  rpmostree_origin_set_cliwrap_def rpmostree_origin_initramfs_etc_files_track_def
  rpmostree_origin_initramfs_etc_files_untrack_def rpmostree_origin_initramfs_etc_files_untrack_all_def
  rpmostree_origin_set_regenerate_initramfs_def rpmostree_origin_remove_override_replace_def

lemmas origin_removers = rpmostree_origin_remove_all_packages_def rpmostree_origin_remove_override_remove_def
  rpmostree_origin_remove_override_replace_local_def rpmostree_origin_remove_all_overrides_def

lemmas origin_adders = rpmostree_origin_add_packages_def rpmostree_origin_add_local_packages_def
  rpmostree_origin_add_local_fileoverride_packages_def rpmostree_origin_remove_packages_def remove_packages_def

lemma one_step_ok: "origin_step env a b \<Longrightarrow> origin_ok a \<Longrightarrow> origin_ok b"
proof (induction rule: origin_step.induct)
  case (4 a ps an c b c')
  then show ?case by (auto simp: origin_adders set_changed_def bindR_Inr_iff dest: remove_packages_loop_ok)
qed (auto simp: origin_adders origin_removers set_changed_def bindR_Inr_iff origin_ok_removals
    intro: add_packages_ok add_local_packages_ok add_override_remove_ok add_override_replace_local_ok,
    (erule origin_ok_frame; simp add: origin_setters Let_def split: prod.splits option.splits RefspecType.splits)+)


lemma ascending_unique:
  "ascending xs \<Longrightarrow> ascending ys \<Longrightarrow> set xs = set ys \<Longrightarrow> xs = ys"
  unfolding ascending_def
proof (induction xs arbitrary: ys)
  case (Cons x xs)
  then obtain y ys' where ys: "ys = y # ys'" by (cases ys) auto
  have irrefl: "\<not> strcmp a a < 0" for a by (metis strcmp_zero_iff less_irrefl)
  have "x = y"
    using Cons.prems ys irrefl strcmp_less_trans by (metis list.set_intros(1) set_ConsD sorted_wrt.simps(2))
  moreover from this have "set xs = set ys'"
  proof -
    from Cons.prems ys \<open>x = y\<close> irrefl have "y \<notin> set xs" "y \<notin> set ys'" by auto
    with Cons.prems(3) ys \<open>x = y\<close> show ?thesis by auto
  qed
  ultimately show ?case using Cons ys by simp
qed simp

lemma remove_packages_loop_packages:
  "distinct ps \<Longrightarrow> set ps \<subseteq> set s \<Longrightarrow> packages a = Some s \<Longrightarrow>
   remove_packages_loop env an ps lazy a c = Inr (a\<lparr>packages := Some (filter (\<lambda>q. q \<notin> set ps) s)\<rparr>, c \<or> ps \<noteq> [])"
proof (induction ps arbitrary: a s c)
  case (Cons p ps)
  have "filter (\<lambda>q. q \<notin> set ps) (removeAll p s) = filter (\<lambda>q. q \<notin> set (p # ps)) s"
    by (induction s) auto
  with Cons.IH [of "removeAll p s" "a\<lparr>packages := Some (removeAll p s)\<rparr>" True] Cons.prems show ?case
    by (auto simp: has_package_sets)
qed simp

text \<open>
  Requesting packages that were not requested before and then removing them succeeds, whatever the flags, and
  gives back the origin one started from, its set of requested packages included.
\<close>

theorem add_remove_packages_roundtrip:
  assumes "origin_ok a" "distinct ps" "add_packages env a ps False = Inr (b, c)"
  shows "\<exists>b'. remove_packages env b ps an = Inr (b', ps \<noteq> []) \<and>
    unwrap (packages b') = unwrap (packages a) \<and> b'\<lparr>packages := packages a\<rparr> = a"
proof -
  from assms(3) obtain qs where f: "filter_package_requests env a ps False False = Inr qs"
    and b: "b = a\<lparr>packages := Some (bset_extend (unwrap (packages a)) qs)\<rparr>"
    by (auto simp: add_packages_def bindR_Inr_iff Let_def)
  have "qs = ps"
    using f by (induction ps arbitrary: qs) (auto simp: bindR_Inr_iff split: if_splits)
  then have new: "set (unwrap (packages a)) \<inter> set ps = {}"
    using filter_requests_fresh [OF f] by (auto simp: has_package_sets)
  let ?s = "filter (\<lambda>q. q \<notin> set ps) (bset_extend (unwrap (packages a)) ps)"
  have asc: "ascending (unwrap (packages a))" using assms(1) by (rule origin_ok_parts)
  have "?s = unwrap (packages a)"
  proof (rule ascending_unique [OF _ asc])
    show "ascending ?s" using ascending_extend [OF asc] by (simp add: ascending_def sorted_wrt_filter)
    show "set ?s = set (unwrap (packages a))" using new by auto
  qed
  with b \<open>qs = ps\<close> remove_packages_loop_packages [OF assms(2), of "bset_extend (unwrap (packages a)) ps" b env an None False]
  show ?thesis by (simp add: remove_packages_def)
qed

text \<open>
  Naming a local package twice in one removal stops the process: the names are looked up in a map built before the
  first removal, which still leads to the entry just removed.
\<close>

theorem remove_local_name_twice_panics:
  assumes "packages_local a = Some [(nevra, sha256)]" "unwrap (packages_local_fileoverride a) = []"
    and "split_nevra env nevra = Some (name, evra)" "name \<noteq> nevra" "name \<notin> set (unwrap (packages a))"
  shows "remove_packages env a [name, name] an = Inl (Abort ''assert!(changed)'')"
  using assms
  by (simp add: remove_packages_def has_package_sets keys_def bmap_remove_def)

section \<open>Witnesses\<close>

definition demo_origin :: treefile where
  "demo_origin = \<lparr>packages = Some [''vim''], base_refspec = Some ''fedora:stable'', container_image_reference = None,
     packages_local = Some [(''foo-1-1.noarch'', ''abcd'')], packages_local_fileoverride = None, override_remove = None,
     override_replace = None, override_replace_local = None, initramfs = None, custom = None, override_commit = None,
     unconfigured_state = None, cliwrap = None, initramfs_args = None\<rparr>"

definition demo_origin_env :: origin_env where
  "demo_origin_env = \<lparr>validate_checksum_string = (\<lambda>s. if length s = 4 then None else Some (External ''checksum'')),
     is_image_reference = (\<lambda>s. has_prefix ''ostree-'' s),
     split_nevra = (\<lambda>s. if s = ''foo-1-1.noarch'' then Some (''foo'', 0, ''1'', ''1'', ''noarch'') else None)\<rparr>"


theorem add_remove_packages_roundtrip_witness:
  "\<exists>b'. remove_packages demo_origin_env (demo_origin\<lparr>packages := Some [''emacs'', ''vim'']\<rparr>) [''emacs''] False = Inr (b', True) \<and>
    unwrap (packages b') = [''vim''] \<and> b'\<lparr>packages := Some [''vim'']\<rparr> = demo_origin"
proof -
  have "origin_ok demo_origin" "add_packages demo_origin_env demo_origin [''emacs''] False =
    Inr (demo_origin\<lparr>packages := Some [''emacs'', ''vim'']\<rparr>, True)" by code_simp+
  from add_remove_packages_roundtrip [OF this(1) _ this(2), of False] show ?thesis
    by (simp add: demo_origin_def)
qed

theorem remove_local_name_twice_panics_witness:
  "remove_packages demo_origin_env demo_origin [''foo'', ''foo''] False = Inl (Abort ''assert!(changed)'')"
  by (rule remove_local_name_twice_panics [of _ "''foo-1-1.noarch''" "''abcd''" _ _ "(0, ''1'', ''1'', ''noarch'')"])
    (simp_all add: demo_origin_def demo_origin_env_def)

end
