(* ===== verification/Requests.thy ===== *)
theory Requests
  imports RO_Prelude
begin

text \<open>
  What a client can ask the daemon for: D-Bus option dictionaries with the lookups of
  \<^verbatim>\<open>src/src/daemon/rpmostreed-os.cxx\<close> and \<^verbatim>\<open>src/src/daemon/rpmostreed-transaction-types.cxx\<close>, the flag words, and the
  arguments that each kind of transaction is created with.
\<close>

section \<open>Option dictionaries\<close>

text \<open>
  A value of an \<open>a{sv}\<close> dictionary, by its type string. A lookup succeeds only if the key is there
  with the asked type.
\<close>

datatype gvariant = GV_s string | GV_b bool | GV_as "string list" | GV_ah "int list" | GV_h int
  | GV_ss string string | GV_other string

type_synonym vardict = "string \<rightharpoonup> gvariant"

definition lookup_b :: "vardict \<Rightarrow> string \<Rightarrow> bool option" where
  "lookup_b dict key = (case dict key of Some (GV_b b) \<Rightarrow> Some b | _ \<Rightarrow> None)"

definition lookup_s :: "vardict \<Rightarrow> string \<Rightarrow> string option" where
  "lookup_s dict key = (case dict key of Some (GV_s s) \<Rightarrow> Some s | _ \<Rightarrow> None)"

definition lookup_ah :: "vardict \<Rightarrow> string \<Rightarrow> int list option" where
  "lookup_ah dict key = (case dict key of Some (GV_ah hs) \<Rightarrow> Some hs | _ \<Rightarrow> None)"

definition lookup_h :: "vardict \<Rightarrow> string \<Rightarrow> int option" where
  "lookup_h dict key = (case dict key of Some (GV_h h) \<Rightarrow> Some h | _ \<Rightarrow> None)"

definition lookup_ss :: "vardict \<Rightarrow> string \<Rightarrow> (string \<times> string) option" where
  "lookup_ss dict key = (case dict key of Some (GV_ss a b) \<Rightarrow> Some (a, b) | _ \<Rightarrow> None)"

definition vardict_lookup_strv :: "vardict \<Rightarrow> string \<Rightarrow> string list option" where
  "vardict_lookup_strv dict key = (case dict key of Some (GV_as v) \<Rightarrow> Some v | _ \<Rightarrow> None)"

definition vardict_lookup_bool :: "vardict \<Rightarrow> string \<Rightarrow> bool \<Rightarrow> bool" where
  "vardict_lookup_bool dict key dfault = (case lookup_b dict key of Some val \<Rightarrow> val | None \<Rightarrow> dfault)"

text \<open>The empty array becomes \<open>NULL\<close>.\<close>

definition vardict_lookup_strv_canonical :: "vardict \<Rightarrow> string \<Rightarrow> string list option" where
  "vardict_lookup_strv_canonical dict key =
     (case vardict_lookup_strv dict key of
        None \<Rightarrow> None
      | Some v \<Rightarrow> if v = [] then None else Some v)"

definition strdupv_canonicalize :: "string list option \<Rightarrow> string list option" where
  "strdupv_canonicalize strv = (case strv of Some (x # xs) \<Rightarrow> Some (x # xs) | _ \<Rightarrow> None)"

section \<open>Flag words\<close>

abbreviation (input) DEPLOY_FLAG_ALLOW_DOWNGRADE :: u32 where "DEPLOY_FLAG_ALLOW_DOWNGRADE \<equiv> 4"
abbreviation (input) DEPLOY_FLAG_NO_PULL_BASE :: u32 where "DEPLOY_FLAG_NO_PULL_BASE \<equiv> 16"
abbreviation (input) DEPLOY_FLAG_DRY_RUN :: u32 where "DEPLOY_FLAG_DRY_RUN \<equiv> 32"
abbreviation (input) DEPLOY_FLAG_DOWNLOAD_ONLY :: u32 where "DEPLOY_FLAG_DOWNLOAD_ONLY \<equiv> 256"
abbreviation (input) DEPLOY_FLAG_DOWNLOAD_METADATA_ONLY :: u32 where "DEPLOY_FLAG_DOWNLOAD_METADATA_ONLY \<equiv> 512"

abbreviation (input) CLEANUP_BASE :: u32 where "CLEANUP_BASE \<equiv> 1"
abbreviation (input) CLEANUP_PENDING_DEPLOY :: u32 where "CLEANUP_PENDING_DEPLOY \<equiv> 2"
abbreviation (input) CLEANUP_ROLLBACK_DEPLOY :: u32 where "CLEANUP_ROLLBACK_DEPLOY \<equiv> 4"
abbreviation (input) CLEANUP_REPOMD :: u32 where "CLEANUP_REPOMD \<equiv> 8"

abbreviation (input) REFRESH_MD_FLAG_FORCE :: u32 where "REFRESH_MD_FLAG_FORCE \<equiv> 1"

unbundle bit_operations_syntax

definition has_flag :: "u32 \<Rightarrow> u32 \<Rightarrow> bool" where
  "has_flag flags flag \<longleftrightarrow> flags AND flag \<noteq> 0"

definition set_deploy_flag :: "u32 \<Rightarrow> u32 \<Rightarrow> bool \<Rightarrow> u32" where
  "set_deploy_flag flags flag val =
     (let flags = flags AND NOT flag
      in if val then flags OR flag else flags)"

definition deploy_flags_from_options :: "vardict \<Rightarrow> u32 \<Rightarrow> u32" where
  "deploy_flags_from_options dict defaults =
     (let ret = defaults;
          ret = (case lookup_b dict ''allow-downgrade'' of Some val \<Rightarrow> set_deploy_flag ret DEPLOY_FLAG_ALLOW_DOWNGRADE val | None \<Rightarrow> ret);
          ret = (case lookup_b dict ''no-pull-base'' of Some val \<Rightarrow> set_deploy_flag ret DEPLOY_FLAG_NO_PULL_BASE val | None \<Rightarrow> ret);
          ret = (case lookup_b dict ''dry-run'' of Some val \<Rightarrow> set_deploy_flag ret DEPLOY_FLAG_DRY_RUN val | None \<Rightarrow> ret);
          ret = (case lookup_b dict ''download-only'' of Some val \<Rightarrow> set_deploy_flag ret DEPLOY_FLAG_DOWNLOAD_ONLY val | None \<Rightarrow> ret)
      in ret)"

section \<open>Kinds of transactions\<close>

text \<open>
  What the constructors \<open>rpmostreed_transaction_new_*\<close> store in the new object besides the base class. The
  file descriptors of a message are numbers; \<open>None\<close> stands for a message without a descriptor list.
\<close>

datatype txn_kind =
    PackageDiff "string option" "string option"
  | Rollback bool
  | Deploy u32 vardict vardict "int list option"
  | InitramfsEtc "string list option" "string list option" bool bool vardict
  | InitramfsState bool "string list option" vardict
  | Cleanup u32
  | RefreshMd u32
  | ModifyYumRepo string "(string \<times> string) list"
  | FinalizeDeployment vardict
  | KernelArg string "string list option" "string list option" "string list option" vardict
  | ApplyLive vardict

definition rpmostreed_transaction_new_deploy ::
  "u32 \<Rightarrow> vardict \<Rightarrow> vardict option \<Rightarrow> int list option \<Rightarrow> txn_kind" where
  "rpmostreed_transaction_new_deploy default_flags options modifiers fd_list =
     Deploy (deploy_flags_from_options options default_flags) options
       (case modifiers of Some m \<Rightarrow> m | None \<Rightarrow> Map.empty) fd_list"

definition rpmostreed_transaction_new_kernel_arg ::
  "string \<Rightarrow> string list option \<Rightarrow> string list option \<Rightarrow> string list option \<Rightarrow> vardict \<Rightarrow> txn_kind" where
  "rpmostreed_transaction_new_kernel_arg existing_kernel_args added replaced deleted options =
     KernelArg existing_kernel_args (strdupv_canonicalize added) (strdupv_canonicalize replaced)
       (strdupv_canonicalize deleted) options"

section \<open>Flags and options agree\<close>

lemma has_flag_bit: "k < 32 \<Longrightarrow> has_flag flags (2 ^ k) = bit flags k"
  unfolding has_flag_def bit_eq_iff [of "flags AND 2 ^ k" 0] by (auto simp: bit_simps)

lemma bit_set_deploy_flag:
  "k < 32 \<Longrightarrow> j < 32 \<Longrightarrow> bit (set_deploy_flag flags (2 ^ k) val) j = (if j = k then val else bit flags j)"
  by (auto simp: set_deploy_flag_def Let_def bit_simps)

lemmas has_flag_bits = has_flag_bit [of 0, simplified] has_flag_bit [of 1, simplified] has_flag_bit [of 2, simplified]
  has_flag_bit [of 3, simplified] has_flag_bit [of 4, simplified] has_flag_bit [of 5, simplified]
  has_flag_bit [of 8, simplified] has_flag_bit [of 9, simplified]

lemmas set_flag_bits = bit_set_deploy_flag [of 2, simplified] bit_set_deploy_flag [of 4, simplified]
  bit_set_deploy_flag [of 5, simplified] bit_set_deploy_flag [of 8, simplified]

text \<open>
  The flag word of a deploy transaction: an option given by the client decides its flag, a missing
  option leaves the default, and the flag for checking metadata only is never touched by an option.
\<close>

theorem deploy_flags_from_options_bits:
  "has_flag (deploy_flags_from_options dict defaults) DEPLOY_FLAG_ALLOW_DOWNGRADE =
     vardict_lookup_bool dict ''allow-downgrade'' (has_flag defaults DEPLOY_FLAG_ALLOW_DOWNGRADE) \<and>
   has_flag (deploy_flags_from_options dict defaults) DEPLOY_FLAG_NO_PULL_BASE =
     vardict_lookup_bool dict ''no-pull-base'' (has_flag defaults DEPLOY_FLAG_NO_PULL_BASE) \<and>
   has_flag (deploy_flags_from_options dict defaults) DEPLOY_FLAG_DRY_RUN =
     vardict_lookup_bool dict ''dry-run'' (has_flag defaults DEPLOY_FLAG_DRY_RUN) \<and>
   has_flag (deploy_flags_from_options dict defaults) DEPLOY_FLAG_DOWNLOAD_ONLY =
     vardict_lookup_bool dict ''download-only'' (has_flag defaults DEPLOY_FLAG_DOWNLOAD_ONLY) \<and>
   has_flag (deploy_flags_from_options dict defaults) DEPLOY_FLAG_DOWNLOAD_METADATA_ONLY =
     has_flag defaults DEPLOY_FLAG_DOWNLOAD_METADATA_ONLY"
  by (auto simp: deploy_flags_from_options_def Let_def vardict_lookup_bool_def has_flag_bits set_flag_bits split: option.splits)

end
