(* ===== verification/Status_Variants.thy ===== *)
theory Status_Variants
  imports Deployments Origin Requests
begin

text \<open>
  What the daemon tells about deployments and updates on D-Bus: the dictionaries of
  \<^verbatim>\<open>src/src/daemon/rpmostreed-deployment-utils.cxx\<close> with the helpers of \<^verbatim>\<open>src/rust/src/daemon.rs\<close> and
  \<^verbatim>\<open>src/rust/src/deployment_utils.rs\<close>, and the security advisories of \<^verbatim>\<open>src/src/libpriv/rpmostree-rpm-util.cxx\<close>.
\<close>

section \<open>Deployment ids and object paths\<close>

definition deployment_generate_id :: "OstreeDeployment \<Rightarrow> string" where
  "deployment_generate_id d = d_osname d @ ''-'' @ d_csum d @ ''.'' @ show_nat (d_deployserial d)"

definition deployment_for_id :: "OstreeSysroot \<Rightarrow> string \<Rightarrow> OstreeDeployment result" where
  "deployment_for_id sr deploy_id =
     (if deploy_id = [] then Inl (Throw ''empty deployment ID'' [])
      else case find (\<lambda>d. deploy_id = deployment_generate_id d) (sr_deployments sr) of
             Some d \<Rightarrow> Inr d
           | None \<Rightarrow> Inl (Throw ''Deployment with id '{}' not found'' [deploy_id]))"

definition deployment_checksum_for_id :: "OstreeSysroot \<Rightarrow> string \<Rightarrow> string result" where
  "deployment_checksum_for_id sr deploy_id = bindR (deployment_for_id sr deploy_id) (\<lambda>d. Inr (d_csum d))"

text \<open>\<open>merge_deployment\<close> is libostree's; the empty string stands for a missing argument.\<close>

definition deployment_get_base ::
  "(OstreeSysroot \<Rightarrow> string option \<Rightarrow> OstreeDeployment option) \<Rightarrow> OstreeSysroot \<Rightarrow> string \<Rightarrow> string \<Rightarrow> OstreeDeployment result" where
  "deployment_get_base merge_deployment sr opt_deploy_id opt_os_name =
     (if opt_deploy_id \<noteq> [] then deployment_for_id sr opt_deploy_id
      else case merge_deployment sr (if opt_os_name = [] then None else Some opt_os_name) of
             Some d \<Rightarrow> Inr d
           | None \<Rightarrow> Inl (Throw (''No deployments found for os '{}'' @ [CHR 0x27]) [opt_os_name]))"

definition object_path_char :: "char \<Rightarrow> string" where
  "object_path_char c =
     (if ascii_isalnum c \<or> c = CHR ''_'' then [c]
      else if c = CHR ''/'' \<or> c = CHR ''-'' then ''_''
      else CHR ''_'' # hex2 (code c))"

definition append_to_object_path :: "string \<Rightarrow> string \<Rightarrow> string" where
  "append_to_object_path base segment = base @ concat (map object_path_char segment)"

definition generate_object_path :: "(string \<Rightarrow> bool) \<Rightarrow> string \<Rightarrow> string \<Rightarrow> string result" where
  "generate_object_path is_object_path base segment =
     (if \<not> is_object_path base then Inl (Throw ''Value is not an object path: {base}'' [base])
      else if segment = [] then Inl (Throw ''Cannot append empty segment: {base}'' [base])
      else Inr (append_to_object_path (base @ ''/'') segment))"

section \<open>Advisories\<close>

text \<open>
  libdnf's advisories, and the matches of the regular expression for CVE numbers in a title. The table of advisories is a
  hash table over their ids; its order is not specified, here it is that of insertion.
\<close>

datatype DnfAdvisoryKind = ADVISORY_KIND_UNKNOWN | ADVISORY_KIND_SECURITY | ADVISORY_KIND_BUGFIX
  | ADVISORY_KIND_ENHANCEMENT | ADVISORY_KIND_NEWPACKAGE

datatype RpmOstreeAdvisorySeverity = SEVERITY_NONE | SEVERITY_LOW | SEVERITY_MODERATE | SEVERITY_IMPORTANT | SEVERITY_CRITICAL

record DnfAdvisoryRef =
  ar_bugzilla :: bool
  ar_url :: "string option"
  ar_title :: "string option"

record DnfAdvisory =
  adv_id :: string
  adv_kind :: DnfAdvisoryKind
  adv_severity :: "string option"
  adv_references :: "DnfAdvisoryRef list"

record advisory_env =
  dnf_package_get_advisories :: "DnfPackage \<Rightarrow> DnfAdvisory list"
  dnf_package_get_nevra :: "DnfPackage \<Rightarrow> string"
  cve_matches :: "string \<Rightarrow> string list"

definition ascii_toupper :: "char \<Rightarrow> char" where
  "ascii_toupper c = (if CHR ''a'' \<le> c \<and> c \<le> CHR ''z'' then char_of (code c - 32) else c)"

definition str2severity :: "string option \<Rightarrow> RpmOstreeAdvisorySeverity" where
  "str2severity str =
     (case str of
        None \<Rightarrow> SEVERITY_NONE
      | Some str \<Rightarrow>
          let str_up = map ascii_toupper str
          in if str_up = ''LOW'' then SEVERITY_LOW
             else if str_up = ''MODERATE'' then SEVERITY_MODERATE
             else if str_up = ''IMPORTANT'' then SEVERITY_IMPORTANT
             else if str_up = ''CRITICAL'' then SEVERITY_CRITICAL
             else SEVERITY_NONE)"

text \<open>\<open>g_strcmp0\<close>: \<open>NULL\<close> comes first.\<close>

definition compare_advisory_refs :: "DnfAdvisoryRef \<Rightarrow> DnfAdvisoryRef \<Rightarrow> int" where
  "compare_advisory_refs a b =
     (case (ar_url a, ar_url b) of
        (None, None) \<Rightarrow> 0 | (None, Some _) \<Rightarrow> -1 | (Some _, None) \<Rightarrow> 1 | (Some u, Some v) \<Rightarrow> strcmp u v)"

fun cve_references_loop :: "advisory_env \<Rightarrow> DnfAdvisoryRef list \<Rightarrow> string set \<Rightarrow> (string \<times> string) list" where
  "cve_references_loop env [] created_cves = []"
| "cve_references_loop env (ref # refs) created_cves =
     (if \<not> ar_bugzilla ref then cve_references_loop env refs created_cves
      else case (ar_url ref, ar_title ref) of
             (Some url, Some title) \<Rightarrow>
               let found_cves = cve_matches env title
               in if \<exists>cve \<in> set found_cves. cve \<notin> created_cves
                  then (url, title) # cve_references_loop env refs (created_cves \<union> set found_cves)
                  else cve_references_loop env refs created_cves
           | _ \<Rightarrow> cve_references_loop env refs created_cves)"

record advisory_variant =
  av_id :: string
  av_kind :: DnfAdvisoryKind
  av_severity :: RpmOstreeAdvisorySeverity
  av_pkgs :: "string list"
  av_cve_references :: "(string \<times> string) list"

definition advisory_variant_new :: "advisory_env \<Rightarrow> DnfAdvisory \<Rightarrow> DnfPackage list \<Rightarrow> advisory_variant" where
  "advisory_variant_new env adv pkgs =
     \<lparr>av_id = adv_id adv, av_kind = adv_kind adv, av_severity = str2severity (adv_severity adv),
      av_pkgs = map (dnf_package_get_nevra env) pkgs,
      av_cve_references = cve_references_loop env (sort_by compare_advisory_refs (adv_references adv)) {}\<rparr>"

type_synonym advisory_table = "(DnfAdvisory \<times> DnfPackage list) list"

text \<open>One entry of the inner loop; the first object with an id stays the key.\<close>

fun add_pkg_to_advisory :: "DnfPackage \<Rightarrow> DnfAdvisory \<Rightarrow> advisory_table \<Rightarrow> advisory_table" where
  "add_pkg_to_advisory pkg adv [] = [(adv, [pkg])]"
| "add_pkg_to_advisory pkg adv ((adv', pkgs) # advisories) =
     (if adv_id adv' = adv_id adv then (adv', pkgs @ [pkg]) # advisories
      else (adv', pkgs) # add_pkg_to_advisory pkg adv advisories)"

definition add_pkg_advisories :: "advisory_env \<Rightarrow> advisory_table \<Rightarrow> DnfPackage \<Rightarrow> advisory_table" where
  "add_pkg_advisories env advisories pkg =
     foldl (\<lambda>t adv. if adv_kind adv \<noteq> ADVISORY_KIND_SECURITY then t else add_pkg_to_advisory pkg adv t)
       advisories (dnf_package_get_advisories env pkg)"

definition rpmostree_advisories_variant :: "advisory_env \<Rightarrow> DnfPackage list \<Rightarrow> advisory_variant list option" where
  "rpmostree_advisories_variant env pkgs =
     (let advisories = foldl (add_pkg_advisories env) [] pkgs
      in if length advisories = 0 then None
         else Some (map (\<lambda>(adv, pkgs). advisory_variant_new env adv pkgs) advisories))"

section \<open>Deployments\<close>

text \<open>
  Values of the dictionaries. The metadata of a commit is a \<open>vardict\<close>; the entries that are only passed through are opaque.
\<close>

record ExportedManifestDiff =
  md_total :: u64
  md_total_size :: u64
  md_n_removed :: u64
  md_removed_size :: u64
  md_n_added :: u64
  md_added_size :: u64

datatype 'v status_value =
    S_s string | S_b bool | S_serial nat | S_t u64 | S_as "string list" | S_ss string string
  | S_meta vardict | S_list "'v list" | S_remote "(string \<times> string list) list" | S_signatures 'v
  | S_manifest_diff ExportedManifestDiff | S_rpm_diff rpm_diff_variant | S_advisories "advisory_variant list"

type_synonym 'v status_dict = "string \<rightharpoonup> 'v status_value"

text \<open>
  What the functions read: the repository with its commits, the origin file of a deployment (\<open>None\<close> if there is none, else
  the outcome of parsing it), the live state, the file that locks a staged deployment, the remotes, cached signatures and
  the metadata of a container image. \<open>gpg_verify\<close> fails with whether the remote was not found, and a message.
\<close>

record ContainerImageState =
  ci_image_digest :: string
  ci_version :: string
  ci_cached_update_diff :: ExportedManifestDiff
  ci_cached_update_version :: string

record ('c, 'v) status_env =
  se_repo :: "'c repo_ops"
  se_evr :: evr_cmp
  resolve_rev_noent :: "string \<Rightarrow> string option result"
  resolve_rev_ext :: "string \<Rightarrow> string option result"
  commit_timestamp :: "'c \<Rightarrow> u64"
  commit_metadata :: "'c \<Rightarrow> vardict"
  load_layeredmeta :: "string \<Rightarrow> (layeredmeta \<times> 'v commit_dict) result"
  deployment_get_origin :: "OstreeDeployment \<Rightarrow> treefile result option"
  se_origin_env :: origin_env
  live_apply_state :: "OstreeDeployment \<Rightarrow> (string \<times> string) result"
  staged_deployment_locked :: bool
  unlocked_state_to_string :: "OstreeDeployment \<Rightarrow> string"
  parse_refspec :: "string \<Rightarrow> (string option \<times> string) result"
  remote_get_gpg_verify :: "string \<Rightarrow> (bool \<times> string) + bool"
  get_cached_signatures :: "string \<Rightarrow> string \<Rightarrow> 'v option"
  query_container_image_commit :: "string \<Rightarrow> ContainerImageState option"
  se_advisories :: advisory_env

definition rpmostree_origin_parse_deployment :: "('c, 'v) status_env \<Rightarrow> OstreeDeployment \<Rightarrow> treefile result" where
  "rpmostree_origin_parse_deployment env d =
     (case deployment_get_origin env d of
        None \<Rightarrow> Inl (Throw ''No origin known for deployment %s.%d'' [d_csum d, show_nat (d_deployserial d)])
      | Some origin \<Rightarrow> origin)"

definition keys_of :: "(string \<times> 'a) list option \<Rightarrow> string list" where
  "keys_of m = map fst (unwrap m)"

definition deployment_populate_variant_origin :: "treefile \<Rightarrow> 'v status_dict \<Rightarrow> 'v status_dict" where
  "deployment_populate_variant_origin tf dict =
     (let dict = dict(''requested-packages'' \<mapsto> S_as (unwrap (packages tf)),
            ''requested-local-packages'' \<mapsto> S_as (keys_of (packages_local tf)),
            ''requested-local-fileoverride-packages'' \<mapsto> S_as (keys_of (packages_local_fileoverride tf)),
            ''requested-base-removals'' \<mapsto> S_as (unwrap (override_remove tf)),
            ''requested-base-local-replacements'' \<mapsto> S_as (keys_of (override_replace_local tf)));
          dict = (case override_replace tf of
                    Some remote_overrides \<Rightarrow> dict(''requested-base-remote-replacements'' \<mapsto> S_remote remote_overrides)
                  | None \<Rightarrow> dict);
          dict = (case initramfs tf of
                    Some i \<Rightarrow> dict(''regenerate-initramfs'' \<mapsto> S_b (regenerate i), ''initramfs-args'' \<mapsto> S_as (unwrap (args i)),
                      ''initramfs-etc'' \<mapsto> S_as (unwrap (etc i)))
                  | None \<Rightarrow> dict(''regenerate-initramfs'' \<mapsto> S_b False))
      in if cliwrap tf = Some True then dict(''cliwrap'' \<mapsto> S_b True) else dict)"

definition deployment_populate_variant ::
  "('c, 'v) status_env \<Rightarrow> OstreeSysroot \<Rightarrow> OstreeDeployment \<Rightarrow> 'v status_dict \<Rightarrow> 'v status_dict result" where
  "deployment_populate_variant env sr d dict =
     (let dict = dict(''id'' \<mapsto> S_s (deployment_generate_id d), ''osname'' \<mapsto> S_s (d_osname d), ''checksum'' \<mapsto> S_s (d_csum d),
            ''serial'' \<mapsto> S_serial (d_deployserial d),
            ''booted'' \<mapsto> S_b (case sr_booted sr of Some b \<Rightarrow> ostree_deployment_equal b d | None \<Rightarrow> False))
      in bindR (live_apply_state env d) (\<lambda>(inprogress, live_commit).
           let dict = (if inprogress \<noteq> [] then dict(''live-inprogress'' \<mapsto> S_s inprogress) else dict);
               dict = (if live_commit \<noteq> [] then dict(''live-replaced'' \<mapsto> S_s live_commit) else dict);
               dict = dict(''staged'' \<mapsto> S_b (d_staged d));
               dict = (if d_staged d \<and> staged_deployment_locked env then dict(''finalization-locked'' \<mapsto> S_b True) else dict);
               dict = dict(''pinned'' \<mapsto> S_b (d_pinned d), ''unlocked'' \<mapsto> S_s (unlocked_state_to_string env d))
           in case deployment_get_origin env d of
                Some origin \<Rightarrow> bindR origin (\<lambda>tf. Inr (deployment_populate_variant_origin tf dict))
              | None \<Rightarrow> Inr dict))"

definition variant_add_metadata_attribute ::
  "('c, 'v) status_env \<Rightarrow> string \<Rightarrow> string \<Rightarrow> 'c \<Rightarrow> 'v status_dict \<Rightarrow> 'v status_dict" where
  "variant_add_metadata_attribute env attribute new_attribute commit dict =
     (case lookup_s (commit_metadata env commit) attribute of Some v \<Rightarrow> dict(new_attribute \<mapsto> S_s v) | None \<Rightarrow> dict)"

definition variant_add_commit_details :: "('c, 'v) status_env \<Rightarrow> string \<Rightarrow> 'c \<Rightarrow> 'v status_dict \<Rightarrow> 'v status_dict" where
  "variant_add_commit_details env prefix commit dict =
     (let dict = (case lookup_s (commit_metadata env commit) ''version'' of
                    Some version_commit \<Rightarrow> dict(prefix @ ''version'' \<mapsto> S_s version_commit)
                  | None \<Rightarrow> dict)
      in if commit_timestamp env commit > 0 then dict(prefix @ ''timestamp'' \<mapsto> S_t (commit_timestamp env commit)) else dict)"

definition filter_commit_meta :: "vardict \<Rightarrow> vardict" where
  "filter_commit_meta commit_meta =
     commit_meta |` (- {''rpmostree.rpmdb.pkglist'', ''rpmostree.advisories'', ''rpmostree.packages'', ''rpmostree.modules'',
       ''rpmostree.spec'', ''rpmostree.removed-base-packages'', ''rpmostree.replaced-base-packages'',
       ''rpmostree.replaced-base-remote-packages''})"

definition variant_add_remote_status ::
  "('c, 'v) status_env \<Rightarrow> string \<Rightarrow> string \<Rightarrow> 'v status_dict \<Rightarrow> 'v status_dict result" where
  "variant_add_remote_status env refspec base_checksum dict =
     prefix_error ''Loading origin status''
     (bindR (parse_refspec env refspec) (\<lambda>(maybe_remote, _).
        case maybe_remote of
          None \<Rightarrow> Inr (dict(''gpg-enabled'' \<mapsto> S_b False))
        | Some remote \<Rightarrow>
            (case remote_get_gpg_verify env remote of
               Inl (not_found, msg) \<Rightarrow> if not_found then Inr (dict(''remote-error'' \<mapsto> S_s msg)) else Inl (External msg)
             | Inr gpg_verify \<Rightarrow>
                 let dict = dict(''gpg-enabled'' \<mapsto> S_b gpg_verify)
                 in Inr (if \<not> gpg_verify then dict
                         else case get_cached_signatures env remote base_checksum of
                                Some sigs \<Rightarrow> dict(''signatures'' \<mapsto> S_signatures sigs)
                              | None \<Rightarrow> dict))))"

text \<open>The commit of the base, and what a layered deployment says about it.\<close>

definition add_base_details ::
  "('c, 'v) status_env \<Rightarrow> bool \<Rightarrow> 'c \<Rightarrow> 'v layered_info \<Rightarrow> string \<Rightarrow> 'v status_dict \<Rightarrow> ('c \<times> string \<times> 'v status_dict) result" where
  "add_base_details env flt commit li csum dict =
     (if li_is_layered li
      then bindR (assert_some ''base_checksum'' (li_base_layer li)) (\<lambda>base_checksum.
           bindR (prefix_error ''Reading base commit'' (load_commit (se_repo env) base_checksum)) (\<lambda>base_commit.
             let dict = variant_add_commit_details env ''base-'' base_commit (dict(''base-checksum'' \<mapsto> S_s base_checksum));
                 dict = variant_add_metadata_attribute env ''ostree.endoflife'' ''endoflife'' base_commit dict;
                 layered_metadata = commit_metadata env commit
             in Inr (base_commit, base_checksum,
                  dict(''layered-commit-meta'' \<mapsto> S_meta (if flt then filter_commit_meta layered_metadata else layered_metadata)))))
      else Inr (commit, csum, variant_add_metadata_attribute env ''ostree.endoflife'' ''endoflife'' commit dict))"

definition add_pending_base ::
  "('c, 'v) status_env \<Rightarrow> string \<Rightarrow> string \<Rightarrow> 'v status_dict \<Rightarrow> 'v status_dict result" where
  "add_pending_base env refspec base_checksum dict =
     bindR (prefix_error ''Resolving target ref'' (resolve_rev_noent env refspec)) (\<lambda>pending_base_commitrev.
       case pending_base_commitrev of
         Some rev1 \<Rightarrow>
           if rev1 = base_checksum then Inr dict
           else bindR (prefix_error ''Reading pending base commit'' (load_commit (se_repo env) rev1)) (\<lambda>pending_base_commit.
                  Inr (variant_add_commit_details env ''pending-base-'' pending_base_commit (dict(''pending-base-checksum'' \<mapsto> S_s rev1))))
       | None \<Rightarrow> Inr dict)"

definition add_origin_details ::
  "('c, 'v) status_env \<Rightarrow> RefspecType \<Rightarrow> string \<Rightarrow> string \<Rightarrow> 'v status_dict \<Rightarrow> 'v status_dict result" where
  "add_origin_details env kind refspec base_checksum dict =
     (case kind of
        Container \<Rightarrow>
          let dict = dict(''container-image-reference'' \<mapsto> S_s refspec)
          in Inr (case query_container_image_commit env base_checksum of
                    Some state \<Rightarrow>
                      let dict = dict(''container-image-reference-digest'' \<mapsto> S_s (ci_image_digest state))
                      in if ci_version state \<noteq> [] then dict(''version'' \<mapsto> S_s (ci_version state)) else dict
                  | None \<Rightarrow> dict)
      | Checksum \<Rightarrow> Inr (dict(''origin'' \<mapsto> S_s refspec))
      | Ostree \<Rightarrow>
          bindR (variant_add_remote_status env refspec base_checksum (dict(''origin'' \<mapsto> S_s refspec)))
            (add_pending_base env refspec base_checksum))"

definition rpmostreed_deployment_generate_variant ::
  "('c, 'v) status_env \<Rightarrow> OstreeSysroot \<Rightarrow> OstreeDeployment \<Rightarrow> bool \<Rightarrow> 'v status_dict result" where
  "rpmostreed_deployment_generate_variant env sr d flt =
     prefix_error ''Reading deployment metadata''
     (bindR (deployment_populate_variant env sr d Map.empty) (\<lambda>dict.
      bindR (load_commit (se_repo env) (d_csum d)) (\<lambda>commit.
      bindR (rpmostree_origin_parse_deployment env d) (\<lambda>origin.
      bindR (rpmostree_origin_get_refspec (se_origin_env env) origin) (\<lambda>(kind, refspec).
      bindR (rpmostree_deployment_get_layered_info (load_layeredmeta env) (d_csum d) True) (\<lambda>li.
      bindR (add_base_details env flt commit li (d_csum d) dict) (\<lambda>(base_commit, base_checksum, dict).
        let base_meta = commit_metadata env base_commit;
            dict = dict(''base-commit-meta'' \<mapsto> S_meta (if flt then filter_commit_meta base_meta else base_meta));
            dict = variant_add_commit_details env [] commit dict
        in bindR (add_origin_details env kind refspec base_checksum dict) (\<lambda>dict.
             let custom_origin_url = rpmostree_origin_get_custom_url origin;
                 dict = (if custom_origin_url \<noteq> []
                         then dict(''custom-origin'' \<mapsto> S_ss custom_origin_url (rpmostree_origin_get_custom_description origin))
                         else dict)
             in Inr (dict(''packages'' \<mapsto> S_as (li_layered_pkgs li), ''base-removals'' \<mapsto> S_list (li_removed_base_pkgs li),
                  ''base-local-replacements'' \<mapsto> S_list (li_replaced_base_local_pkgs li),
                  ''base-remote-replacements'' \<mapsto> S_list (li_replaced_base_remote_pkgs li)))))))))))"

section \<open>Updates\<close>

text \<open>A missing refspec, checksum or commit is looked up.\<close>

definition add_all_commit_details_to_vardict ::
  "('c, 'v) status_env \<Rightarrow> OstreeDeployment \<Rightarrow> string option \<Rightarrow> string option \<Rightarrow> 'c option \<Rightarrow> 'v status_dict \<Rightarrow> 'v status_dict result" where
  "add_all_commit_details_to_vardict env d refspec checksum commit dict =
     bindR (case refspec of
              Some r \<Rightarrow> Inr r
            | None \<Rightarrow> bindR (rpmostree_origin_parse_deployment env d) (\<lambda>origin.
                      bindR (rpmostree_origin_get_refspec (se_origin_env env) origin) (\<lambda>(_, r). Inr r))) (\<lambda>refspec.
       let refspec_type = refspec_classify (se_origin_env env) refspec;
           checksum = (if refspec_type = Checksum \<and> commit = None then Some refspec else checksum)
       in bindR (case checksum of
                   Some c \<Rightarrow> Inr c
                 | None \<Rightarrow> bindR (if refspec_type = Ostree then resolve_rev_noent env refspec else Inr None) (\<lambda>checksum_owned.
                     Inr (case checksum_owned of Some c \<Rightarrow> c | None \<Rightarrow> d_csum d))) (\<lambda>checksum.
          bindR (case commit of Some c \<Rightarrow> Inr c | None \<Rightarrow> load_commit (se_repo env) checksum) (\<lambda>commit.
          bindR (if refspec_type = Ostree then variant_add_remote_status env refspec checksum dict else Inr dict) (\<lambda>dict.
            let dict = dict(''osname'' \<mapsto> S_s (d_osname d), ''checksum'' \<mapsto> S_s checksum)
            in Inr ((variant_add_commit_details env [] commit dict)(''origin'' \<mapsto> S_s refspec))))))"

definition rpmostreed_commit_generate_cached_details_variant ::
  "('c, 'v) status_env \<Rightarrow> OstreeDeployment \<Rightarrow> string option \<Rightarrow> string option \<Rightarrow> 'v status_dict result" where
  "rpmostreed_commit_generate_cached_details_variant env d refspec checksum =
     add_all_commit_details_to_vardict env d refspec checksum None Map.empty"

definition deployment_add_manifest_diff :: "ExportedManifestDiff \<Rightarrow> 'v status_dict \<Rightarrow> 'v status_dict \<times> bool" where
  "deployment_add_manifest_diff diff dict =
     (if md_n_removed diff = 0 \<and> md_n_added diff = 0 then (dict, False)
      else (dict(''manifest-diff'' \<mapsto> S_manifest_diff diff), True))"

text \<open>The new base: of the staged deployment, or of the branch if it is not a container.\<close>

definition update_target ::
  "('c, 'v) status_env \<Rightarrow> OstreeDeployment option \<Rightarrow> RefspecType \<Rightarrow> string \<Rightarrow> string option \<Rightarrow> (string option \<times> bool) result" where
  "update_target env staged_deployment refspectype refspec current_base_owned =
     (case staged_deployment of
        Some staged \<Rightarrow>
          bindR (rpmostree_deployment_get_base_layer (load_layeredmeta env) (d_csum staged)) (\<lambda>owned.
            Inr (Some (case owned of Some c \<Rightarrow> c | None \<Rightarrow> d_csum staged), False))
      | None \<Rightarrow>
          if refspectype \<noteq> Container
          then bindR (resolve_rev_ext env refspec) (\<lambda>owned. Inr (owned, current_base_owned \<noteq> None))
          else Inr (None, False))"

text \<open>
  The differences without a staged deployment: of the bases, then of the layered packages. For a container the cached
  difference of its layers is used, if there is one.
\<close>

definition guess_update ::
  "('c, 'v) status_env \<Rightarrow> sack_ops option \<Rightarrow> RefspecType \<Rightarrow> string \<Rightarrow> string \<Rightarrow> string \<Rightarrow> string \<Rightarrow> bool \<Rightarrow> bool \<Rightarrow> treefile \<Rightarrow>
   RpmDiff \<Rightarrow> 'v status_dict \<Rightarrow> (RpmDiff \<times> RpmOstreePackage list option \<times> DnfPackage list option \<times> 'v status_dict \<times> bool) result" where
  "guess_update env sack refspectype refspec current_checksum current_base_checksum new_base_checksum is_new_checksum is_new_layered origin rpm_diff dict =
     bindR (if is_new_checksum \<and> refspectype \<noteq> Container
            then rpm_diff_add_db_diff (se_evr env) (se_repo env) rpm_diff PKG_TYPE_BASE current_base_checksum new_base_checksum
            else Inr (rpm_diff, None)) (\<lambda>(rpm_diff, ostree_modified_new).
     bindR (if refspectype \<noteq> Container then bindR (parse_refspec env refspec) (\<lambda>_. Inr (dict, False))
            else Inr (case query_container_image_commit env current_checksum of
                        None \<Rightarrow> (dict, False)
                      | Some state \<Rightarrow>
                          (case deployment_add_manifest_diff (ci_cached_update_diff state) dict of (dict, changed) \<Rightarrow>
                             (if ci_cached_update_version state \<noteq> [] then dict(''version'' \<mapsto> S_s (ci_cached_update_version state)) else dict,
                              changed)))) (\<lambda>(dict, container_changed).
     bindR (case sack of
              Some sack \<Rightarrow>
                if is_new_layered \<and> rpmostree_origin_has_packages origin
                then rpmmd_diff_guess (se_evr env) (se_repo env) current_base_checksum current_checksum sack rpm_diff
                else Inr (rpm_diff, None)
            | None \<Rightarrow> Inr (rpm_diff, None)) (\<lambda>(rpm_diff, rpmmd_modified_new).
       Inr (rpm_diff, ostree_modified_new, rpmmd_modified_new, dict, container_changed))))"

text \<open>The packages whose advisories are looked up.\<close>

definition add_advisories ::
  "('c, 'v) status_env \<Rightarrow> sack_ops option \<Rightarrow> RpmOstreePackage list option \<Rightarrow> DnfPackage list option \<Rightarrow> 'v status_dict \<Rightarrow> 'v status_dict" where
  "add_advisories env sack ostree_modified_new rpmmd_modified_new dict =
     (case sack of
        None \<Rightarrow> dict
      | Some sack \<Rightarrow>
          if ostree_modified_new = None \<and> rpmmd_modified_new = None then dict
          else let new_packages = (case ostree_modified_new of Some pkgs \<Rightarrow> rpm_ostree_pkgs_to_dnf sack pkgs | None \<Rightarrow> []) @
                     unwrap rpmmd_modified_new
               in case rpmostree_advisories_variant (se_advisories env) new_packages of
                    Some advisories \<Rightarrow> dict(''advisories'' \<mapsto> S_advisories advisories)
                  | None \<Rightarrow> dict)"

definition rpmostreed_update_generate_variant ::
  "('c, 'v) status_env \<Rightarrow> OstreeDeployment \<Rightarrow> OstreeDeployment option \<Rightarrow> sack_ops option \<Rightarrow> 'v status_dict option result" where
  "rpmostreed_update_generate_variant env booted staged_deployment sack =
     prefix_error ''Generating update variant''
     (bindR (rpmostree_origin_parse_deployment env booted) (\<lambda>origin.
      bindR (rpmostree_origin_get_refspec (se_origin_env env) origin) (\<lambda>(_, refspec).
        let current_checksum = d_csum booted
        in bindR (rpmostree_deployment_get_base_layer (load_layeredmeta env) current_checksum) (\<lambda>current_base_owned.
             let current_base_checksum = (case current_base_owned of Some c \<Rightarrow> c | None \<Rightarrow> current_checksum);
                 refspectype = refspec_classify (se_origin_env env) refspec
             in bindR (update_target env staged_deployment refspectype refspec current_base_owned) (\<lambda>(target, is_new_layered).
                  let is_new_checksum = (case target of Some c \<Rightarrow> c \<noteq> current_base_checksum | None \<Rightarrow> False);
                      new_base_checksum = (case target of Some c \<Rightarrow> c | None \<Rightarrow> current_base_checksum)
                  in bindR (load_commit (se_repo env) new_base_checksum) (\<lambda>commit.
                     bindR (add_all_commit_details_to_vardict env booted (Some refspec) (Some new_base_checksum) (Some commit) Map.empty) (\<lambda>dict.
                       let dict = dict(''ref-has-new-commit'' \<mapsto> S_b is_new_checksum)
                       in bindR (rpm_diff_init \<lparr>rd_initialized = False, rd_upgraded = [], rd_downgraded = [], rd_removed = [], rd_added = []\<rparr>) (\<lambda>rpm_diff.
                          bindR (case staged_deployment of
                                   Some staged \<Rightarrow>
                                     bindR (rpm_diff_add_db_diff (se_evr env) (se_repo env) rpm_diff PKG_TYPE_BASE current_checksum (d_csum staged))
                                       (\<lambda>(rpm_diff, ostree_modified_new). Inr (rpm_diff, ostree_modified_new, None, dict, False))
                                 | None \<Rightarrow> guess_update env sack refspectype refspec current_checksum current_base_checksum new_base_checksum
                                     is_new_checksum is_new_layered origin rpm_diff dict)
                            (\<lambda>(rpm_diff, ostree_modified_new, rpmmd_modified_new, dict, container_changed).
                          bindR (rpm_diff_is_empty rpm_diff) (\<lambda>is_empty.
                          bindR (if is_empty then Inr dict
                                 else bindR (rpm_diff_variant_new rpm_diff) (\<lambda>v. Inr (dict(''rpm-diff'' \<mapsto> S_rpm_diff v)))) (\<lambda>dict.
                            let dict = add_advisories env sack ostree_modified_new rpmmd_modified_new dict;
                                dict = (case staged_deployment of
                                          Some staged \<Rightarrow> dict(''deployment'' \<mapsto> S_s (deployment_generate_id staged))
                                        | None \<Rightarrow> dict)
                            in Inr (if is_new_checksum \<or> rpmmd_modified_new \<noteq> None \<or> container_changed
                                    then Some (dict(''update-sha256'' \<mapsto> S_s current_checksum))
                                    else None))))))))))))"

section \<open>Ids identify deployments\<close>

lemma generate_id_inj:
  assumes "deployment_generate_id a = deployment_generate_id b"
    and "CHR ''-'' \<notin> set (d_csum a)" "CHR ''.'' \<notin> set (d_csum a)" "CHR ''-'' \<notin> set (d_csum b)" "CHR ''.'' \<notin> set (d_csum b)"
  shows "ostree_deployment_equal a b"
proof -
  have serial: "CHR ''.'' \<notin> set (show_nat n)" for n
    using show_nat_digits [of "CHR ''.''" n] by (auto simp: is_digit_def)
  have "(d_osname a @ CHR ''-'' # d_csum a) @ CHR ''.'' # show_nat (d_deployserial a) =
      (d_osname b @ CHR ''-'' # d_csum b) @ CHR ''.'' # show_nat (d_deployserial b)"
    using assms(1) by (simp add: deployment_generate_id_def)
  from split_at_last [OF serial serial this] have "d_osname a @ CHR ''-'' # d_csum a = d_osname b @ CHR ''-'' # d_csum b"
    "show_nat (d_deployserial a) = show_nat (d_deployserial b)" by auto
  then show ?thesis using split_at_last [OF assms(2,4), of "d_osname a" "d_osname b"] show_nat_inj
    by (auto simp: ostree_deployment_equal_def)
qed

text \<open>
  C27: the id that is shown for a deployment leads back to it: looking it up gives the deployment, as long as checksums have
  neither a dash nor a dot in them.
\<close>

theorem deployment_id_roundtrip:
  assumes "d \<in> set (sr_deployments sr)" "list_all (\<lambda>d. CHR ''-'' \<notin> set (d_csum d) \<and> CHR ''.'' \<notin> set (d_csum d)) (sr_deployments sr)"
  shows "\<exists>d'. deployment_for_id sr (deployment_generate_id d) = Inr d' \<and> d' \<in> set (sr_deployments sr) \<and> ostree_deployment_equal d' d"
proof -
  have "find (\<lambda>x. deployment_generate_id d = deployment_generate_id x) (sr_deployments sr) \<noteq> None"
    using assms(1) by (auto simp: find_None_iff)
  then obtain d' where d': "find (\<lambda>x. deployment_generate_id d = deployment_generate_id x) (sr_deployments sr) = Some d'" by blast
  then have m: "d' \<in> set (sr_deployments sr)" "deployment_generate_id d = deployment_generate_id d'"
    by (auto simp: find_Some_iff)
  have "ostree_deployment_equal d' d"
    using assms m by (intro generate_id_inj) (auto simp: list_all_iff)
  moreover have "deployment_generate_id d \<noteq> []" by (simp add: deployment_generate_id_def)
  ultimately show ?thesis using d' m by (simp add: deployment_for_id_def)
qed

lemma hex2_alnum: "c \<in> set (hex2 n) \<Longrightarrow> ascii_isalnum c"
proof -
  have "ascii_isalnum (digit k)" if "k < 16" for k
    using that by (auto simp: ascii_isalnum_def is_digit_def code_digit)
  then show "c \<in> set (hex2 n) \<Longrightarrow> ascii_isalnum c" by (auto simp: hex2_def)
qed


section \<open>Advisories are the reverse of the map from packages\<close>

lemma add_pkg_ids:
  "map (adv_id \<circ> fst) (add_pkg_to_advisory pkg adv t) =
     (let ids = map (adv_id \<circ> fst) t in if adv_id adv \<in> set ids then ids else ids @ [adv_id adv])"
  by (induction pkg adv t rule: add_pkg_to_advisory.induct) (auto simp: Let_def)

text \<open>Which advisory is listed with which package.\<close>

fun listed :: "advisory_table \<Rightarrow> (string \<times> DnfPackage) set" where
  "listed [] = {}"
| "listed ((adv, pkgs) # t) = Pair (adv_id adv) ` set pkgs \<union> listed t"

definition security_ids :: "advisory_env \<Rightarrow> DnfPackage \<Rightarrow> string set" where
  "security_ids env p = adv_id ` set (filter (\<lambda>adv. adv_kind adv = ADVISORY_KIND_SECURITY) (dnf_package_get_advisories env p))"

lemma listed_add_pkg: "listed (add_pkg_to_advisory pkg adv t) = Set.insert (adv_id adv, pkg) (listed t)"
  by (induction pkg adv t rule: add_pkg_to_advisory.induct) auto

lemma listed_add_advisories: "listed (add_pkg_advisories env t pkg) = listed t \<union> (\<lambda>i. (i, pkg)) ` security_ids env pkg"
proof -
  have "listed (foldl (\<lambda>t adv. if adv_kind adv \<noteq> ADVISORY_KIND_SECURITY then t else add_pkg_to_advisory pkg adv t) t advs) =
    listed t \<union> (\<lambda>i. (i, pkg)) ` adv_id ` set (filter (\<lambda>adv. adv_kind adv = ADVISORY_KIND_SECURITY) advs)" for advs
    by (induction advs arbitrary: t) (auto simp: listed_add_pkg)
  then show ?thesis by (simp add: add_pkg_advisories_def security_ids_def)
qed

lemma distinct_add_advisories:
  assumes "distinct (map (adv_id \<circ> fst) t)"
  shows "distinct (map (adv_id \<circ> fst) (add_pkg_advisories env t pkg))"
proof -
  have step: "distinct (map (adv_id \<circ> fst) (add_pkg_to_advisory pkg adv t))" if "distinct (map (adv_id \<circ> fst) t)" for adv t
    unfolding add_pkg_ids Let_def using that by (simp del: map_map comp_apply)
  have "distinct (map (adv_id \<circ> fst) (foldl (\<lambda>t adv. if adv_kind adv \<noteq> ADVISORY_KIND_SECURITY then t else add_pkg_to_advisory pkg adv t) t advs))"
    for advs using assms by (induction advs arbitrary: t) (simp_all add: step del: map_map comp_apply)
  then show ?thesis by (simp add: add_pkg_advisories_def)
qed

lemma advisory_table:
  "listed (foldl (add_pkg_advisories env) t pkgs) = listed t \<union> {(i, p). p \<in> set pkgs \<and> i \<in> security_ids env p}"
  by (induction pkgs arbitrary: t) (auto simp: listed_add_advisories)

lemma advisory_table_distinct:
  "distinct (map (adv_id \<circ> fst) t) \<Longrightarrow> distinct (map (adv_id \<circ> fst) (foldl (add_pkg_advisories env) t pkgs))"
  by (induction pkgs arbitrary: t) (simp_all add: distinct_add_advisories del: map_map comp_apply)

lemma listed_variants:
  "(\<Union>v \<in> set (map (\<lambda>(adv, pkgs). advisory_variant_new env adv pkgs) t). Pair (av_id v) ` set (av_pkgs v)) =
     map_prod id (dnf_package_get_nevra env) ` listed t"
proof (induction t rule: listed.induct)
  case (2 adv pkgs t)
  then show ?case by (simp add: advisory_variant_new_def image_Un image_image)
qed simp

text \<open>
  Libdnf knows the advisories of a package, the daemon reports the packages of an advisory. Each security advisory of
  a package is reported, once, with exactly the packages it is about; nothing is reported if there is none.
\<close>

theorem advisories_reverse:
  "case rpmostree_advisories_variant env pkgs of
     None \<Rightarrow> list_all (\<lambda>p. security_ids env p = {}) pkgs
   | Some vs \<Rightarrow> vs \<noteq> [] \<and> distinct (map av_id vs) \<and>
       (\<Union>v \<in> set vs. Pair (av_id v) ` set (av_pkgs v)) =
       {(i, dnf_package_get_nevra env p) | i p. p \<in> set pkgs \<and> i \<in> security_ids env p}"
proof -
  define t where "t = foldl (add_pkg_advisories env) [] pkgs"
  have t: "listed t = {(i, p). p \<in> set pkgs \<and> i \<in> security_ids env p}" "distinct (map (adv_id \<circ> fst) t)"
    using advisory_table [of env "[]" pkgs] advisory_table_distinct [of "[]" env pkgs] by (simp_all add: t_def)
  show ?thesis
  proof (cases "t = []")
    case True
    then show ?thesis using t(1) by (auto simp: rpmostree_advisories_variant_def Let_def list_all_iff simp flip: t_def)
  next
    case False
    have ids: "av_id \<circ> (\<lambda>(adv, pkgs). advisory_variant_new env adv pkgs) = adv_id \<circ> fst"
      by (auto simp: fun_eq_iff advisory_variant_new_def)
    have "map_prod id (dnf_package_get_nevra env) ` listed t = {(i, dnf_package_get_nevra env p) | i p. p \<in> set pkgs \<and> i \<in> security_ids env p}"
      unfolding t(1) by force
    then show ?thesis using False t(2) listed_variants [of env t]
      by (simp add: rpmostree_advisories_variant_def Let_def ids del: comp_apply flip: t_def)
  qed
qed

section \<open>What is said about a deployment\<close>

lemma commit_details_other:
  "k \<noteq> prefix @ ''version'' \<Longrightarrow> k \<noteq> prefix @ ''timestamp'' \<Longrightarrow> variant_add_commit_details env prefix commit dict k = dict k"
  by (auto simp: variant_add_commit_details_def Let_def split: option.splits)

lemma metadata_attribute_other: "k \<noteq> new \<Longrightarrow> variant_add_metadata_attribute env attribute new commit dict k = dict k"
  by (auto simp: variant_add_metadata_attribute_def split: option.splits)

lemma remote_status_other:
  assumes "variant_add_remote_status env refspec base_checksum dict = Inr dict'" "k \<notin> {''gpg-enabled'', ''remote-error'', ''signatures''}"
  shows "dict' k = dict k"
proof -
  obtain maybe_remote ref where p: "parse_refspec env refspec = Inr (maybe_remote, ref)"
    using assms(1) by (auto simp: variant_add_remote_status_def bindR_Inr_iff)
  show ?thesis
  proof (cases maybe_remote)
    case (Some remote)
    then show ?thesis using assms p
      by (cases "remote_get_gpg_verify env remote"; cases "get_cached_signatures env remote base_checksum")
        (auto simp: variant_add_remote_status_def Let_def split: if_splits prod.splits)
  qed (use assms p in \<open>auto simp: variant_add_remote_status_def\<close>)
qed

lemma base_details:
  assumes "add_base_details env flt commit li csum dict = Inr (base_c, base_checksum, dict')"
  shows "(if li_is_layered li then li_base_layer li = Some base_checksum else base_checksum = csum)"
    "dict' ''base-checksum'' = (if li_is_layered li then Some (S_s base_checksum) else dict ''base-checksum'')"
    "k \<notin> {''base-checksum'', ''base-version'', ''base-timestamp'', ''endoflife'', ''layered-commit-meta''} \<Longrightarrow> dict' k = dict k"
  using assms by (auto simp: add_base_details_def bindR_Inr_iff assert_some_def Let_def commit_details_other metadata_attribute_other
      split: if_splits option.splits)

text \<open>The pending commit of a branch.\<close>

definition pending_of :: "('c, 'v) status_env \<Rightarrow> RefspecType \<Rightarrow> string \<Rightarrow> string \<Rightarrow> string option" where
  "pending_of env kind refspec base_checksum =
     (if kind \<noteq> Ostree then None
      else case resolve_rev_noent env refspec of Inr (Some rev1) \<Rightarrow> if rev1 = base_checksum then None else Some rev1 | _ \<Rightarrow> None)"

lemma pending_base:
  assumes "add_pending_base env refspec base_checksum dict = Inr dict'"
  shows "dict' ''pending-base-checksum'' = (case pending_of env Ostree refspec base_checksum of Some r \<Rightarrow> Some (S_s r) | None \<Rightarrow> dict ''pending-base-checksum'')"
    "k \<notin> {''pending-base-checksum'', ''pending-base-version'', ''pending-base-timestamp''} \<Longrightarrow> dict' k = dict k"
proof -
  obtain r where r: "resolve_rev_noent env refspec = Inr r"
    using assms by (auto simp: add_pending_base_def bindR_Inr_iff)
  show "dict' ''pending-base-checksum'' = (case pending_of env Ostree refspec base_checksum of Some r \<Rightarrow> Some (S_s r) | None \<Rightarrow> dict ''pending-base-checksum'')"
    using assms r by (cases r) (auto simp: add_pending_base_def pending_of_def bindR_Inr_iff commit_details_other split: if_splits)
  show "dict' k = dict k" if "k \<notin> {''pending-base-checksum'', ''pending-base-version'', ''pending-base-timestamp''}"
    using assms r that by (cases r) (auto simp: add_pending_base_def bindR_Inr_iff commit_details_other split: if_splits)
qed

lemma origin_details:
  assumes "add_origin_details env kind refspec base_checksum dict = Inr dict'" "dict ''pending-base-checksum'' = None"
  shows "dict' ''pending-base-checksum'' = map_option S_s (pending_of env kind refspec base_checksum)"
    "k \<notin> {''container-image-reference'', ''container-image-reference-digest'', ''version'', ''origin'', ''gpg-enabled'', ''remote-error'',
       ''signatures'', ''pending-base-checksum'', ''pending-base-version'', ''pending-base-timestamp''} \<Longrightarrow> dict' k = dict k"
proof -
  show "dict' ''pending-base-checksum'' = map_option S_s (pending_of env kind refspec base_checksum)"
  proof (cases kind)
    case Ostree
    then obtain dict1 where d: "variant_add_remote_status env refspec base_checksum (dict(''origin'' \<mapsto> S_s refspec)) = Inr dict1"
      "add_pending_base env refspec base_checksum dict1 = Inr dict'"
      using assms(1) by (auto simp: add_origin_details_def bindR_Inr_iff)
    have "dict1 ''pending-base-checksum'' = None" using remote_status_other [OF d(1), of "''pending-base-checksum''"] assms(2) by simp
    then show ?thesis using pending_base(1) [OF d(2)] Ostree by (auto split: option.splits)
  qed (use assms in \<open>auto simp: add_origin_details_def pending_of_def Let_def split: option.splits\<close>)
  show "dict' k = dict k" if k: "k \<notin> {''container-image-reference'', ''container-image-reference-digest'', ''version'', ''origin'',
     ''gpg-enabled'', ''remote-error'', ''signatures'', ''pending-base-checksum'', ''pending-base-version'', ''pending-base-timestamp''}"
  proof (cases kind)
    case Ostree
    then obtain dict1 where d: "variant_add_remote_status env refspec base_checksum (dict(''origin'' \<mapsto> S_s refspec)) = Inr dict1"
      "add_pending_base env refspec base_checksum dict1 = Inr dict'"
      using assms(1) by (auto simp: add_origin_details_def bindR_Inr_iff)
    then show ?thesis using remote_status_other [OF d(1), of k] pending_base(2) [OF d(2), of k] k by simp
  qed (use assms k in \<open>auto simp: add_origin_details_def Let_def split: option.splits if_splits\<close>)
qed

lemma populate_variant_facts:
  assumes "deployment_populate_variant env sr d Map.empty = Inr dict" "rpmostree_origin_parse_deployment env d = Inr origin"
  shows "dict ''id'' = Some (S_s (deployment_generate_id d))" "dict ''checksum'' = Some (S_s (d_csum d))"
    "dict ''booted'' = Some (S_b (case sr_booted sr of Some b \<Rightarrow> ostree_deployment_equal b d | None \<Rightarrow> False))"
    "dict ''requested-packages'' = Some (S_as (unwrap (packages origin)))"
    "dict ''base-checksum'' = None" "dict ''pending-base-checksum'' = None"
  using assms
  by (auto simp: deployment_populate_variant_def rpmostree_origin_parse_deployment_def deployment_populate_variant_origin_def bindR_Inr_iff Let_def
      split: option.splits)

text \<open>
  C26: what the daemon reports about a deployment: its identity, whether it is booted, the requested and the layered packages, the
  base commit exactly if it is layered, and a pending commit exactly if its origin is a branch that has moved away from
  the base.
\<close>

theorem deployment_variant_facts:
  assumes "rpmostreed_deployment_generate_variant env sr d flt = Inr v"
    and "rpmostree_origin_parse_deployment env d = Inr origin"
    and "rpmostree_origin_get_refspec (se_origin_env env) origin = Inr (kind, refspec)"
    and "rpmostree_deployment_get_layered_info (load_layeredmeta env) (d_csum d) True = Inr li"
  shows "v ''id'' = Some (S_s (deployment_generate_id d)) \<and> v ''checksum'' = Some (S_s (d_csum d)) \<and>
    v ''booted'' = Some (S_b (case sr_booted sr of Some b \<Rightarrow> ostree_deployment_equal b d | None \<Rightarrow> False)) \<and>
    v ''requested-packages'' = Some (S_as (unwrap (packages origin))) \<and> v ''packages'' = Some (S_as (li_layered_pkgs li)) \<and>
    v ''base-checksum'' = (if li_is_layered li then map_option S_s (li_base_layer li) else None) \<and>
    v ''pending-base-checksum'' = map_option S_s
      (pending_of env kind refspec (case li_base_layer li of Some b \<Rightarrow> if li_is_layered li then b else d_csum d | None \<Rightarrow> d_csum d))"
proof -
  obtain dict commit base_c base_checksum dict1 dict2 where
    dict: "deployment_populate_variant env sr d Map.empty = Inr dict"
    and base: "add_base_details env flt commit li (d_csum d) dict = Inr (base_c, base_checksum, dict1)"
    and orig: "add_origin_details env kind refspec base_checksum
      (variant_add_commit_details env [] commit (dict1(''base-commit-meta'' \<mapsto>
        S_meta (if flt then filter_commit_meta (commit_metadata env base_c) else commit_metadata env base_c)))) = Inr dict2"
    and v: "v = (if rpmostree_origin_get_custom_url origin \<noteq> []
        then dict2(''custom-origin'' \<mapsto> S_ss (rpmostree_origin_get_custom_url origin) (rpmostree_origin_get_custom_description origin))
        else dict2)(''packages'' \<mapsto> S_as (li_layered_pkgs li), ''base-removals'' \<mapsto> S_list (li_removed_base_pkgs li),
          ''base-local-replacements'' \<mapsto> S_list (li_replaced_base_local_pkgs li),
          ''base-remote-replacements'' \<mapsto> S_list (li_replaced_base_remote_pkgs li))"
    using assms by (auto simp: rpmostreed_deployment_generate_variant_def bindR_Inr_iff Let_def)
  note facts = populate_variant_facts [OF dict assms(2)]
  note b = base_details [OF base]
  have keep: "variant_add_commit_details env [] commit (dict1(''base-commit-meta'' \<mapsto> x)) k = dict1 k"
    if "k \<in> {''pending-base-checksum'', ''id'', ''checksum'', ''booted'', ''requested-packages'', ''base-checksum''}" for k x
    using that by (auto simp: commit_details_other)
  have pending: "dict1 ''pending-base-checksum'' = None" using b(3) [of "''pending-base-checksum''"] facts by simp
  then have "variant_add_commit_details env [] commit (dict1(''base-commit-meta'' \<mapsto> x)) ''pending-base-checksum'' = None" for x
    using keep [of "''pending-base-checksum''" x] by simp
  note o = origin_details [OF orig this]
  have frame: "v k = dict2 k" if "k \<in> {''pending-base-checksum'', ''id'', ''checksum'', ''booted'', ''requested-packages'', ''base-checksum''}" for k
    using that by (auto simp: v)
  have frame1: "v k = dict1 k" if "k \<in> {''id'', ''checksum'', ''booted'', ''requested-packages'', ''base-checksum''}" for k
  proof -
    have "dict2 k = dict1 k" using that by (subst o(2)) (auto simp: commit_details_other)
    then show ?thesis using that frame [of k] by auto
  qed
  have frame0: "v k = dict k" if "k \<in> {''id'', ''checksum'', ''booted'', ''requested-packages''}" for k
  proof -
    have "dict1 k = dict k" using that by (subst b(3)) auto
    then show ?thesis using that frame1 [of k] by auto
  qed
  have "v ''packages'' = Some (S_as (li_layered_pkgs li))" by (simp add: v)
  moreover have "v ''base-checksum'' = (if li_is_layered li then map_option S_s (li_base_layer li) else None)"
    using frame1 [of "''base-checksum''"] b(1,2) facts(5) by (auto split: if_splits)
  moreover have "v ''pending-base-checksum'' = map_option S_s (pending_of env kind refspec
      (case li_base_layer li of Some b \<Rightarrow> if li_is_layered li then b else d_csum d | None \<Rightarrow> d_csum d))"
    using frame [of "''pending-base-checksum''"] o(1) b(1) by (auto split: if_splits option.splits)
  ultimately show ?thesis using facts(1-4) frame0 by simp
qed

section \<open>What is said about an update\<close>

lemma update_for_booted:
  assumes "rpmostreed_update_generate_variant env booted staged_deployment sack = Inr (Some dict)"
  shows "dict ''update-sha256'' = Some (S_s (d_csum booted))"
  using assms by (auto simp: rpmostreed_update_generate_variant_def bindR_Inr_iff Let_def split: if_splits)

text \<open>
  An update that is staged is not reported if it changes only layered packages: as soon as the staged deployment has the base
  of the booted one, the result says that there is no update, whatever the difference in packages is.
\<close>

theorem staged_same_base_hidden:
  assumes "rpmostree_deployment_get_base_layer (load_layeredmeta env) (d_csum booted) = Inr b0"
    and "rpmostree_deployment_get_base_layer (load_layeredmeta env) (d_csum staged) = Inr b1"
    and "(case b0 of Some c \<Rightarrow> c | None \<Rightarrow> d_csum booted) = (case b1 of Some c \<Rightarrow> c | None \<Rightarrow> d_csum staged)"
  shows "rpmostreed_update_generate_variant env booted (Some staged) sack \<noteq> Inr (Some v)"
  using assms
  by (auto simp: rpmostreed_update_generate_variant_def update_target_def bindR_Inr_iff Let_def split: if_splits)

section \<open>Examples\<close>

theorem deployment_id_roundtrip_witness:
  "\<exists>d'. deployment_for_id demo_sysroot (deployment_generate_id (mk_deployment ''fedora'' ''a'' True)) = Inr d' \<and>
     ostree_deployment_equal d' (mk_deployment ''fedora'' ''a'' True)"
  using deployment_id_roundtrip [of "mk_deployment ''fedora'' ''a'' True" demo_sysroot] by (auto simp: demo_sysroot_def mk_deployment_def)


text \<open>A deployment \<open>c\<close> of the branch \<open>fedora:stable\<close>, layered on \<open>A\<close>; the branch has moved to \<open>B\<close>.\<close>

definition demo_status :: "(string, unit) status_env" where
  "demo_status = \<lparr>se_repo = example_repo, se_evr = strcmp, resolve_rev_noent = (\<lambda>_. Inr (Some ''B'')), resolve_rev_ext = (\<lambda>_. Inr (Some ''B'')),
     commit_timestamp = (\<lambda>_. 7), commit_metadata = (\<lambda>c. [''version'' \<mapsto> GV_s c]),
     load_layeredmeta = (\<lambda>_. Inr (\<lparr>is_layered = True, clientlayer_version = 1, base_commit = ''A''\<rparr>,
       \<lparr>cd_packages = Some [''vim''], cd_spec_packages = None, cd_removed_base_packages = None, cd_replaced_base_packages = None,
        cd_replaced_base_remote_packages = None\<rparr>)),
     deployment_get_origin = (\<lambda>_. Some (Inr demo_origin)), se_origin_env = demo_origin_env, live_apply_state = (\<lambda>_. Inr ([], [])),
     staged_deployment_locked = False, unlocked_state_to_string = (\<lambda>_. ''none''),
     parse_refspec = (\<lambda>_. Inr (Some ''fedora'', ''stable'')), remote_get_gpg_verify = (\<lambda>_. Inr True), get_cached_signatures = (\<lambda>_ _. None),
     query_container_image_commit = (\<lambda>_. None),
     se_advisories = \<lparr>dnf_package_get_advisories = (\<lambda>_. []), dnf_package_get_nevra = dnf_name, cve_matches = (\<lambda>_. [])\<rparr>\<rparr>"

lemma demo_variants: "\<exists>v. rpmostreed_deployment_generate_variant demo_status sr (mk_deployment os c pinned) True = Inr v"
proof -
  have "case rpmostreed_deployment_generate_variant demo_status sr (mk_deployment os c pinned) True of Inr _ \<Rightarrow> True | _ \<Rightarrow> False"
    by code_simp
  then show ?thesis by (auto split: sum.splits)
qed

lemma demo_update:
  "\<exists>update. rpmostreed_update_generate_variant demo_status (mk_deployment ''fedora'' ''c'' False) None None = Inr (Some update)"
proof -
  have "case rpmostreed_update_generate_variant demo_status (mk_deployment ''fedora'' ''c'' False) None None of
      Inr (Some _) \<Rightarrow> True | _ \<Rightarrow> False"
    by code_simp
  then show ?thesis by (auto split: sum.splits option.splits)
qed

theorem deployment_variant_facts_witness:
  "\<exists>v. rpmostreed_deployment_generate_variant demo_status demo_sysroot (mk_deployment ''fedora'' ''c'' False) True = Inr v \<and>
     v ''packages'' = Some (S_as [''vim'']) \<and> v ''base-checksum'' = Some (S_s ''A'') \<and> v ''pending-base-checksum'' = Some (S_s ''B'')"
proof -
  let ?d = "mk_deployment ''fedora'' ''c'' False"
  have layered: "rpmostree_deployment_get_layered_info (load_layeredmeta demo_status) (d_csum ?d) True =
      Inr \<lparr>li_is_layered = True, li_layer_version = 1, li_base_layer = Some ''A'', li_layered_pkgs = [''vim''], li_layered_modules = [],
        li_removed_base_pkgs = [], li_replaced_base_local_pkgs = [], li_replaced_base_remote_pkgs = []\<rparr>"
    by (simp add: rpmostree_deployment_get_layered_info_def demo_status_def assert_some_def Let_def word_le_nat_alt)
  have origin: "rpmostree_origin_parse_deployment demo_status ?d = Inr demo_origin"
    by (simp add: rpmostree_origin_parse_deployment_def demo_status_def)
  have refspec: "rpmostree_origin_get_refspec (se_origin_env demo_status) demo_origin = Inr (Ostree, ''fedora:stable'')"
    by (simp add: rpmostree_origin_get_refspec_def demo_status_def demo_origin_def demo_origin_env_def)
  obtain v where "rpmostreed_deployment_generate_variant demo_status demo_sysroot ?d True = Inr v" using demo_variants by blast
  from deployment_variant_facts [OF this origin refspec layered] this show ?thesis
    by (auto simp: pending_of_def demo_status_def)
qed

theorem staged_same_base_hidden_witness:
  "rpmostreed_update_generate_variant demo_status (mk_deployment ''fedora'' ''c'' False) (Some (mk_deployment ''fedora'' ''d'' False)) None
     \<noteq> Inr (Some Map.empty)"
  by (rule staged_same_base_hidden [of _ _ "Some ''A''" _ "Some ''A''"])
    (simp_all add: rpmostree_deployment_get_base_layer_def rpmostree_deployment_get_layered_info_def demo_status_def Let_def)

end
