(* ===== verification/Daemon.thy ===== *)
theory Daemon
  imports Util Requests
begin

text \<open>
  The daemon object of \<^verbatim>\<open>src/src/daemon/rpmostreed-daemon.cxx\<close>: its configuration file, the table of
  registered bus clients, and the idle exit timer. The record \<open>daemon\<close> also holds the fields of the sysroot
  object (\<^verbatim>\<open>rpmostreed-sysroot.cxx\<close>) and of the current transaction (\<^verbatim>\<open>rpmostreed-transaction.cxx\<close>), whose
  operations are in the theory \<open>Transaction\<close>. Main loop sources are a table of identifiers, so that
  removing a source twice is visible: GLib logs a critical message then. A transaction object lives as
  long as the sysroot (\<open>txn\<close>) or a worker thread refers to it; \<open>orphans\<close> are those that only a thread
  keeps alive. The result of the finished signal carries the error instead of its rendered message.
\<close>

section \<open>State\<close>

record invocation =
  inv_method :: string
  inv_params :: string
  inv_sender :: string
  inv_path :: string

record RpmostreedTransaction =
  t_id :: nat
  t_kind :: txn_kind
  t_invocation :: invocation
  t_address :: string
  t_title :: string
  t_executed :: bool
  t_cancelled :: bool
  t_sysroot :: bool
  t_sysroot_locked :: bool
  t_client_description :: string
  t_agent_id :: "string option"
  t_sd_unit :: "string option"
  t_peers :: "nat list"
  t_finished_params :: "(bool \<times> gerror option) option"
  t_running :: bool
  t_watch_id :: nat
  t_server_started :: bool
  t_reboot_requested :: bool
  t_closed_handlers :: nat

record RpmOstreeClient =
  c_id :: "string option"
  c_address :: string
  c_name_watch_id :: nat
  c_uid :: "u32 option"
  c_pid :: "u32 option"
  c_sd_unit :: "string option"

datatype main_source = Idle_Exit u32 | Rerender_Status | Force_Close

datatype txn_signal =
    Finished bool "gerror option"
  | Finished_on nat bool "gerror option"
  | Closed
  | Refresh_cached_update
  | Start_reply bool
  | Cancel_reply
  | Method_reply "string result"

record daemon =
  bus_clients :: "(string \<times> RpmOstreeClient) list"
  running :: bool
  rebooting :: bool
  idle_exit_source :: "nat option"
  rerender_status_id :: nat
  idle_exit_timeout :: u32
  auto_update_policy :: RpmostreedAutomaticUpdatePolicy
  lock_layering :: bool
  disable_recommends :: bool
  txn :: "RpmostreedTransaction option"
  orphans :: "RpmostreedTransaction list"
  close_transaction_timeout_id :: nat
  active_transaction :: "(string \<times> string \<times> string) option"
  active_transaction_path :: string
  sysroot_lock :: bool
  sources :: "(nat \<times> main_source) list"
  next_id :: nat
  status :: string
  criticals :: "string list"
  signals :: "txn_signal list"

text \<open>
  What the daemon reads from its surroundings: credentials and units of a bus name, the environment
  variable that turns idle exit off, the random part of the idle timeout, and the clock.
\<close>

record bus_env =
  connection_unix_user :: "string \<Rightarrow> u32 option"
  connection_unix_pid :: "string \<Rightarrow> u32 option"
  pid_user_unit :: "u32 \<Rightarrow> string option"
  pid_unit :: "u32 \<Rightarrow> string option"
  disable_idle_exit :: bool
  random_range :: u32
  ready_time :: u64
  cur_time :: u64

section \<open>Main loop sources\<close>

definition new_id :: "daemon \<Rightarrow> nat \<times> daemon" where
  "new_id d = (next_id d, d\<lparr>next_id := next_id d + 1\<rparr>)"

definition add_source :: "main_source \<Rightarrow> daemon \<Rightarrow> nat \<times> daemon" where
  "add_source k d = (next_id d, d\<lparr>sources := (next_id d, k) # sources d, next_id := next_id d + 1\<rparr>)"

definition source_destroy :: "nat \<Rightarrow> daemon \<Rightarrow> daemon" where
  "source_destroy i d = d\<lparr>sources := filter (\<lambda>(j, _). j \<noteq> i) (sources d)\<rparr>"

definition source_remove :: "nat \<Rightarrow> daemon \<Rightarrow> daemon" where
  "source_remove i d =
     (if i \<in> fst ` set (sources d) then source_destroy i d
      else d\<lparr>criticals := criticals d @ [''Source ID was not found when attempting to remove it'']\<rparr>)"

section \<open>Clients\<close>

definition rpmostree_client_to_string :: "RpmOstreeClient \<Rightarrow> string" where
  "rpmostree_client_to_string client =
     ''client('' @
     (case c_id client of Some i \<Rightarrow> ''id:'' @ i @ '' '' | None \<Rightarrow> []) @
     ''dbus'' @ c_address client @
     (case c_sd_unit client of Some u \<Rightarrow> '' unit:'' @ u | None \<Rightarrow> []) @
     (case c_uid client of Some uid \<Rightarrow> '' uid:'' @ show_nat (unat uid) | None \<Rightarrow> '' uid:<unknown>'') @
     '')''"

definition client_new :: "bus_env \<Rightarrow> string \<Rightarrow> string option \<Rightarrow> RpmOstreeClient" where
  "client_new env address client_id =
     \<lparr>c_id = client_id, c_address = address, c_name_watch_id = 0,
      c_uid = connection_unix_user env address,
      c_pid = connection_unix_pid env address,
      c_sd_unit = (case connection_unix_pid env address of
                     None \<Rightarrow> None
                   | Some pid \<Rightarrow> (case pid_user_unit env pid of Some u \<Rightarrow> Some u | None \<Rightarrow> pid_unit env pid))\<rparr>"

section \<open>Status and idle exit\<close>

definition have_active_txn :: "daemon \<Rightarrow> bool" where
  "have_active_txn d = (case active_transaction d of None \<Rightarrow> False | Some (method, _, _) \<Rightarrow> method \<noteq> [])"

definition currently_idle :: "bus_env \<Rightarrow> daemon \<Rightarrow> bool" where
  "currently_idle env d =
     (if \<not> disable_idle_exit env \<and> idle_exit_timeout d > 0
      then \<not> have_active_txn d \<and> length (bus_clients d) = 0 else False)"

definition arm_idle_exit :: "bus_env \<Rightarrow> daemon \<Rightarrow> daemon" where
  "arm_idle_exit env d =
     (let (i, d) = add_source (Idle_Exit (idle_exit_timeout d + random_range env)) d;
          d = d\<lparr>idle_exit_source := Some i\<rparr>;
          (r, d) = add_source Rerender_Status d
      in d\<lparr>rerender_status_id := r\<rparr>)"

definition disarm_idle_exit :: "nat \<Rightarrow> daemon \<Rightarrow> daemon" where
  "disarm_idle_exit i d =
     (let d = source_destroy i d; d = d\<lparr>idle_exit_source := None\<rparr>
      in source_remove (rerender_status_id d) d)"

definition update_status :: "bus_env \<Rightarrow> daemon \<Rightarrow> daemon result" where
  "update_status env d =
     (let n_clients = length (bus_clients d);
          idle = currently_idle env d;
          d = (case idle_exit_source d of
                 None \<Rightarrow> if idle then arm_idle_exit env d else d
               | Some i \<Rightarrow> if \<not> idle then disarm_idle_exit i d else d)
      in if have_active_txn d
         then (case active_transaction d of Some (method, sender, path) \<Rightarrow>
                 Inr (d\<lparr>status := ''STATUS=clients='' @ show_nat n_clients @ ''; txn='' @ method @
                           '' caller='' @ sender @ '' path='' @ path\<rparr>))
         else if n_clients > 0
         then Inr (d\<lparr>status := ''STATUS=clients='' @ show_nat n_clients @ ''; idle''\<rparr>)
         else if idle
         then (let timeout_micros = (if ready_time env < cur_time env then 0 else ready_time env - cur_time env)
               in if idle_exit_source d = None then Inl (Abort ''currently_idle && self->idle_exit_source'')
                  else Inr (d\<lparr>status := ''STATUS=clients='' @ show_nat n_clients @ ''; idle exit in '' @
                                show_nat (unat timeout_micros div 1000000) @ '' seconds''\<rparr>))
         else Inr d)"

definition idle_update_status :: "bus_env \<Rightarrow> daemon \<Rightarrow> daemon result" where
  "idle_update_status env d = update_status env d"

definition on_idle_exit :: "daemon \<Rightarrow> daemon" where
  "on_idle_exit d =
     (let d = (case idle_exit_source d of Some i \<Rightarrow> source_destroy i d | None \<Rightarrow> d)
      in d\<lparr>idle_exit_source := None, status := ''STATUS=Exiting due to idle'', running := False\<rparr>)"

definition rpmostreed_daemon_run_until_idle_exit :: "bus_env \<Rightarrow> daemon \<Rightarrow> daemon result" where
  "rpmostreed_daemon_run_until_idle_exit env d = update_status env (d\<lparr>running := True\<rparr>)"

definition rpmostreed_daemon_exit_now :: "daemon \<Rightarrow> daemon" where
  "rpmostreed_daemon_exit_now d = d\<lparr>running := False\<rparr>"

text \<open>The main loop sources that \<open>daemon_finalize\<close> takes down.\<close>

definition daemon_finalize :: "daemon \<Rightarrow> daemon" where
  "daemon_finalize d =
     (let d = d\<lparr>txn := None, bus_clients := [], idle_exit_source := None\<rparr>
      in if rerender_status_id d > 0 then source_remove (rerender_status_id d) d else d)"

section \<open>The client table\<close>

definition rpmostreed_daemon_add_client :: "bus_env \<Rightarrow> string \<Rightarrow> string option \<Rightarrow> daemon \<Rightarrow> daemon result" where
  "rpmostreed_daemon_add_client env client client_id d =
     (case map_of (bus_clients d) client of
        Some _ \<Rightarrow> Inr d
      | None \<Rightarrow>
          let (w, d) = new_id d;
              clientdata = (client_new env client client_id)\<lparr>c_name_watch_id := w\<rparr>
          in update_status env (d\<lparr>bus_clients := (c_address clientdata, clientdata) # bus_clients d\<rparr>))"

definition rpmostreed_daemon_remove_client :: "bus_env \<Rightarrow> string \<Rightarrow> daemon \<Rightarrow> daemon result" where
  "rpmostreed_daemon_remove_client env client d =
     (case map_of (bus_clients d) client of
        None \<Rightarrow> Inr d
      | Some _ \<Rightarrow> update_status env (d\<lparr>bus_clients := filter (\<lambda>(k, _). k \<noteq> client) (bus_clients d)\<rparr>))"

definition on_name_owner_changed ::
  "bus_env \<Rightarrow> string \<Rightarrow> string \<Rightarrow> string \<Rightarrow> string \<Rightarrow> string \<Rightarrow> string \<Rightarrow> daemon \<Rightarrow> daemon result" where
  "on_name_owner_changed env sender_name object_path interface_name name old_owner new_owner d =
     (if object_path \<noteq> ''/org/freedesktop/DBus'' \<or> interface_name \<noteq> ''org.freedesktop.DBus'' \<or>
         sender_name \<noteq> ''org.freedesktop.DBus'' then Inr d
      else if old_owner \<noteq> [] \<and> \<not> new_owner \<noteq> [] then rpmostreed_daemon_remove_client env name d
      else Inr d)"

definition rpmostreed_daemon_client_get_string :: "daemon \<Rightarrow> string \<Rightarrow> string" where
  "rpmostreed_daemon_client_get_string d client =
     (case map_of (bus_clients d) client of
        None \<Rightarrow> ''caller '' @ client
      | Some clientdata \<Rightarrow> rpmostree_client_to_string clientdata)"

definition rpmostreed_daemon_client_get_agent_id :: "daemon \<Rightarrow> string \<Rightarrow> string option" where
  "rpmostreed_daemon_client_get_agent_id d client =
     (case map_of (bus_clients d) client of
        None \<Rightarrow> None
      | Some clientdata \<Rightarrow>
          (case c_id clientdata of
             None \<Rightarrow> None
           | Some i \<Rightarrow> if i = ''cli'' then None else Some i))"

definition rpmostreed_daemon_client_get_sd_unit :: "bus_env \<Rightarrow> daemon \<Rightarrow> string \<Rightarrow> string option" where
  "rpmostreed_daemon_client_get_sd_unit env d client =
     (case map_of (bus_clients d) client of
        Some clientdata \<Rightarrow> c_sd_unit clientdata
      | None \<Rightarrow>
          (case connection_unix_pid env client of
             None \<Rightarrow> None
           | Some pid \<Rightarrow> (case pid_user_unit env pid of Some u \<Rightarrow> Some u | None \<Rightarrow> pid_unit env pid)))"

definition rpmostreed_daemon_reboot :: "daemon \<Rightarrow> daemon result" where
  "rpmostreed_daemon_reboot d =
     (if rebooting d then Inl (Abort ''!self->rebooting'') else Inr (d\<lparr>rebooting := True\<rparr>))"

section \<open>Configuration\<close>

text \<open>
  A loaded key file, as the results of the GLib accessors for the group \<open>Daemon\<close>. On a \<open>NULL\<close> key file
  \<open>g_key_file_get_boolean\<close> fails its precondition: it returns \<open>FALSE\<close> and sets no error.
\<close>

datatype key_file_error = KEY_NOT_FOUND | INVALID_VALUE | OTHER_KEY_ERROR

record key_file =
  kf_string :: "string \<Rightarrow> string option"
  kf_boolean :: "string \<Rightarrow> key_file_error + bool"
  kf_has_key :: "string \<Rightarrow> bool"
  kf_uint64 :: "string \<Rightarrow> key_file_error + u64"

datatype file_error = NOENT | OTHER_FILE_ERROR string

definition maybe_load_config_keyfile :: "file_error + key_file \<Rightarrow> key_file option result" where
  "maybe_load_config_keyfile loaded =
     (case loaded of
        Inr keyfile \<Rightarrow> Inr (Some keyfile)
      | Inl NOENT \<Rightarrow> Inr None
      | Inl (OTHER_FILE_ERROR e) \<Rightarrow> Inl (External e))"

definition get_config_str :: "key_file option \<Rightarrow> string \<Rightarrow> string option \<Rightarrow> string option" where
  "get_config_str keyfile key default_val =
     (case keyfile of
        None \<Rightarrow> default_val
      | Some kf \<Rightarrow> (case kf_string kf key of Some v \<Rightarrow> Some v | None \<Rightarrow> default_val))"

definition get_config_bool :: "key_file option \<Rightarrow> string \<Rightarrow> bool \<Rightarrow> bool" where
  "get_config_bool keyfile key default_val =
     (let r = (case keyfile of None \<Rightarrow> Inr False | Some kf \<Rightarrow> kf_boolean kf key)
      in case r of Inr b \<Rightarrow> b | Inl _ \<Rightarrow> default_val)"

definition get_config_uint64 :: "key_file option \<Rightarrow> string \<Rightarrow> u64 \<Rightarrow> u64" where
  "get_config_uint64 keyfile key default_val =
     (case keyfile of
        None \<Rightarrow> default_val
      | Some kf \<Rightarrow>
          if kf_has_key kf key
          then (case kf_uint64 kf key of Inr r \<Rightarrow> r | Inl _ \<Rightarrow> default_val)
          else default_val)"

definition ascii_strdown_inplace :: "string \<Rightarrow> string" where
  "ascii_strdown_inplace str = map ascii_lower str"

text \<open>The timeout is read as 64 bits and stored in a \<open>guint\<close>.\<close>

definition rpmostreed_daemon_reload_config :: "file_error + key_file \<Rightarrow> daemon \<Rightarrow> (daemon \<times> bool) result" where
  "rpmostreed_daemon_reload_config loaded d =
     bindR (maybe_load_config_keyfile loaded) (\<lambda>config.
       let timeout = get_config_uint64 config ''IdleExitTimeout'' 60 in
       bindR (case get_config_str config ''AutomaticUpdatePolicy'' None of
                None \<Rightarrow> Inr POLICY_NONE
              | Some s \<Rightarrow> rpmostree_str_to_auto_update_policy (ascii_strdown_inplace s)) (\<lambda>policy.
         let changed = (auto_update_policy d \<noteq> policy) in
         Inr (d\<lparr>idle_exit_timeout := ucast timeout,
               lock_layering := get_config_bool config ''LockLayering'' False,
               disable_recommends := \<not> get_config_bool config ''Recommends'' True,
               auto_update_policy := policy\<rparr>, changed)))"

section \<open>Well-formed main loop sources\<close>

text \<open>
  Source identifiers are positive and used once. While the idle timer is armed, its source is the only
  idle exit source and the status timer is attached.
\<close>

definition sources_ok :: "daemon \<Rightarrow> bool" where
  "sources_ok d \<longleftrightarrow> distinct (map fst (sources d)) \<and> 0 < next_id d \<and> (\<forall>(i, k) \<in> set (sources d). 0 < i \<and> i < next_id d)"

definition idle_source_ok :: "daemon \<Rightarrow> bool" where
  "idle_source_ok d \<longleftrightarrow>
     (\<forall>i secs. (i, Idle_Exit secs) \<in> set (sources d) \<longrightarrow> idle_exit_source d = Some i) \<and>
     (\<forall>i. idle_exit_source d = Some i \<longrightarrow>
        (\<exists>secs. (i, Idle_Exit secs) \<in> set (sources d)) \<and> (rerender_status_id d, Rerender_Status) \<in> set (sources d))"

definition force_close_ids :: "daemon \<Rightarrow> nat set" where
  "force_close_ids d = {i. (i, Force_Close) \<in> set (sources d)}"

lemma source_preds_update [simp]:
  "sources_ok (d\<lparr>orphans := x0\<rparr>) = sources_ok d" "idle_source_ok (d\<lparr>orphans := x0\<rparr>) = idle_source_ok d"
  "force_close_ids (d\<lparr>orphans := x0\<rparr>) = force_close_ids d"
  "sources_ok (d\<lparr>status := xstatus\<rparr>) = sources_ok d" "idle_source_ok (d\<lparr>status := xstatus\<rparr>) = idle_source_ok d"
  "force_close_ids (d\<lparr>status := xstatus\<rparr>) = force_close_ids d"
  "sources_ok (d\<lparr>running := xrunning\<rparr>) = sources_ok d" "idle_source_ok (d\<lparr>running := xrunning\<rparr>) = idle_source_ok d"
  "force_close_ids (d\<lparr>running := xrunning\<rparr>) = force_close_ids d"
  "sources_ok (d\<lparr>rebooting := xrebooting\<rparr>) = sources_ok d" "idle_source_ok (d\<lparr>rebooting := xrebooting\<rparr>) = idle_source_ok d"
  "force_close_ids (d\<lparr>rebooting := xrebooting\<rparr>) = force_close_ids d"
  "sources_ok (d\<lparr>bus_clients := xbus_clients\<rparr>) = sources_ok d" "idle_source_ok (d\<lparr>bus_clients := xbus_clients\<rparr>) = idle_source_ok d"
  "force_close_ids (d\<lparr>bus_clients := xbus_clients\<rparr>) = force_close_ids d"
  "sources_ok (d\<lparr>txn := xtxn\<rparr>) = sources_ok d" "idle_source_ok (d\<lparr>txn := xtxn\<rparr>) = idle_source_ok d"
  "force_close_ids (d\<lparr>txn := xtxn\<rparr>) = force_close_ids d"
  "sources_ok (d\<lparr>active_transaction := xactive_transaction\<rparr>) = sources_ok d" "idle_source_ok (d\<lparr>active_transaction := xactive_transaction\<rparr>) = idle_source_ok d"
  "force_close_ids (d\<lparr>active_transaction := xactive_transaction\<rparr>) = force_close_ids d"
  "sources_ok (d\<lparr>active_transaction_path := xactive_transaction_path\<rparr>) = sources_ok d" "idle_source_ok (d\<lparr>active_transaction_path := xactive_transaction_path\<rparr>) = idle_source_ok d"
  "force_close_ids (d\<lparr>active_transaction_path := xactive_transaction_path\<rparr>) = force_close_ids d"
  "sources_ok (d\<lparr>sysroot_lock := xsysroot_lock\<rparr>) = sources_ok d" "idle_source_ok (d\<lparr>sysroot_lock := xsysroot_lock\<rparr>) = idle_source_ok d"
  "force_close_ids (d\<lparr>sysroot_lock := xsysroot_lock\<rparr>) = force_close_ids d"
  "sources_ok (d\<lparr>signals := xsignals\<rparr>) = sources_ok d" "idle_source_ok (d\<lparr>signals := xsignals\<rparr>) = idle_source_ok d"
  "force_close_ids (d\<lparr>signals := xsignals\<rparr>) = force_close_ids d"
  "sources_ok (d\<lparr>close_transaction_timeout_id := xclose_transaction_timeout_id\<rparr>) = sources_ok d" "idle_source_ok (d\<lparr>close_transaction_timeout_id := xclose_transaction_timeout_id\<rparr>) = idle_source_ok d"
  "force_close_ids (d\<lparr>close_transaction_timeout_id := xclose_transaction_timeout_id\<rparr>) = force_close_ids d"
  "sources_ok (d\<lparr>criticals := xcriticals\<rparr>) = sources_ok d" "idle_source_ok (d\<lparr>criticals := xcriticals\<rparr>) = idle_source_ok d"
  "force_close_ids (d\<lparr>criticals := xcriticals\<rparr>) = force_close_ids d"
  by (simp_all add: sources_ok_def idle_source_ok_def force_close_ids_def)

text \<open>What the status update leaves alone.\<close>

definition without_status :: "daemon \<Rightarrow> daemon" where
  "without_status d = d\<lparr>idle_exit_source := None, rerender_status_id := 0, sources := [], next_id := 0, status := []\<rparr>"

definition status_frame :: "daemon \<Rightarrow> daemon \<Rightarrow> bool" where
  "status_frame d d' \<longleftrightarrow> without_status d' = without_status d \<and>
     force_close_ids d' = force_close_ids d \<and> next_id d \<le> next_id d' \<and>
     (\<forall>i \<in> fst ` set (sources d'). i \<in> fst ` set (sources d) \<or> next_id d \<le> i)"

lemma without_status_simps:
  "bus_clients (without_status d) = bus_clients d" "running (without_status d) = running d"
  "rebooting (without_status d) = rebooting d" "idle_exit_timeout (without_status d) = idle_exit_timeout d"
  "txn (without_status d) = txn d" "orphans (without_status d) = orphans d" "sysroot_lock (without_status d) = sysroot_lock d"
  "close_transaction_timeout_id (without_status d) = close_transaction_timeout_id d"
  "active_transaction (without_status d) = active_transaction d"
  "active_transaction_path (without_status d) = active_transaction_path d"
  "criticals (without_status d) = criticals d" "signals (without_status d) = signals d"
  by (simp_all add: without_status_def)

lemma status_frame_simps:
  assumes "status_frame d d'"
  shows "bus_clients d' = bus_clients d" "running d' = running d" "rebooting d' = rebooting d"
    "idle_exit_timeout d' = idle_exit_timeout d" "txn d' = txn d" "orphans d' = orphans d"
    "close_transaction_timeout_id d' = close_transaction_timeout_id d"
    "active_transaction d' = active_transaction d" "active_transaction_path d' = active_transaction_path d"
    "sysroot_lock d' = sysroot_lock d" "criticals d' = criticals d" "signals d' = signals d"
    "force_close_ids d' = force_close_ids d" "next_id d \<le> next_id d'"
    "\<forall>i \<in> fst ` set (sources d'). i \<in> fst ` set (sources d) \<or> next_id d \<le> i"
  using assms unfolding status_frame_def by (metis without_status_simps)+

lemma status_frame_refl: "status_frame d d"
  by (simp add: status_frame_def)

lemma status_frame_status: "status_frame d d' \<Longrightarrow> status_frame d (d'\<lparr>status := s\<rparr>)"
  by (simp add: status_frame_def without_status_def force_close_ids_def)

lemma arm_idle_exit_ok:
  assumes "sources_ok d" "idle_source_ok d" "idle_exit_source d = None" and d': "d' = arm_idle_exit env d"
  shows "sources_ok d' \<and> idle_source_ok d' \<and> status_frame d d' \<and> idle_exit_source d' \<noteq> None"
proof -
  let ?k = "Idle_Exit (idle_exit_timeout d + random_range env)"
  have d'': "d' = d\<lparr>sources := (next_id d + 1, Rerender_Status) # (next_id d, ?k) # sources d,
                  next_id := next_id d + 2, idle_exit_source := Some (next_id d), rerender_status_id := next_id d + 1\<rparr>"
    by (simp add: d' arm_idle_exit_def add_source_def Let_def)
  have "sources_ok d'" using assms(1) unfolding d'' sources_ok_def by fastforce
  moreover have "idle_source_ok d'" using assms(2,3) unfolding d'' idle_source_ok_def by auto
  moreover have "status_frame d d'"
    by (simp add: d'' status_frame_def without_status_def force_close_ids_def image_iff)
  ultimately show ?thesis by (simp add: d'')
qed

lemma disarm_idle_exit_ok:
  assumes "sources_ok d" "idle_source_ok d" "idle_exit_source d = Some i" and d': "d' = disarm_idle_exit i d"
  shows "sources_ok d' \<and> idle_source_ok d' \<and> status_frame d d' \<and> idle_exit_source d' = None"
proof -
  obtain secs where i: "(i, Idle_Exit secs) \<in> set (sources d)"
    and r: "(rerender_status_id d, Rerender_Status) \<in> set (sources d)"
    using assms(2,3) by (auto simp: idle_source_ok_def)
  let ?c = "filter (\<lambda>(j, _). j \<noteq> rerender_status_id d) (filter (\<lambda>(j, _). j \<noteq> i) (sources d))"
  have uniq: "(j, k) \<in> set (sources d) \<Longrightarrow> (j, k') \<in> set (sources d) \<Longrightarrow> k = k'" for j k k'
    using assms(1) by (auto simp: sources_ok_def dest: eq_key_imp_eq_value)
  have ne: "rerender_status_id d \<noteq> i" using uniq [OF i] r by auto
  then have "rerender_status_id d \<in> fst ` set (filter (\<lambda>(j, _). j \<noteq> i) (sources d))" using r by force
  then have d'': "d' = d\<lparr>sources := ?c, idle_exit_source := None\<rparr>"
    by (simp add: d' disarm_idle_exit_def source_destroy_def source_remove_def)
  have "sources_ok d'" using assms(1) unfolding d'' sources_ok_def
    by (auto simp: distinct_map_filter)
  moreover have "idle_source_ok d'"
    using assms(2,3) unfolding d'' idle_source_ok_def by auto
  moreover have "(j, Force_Close) \<in> set (sources d) \<Longrightarrow> j \<noteq> i \<and> j \<noteq> rerender_status_id d" for j
    using uniq [OF i] uniq [OF r] by blast
  then have "status_frame d d'"
    by (auto simp: d'' status_frame_def without_status_def force_close_ids_def)
  moreover have "idle_exit_source d' = None" by (simp add: d'')
  ultimately show ?thesis by blast
qed

text \<open>
  A status update never fails its assertion; afterwards the idle timer is armed only if the daemon is
  idle, that is, without transaction and without clients.
\<close>

lemma update_status_ok:
  assumes "sources_ok d" "idle_source_ok d"
  shows "\<exists>d'. update_status env d = Inr d' \<and> sources_ok d' \<and> idle_source_ok d' \<and> status_frame d d' \<and>
     (idle_exit_source d' \<noteq> None \<longleftrightarrow> currently_idle env d)"
proof -
  define d1 where "d1 = (case idle_exit_source d of
                 None \<Rightarrow> if currently_idle env d then arm_idle_exit env d else d
               | Some i \<Rightarrow> if \<not> currently_idle env d then disarm_idle_exit i d else d)"
  have d1: "sources_ok d1 \<and> idle_source_ok d1 \<and> status_frame d d1 \<and> (idle_exit_source d1 \<noteq> None \<longleftrightarrow> currently_idle env d)"
  proof (cases "idle_exit_source d")
    case None
    then show ?thesis
      using assms arm_idle_exit_ok [OF assms None refl, of env] status_frame_refl [of d]
      by (cases "currently_idle env d") (simp_all add: d1_def)
  next
    case (Some i)
    then show ?thesis
      using assms disarm_idle_exit_ok [OF assms Some refl] status_frame_refl [of d]
      by (cases "currently_idle env d") (simp_all add: d1_def)
  qed
  have *: "sources_ok (d1\<lparr>status := x\<rparr>) \<and> idle_source_ok (d1\<lparr>status := x\<rparr>) \<and> status_frame d (d1\<lparr>status := x\<rparr>) \<and>
      (idle_exit_source (d1\<lparr>status := x\<rparr>) \<noteq> None \<longleftrightarrow> currently_idle env d)" for x
    using d1 status_frame_status [of d d1] by simp
  have idle: "idle_exit_source d1 \<noteq> None" if "currently_idle env d" using d1 that by blast
  have "update_status env d = Inr d1 \<or> (\<exists>x. update_status env d = Inr (d1\<lparr>status := x\<rparr>))"
  proof (cases "have_active_txn d1")
    case True
    then obtain m sn pth where "active_transaction d1 = Some (m, sn, pth)"
      by (auto simp: have_active_txn_def split: option.splits prod.splits)
    with True show ?thesis
      unfolding update_status_def Let_def d1_def [symmetric] by auto
  next
    case False
    with idle show ?thesis
      unfolding update_status_def Let_def d1_def [symmetric] by auto
  qed
  with d1 * show ?thesis by blast
qed

text \<open>
  With no configuration file, the recommended dependencies are off although the compiled default is on: the
  accessor for booleans does not check for the missing key file.
\<close>

theorem reload_config_missing_file:
  "rpmostreed_daemon_reload_config (Inl NOENT) d =
     Inr (d\<lparr>idle_exit_timeout := 60, lock_layering := False, disable_recommends := True,
            auto_update_policy := POLICY_NONE\<rparr>, auto_update_policy d \<noteq> POLICY_NONE)"
  by (simp add: rpmostreed_daemon_reload_config_def maybe_load_config_keyfile_def get_config_uint64_def
      get_config_str_def get_config_bool_def)

text \<open>
  Going idle and busy again and then shutting down removes the status timer twice: the identifier is not
  reset when the timer is taken down.
\<close>

definition fresh_daemon :: daemon where
  "fresh_daemon = \<lparr>bus_clients = [], running = False, rebooting = False, idle_exit_source = None,
     rerender_status_id = 0, idle_exit_timeout = 60, auto_update_policy = POLICY_NONE, lock_layering = False,
     disable_recommends = False, txn = None, orphans = [], close_transaction_timeout_id = 0, active_transaction = None,
     active_transaction_path = [], sysroot_lock = False, sources = [], next_id = 1, status = [],
     criticals = [], signals = []\<rparr>"

definition quiet_env :: bus_env where
  "quiet_env = \<lparr>connection_unix_user = (\<lambda>_. Some 0), connection_unix_pid = (\<lambda>_. None), pid_user_unit = (\<lambda>_. None),
     pid_unit = (\<lambda>_. None), disable_idle_exit = False, random_range = 0, ready_time = 60000000, cur_time = 0\<rparr>"

lemmas daemon_evals = fresh_daemon_def quiet_env_def rpmostreed_daemon_run_until_idle_exit_def
  rpmostreed_daemon_add_client_def update_status_def currently_idle_def have_active_txn_def arm_idle_exit_def
  disarm_idle_exit_def add_source_def new_id_def source_remove_def source_destroy_def client_new_def
  daemon_finalize_def

lemma finalize_removes_source_twice:
  "case bindR (rpmostreed_daemon_run_until_idle_exit quiet_env fresh_daemon)
          (rpmostreed_daemon_add_client quiet_env '':1.5'' None) of
     Inr d \<Rightarrow> criticals d = [] \<and> length (criticals (daemon_finalize d)) = 1
   | Inl _ \<Rightarrow> False"
  by (simp add: daemon_evals)

end
