(* ===== verification/Transaction.thy ===== *)
theory Transaction
  imports Daemon
begin

text \<open>
  The life of a transaction: creation and locking, the private bus connections of its clients, the worker
  thread and its completion (\<^verbatim>\<open>src/src/daemon/rpmostreed-transaction.cxx\<close>), and how the sysroot object keeps the
  one current transaction (\<open>rpmostreed_sysroot_prep_for_txn\<close>, \<open>_set_txn\<close>, \<open>_finish_txn\<close> and the forced close, in
  \<^verbatim>\<open>src/src/daemon/rpmostreed-sysroot.cxx\<close>).
\<close>

section \<open>Object life\<close>

definition unlock_sysroot :: "RpmostreedTransaction \<Rightarrow> daemon \<Rightarrow> RpmostreedTransaction \<times> daemon" where
  "unlock_sysroot t d =
     (if \<not> (t_sysroot t \<and> t_sysroot_locked t) then (t, d)
      else (t\<lparr>t_sysroot_locked := False\<rparr>, d\<lparr>sysroot_lock := False\<rparr>))"

text \<open>Dropping the last reference to the \<open>OstreeSysroot\<close> of the transaction releases a lock it holds.\<close>

definition transaction_dispose :: "RpmostreedTransaction \<Rightarrow> daemon \<Rightarrow> RpmostreedTransaction \<times> daemon" where
  "transaction_dispose t d =
     (t\<lparr>t_peers := [], t_sysroot := False, t_server_started := False, t_finished_params := None\<rparr>,
      if t_sysroot t \<and> t_sysroot_locked t then d\<lparr>sysroot_lock := False\<rparr> else d)"

definition transaction_finalize :: "RpmostreedTransaction \<Rightarrow> daemon \<Rightarrow> RpmostreedTransaction \<times> daemon" where
  "transaction_finalize t d =
     (let (t, d) = unlock_sysroot t d
      in (if t_watch_id t > 0 then t\<lparr>t_watch_id := 0\<rparr> else t, d))"

definition transaction_unref :: "RpmostreedTransaction \<Rightarrow> daemon \<Rightarrow> daemon" where
  "transaction_unref t d =
     (let (t, d) = transaction_dispose t d; (t, d) = transaction_finalize t d in d)"

section \<open>The current transaction of the sysroot\<close>

definition rpmostreed_transaction_is_compatible :: "RpmostreedTransaction \<Rightarrow> invocation \<Rightarrow> bool" where
  "rpmostreed_transaction_is_compatible t invocation \<longleftrightarrow>
     inv_method (t_invocation t) = inv_method invocation \<and> inv_params (t_invocation t) = inv_params invocation"

definition rpmostreed_sysroot_prep_for_txn :: "invocation \<Rightarrow> daemon \<Rightarrow> RpmostreedTransaction option result" where
  "rpmostreed_sysroot_prep_for_txn invocation d =
     (if rebooting d then Inl (Throw ''Reboot initiated, cannot start new transaction'' [])
      else case txn d of
             Some t \<Rightarrow>
               if rpmostreed_transaction_is_compatible t invocation then Inr (Some t)
               else Inl (Throw (''Transaction in progress: %s'' @ [CHR 0x0A] @ '' You can cancel the current transaction with `rpm-ostree cancel`'') [t_title t])
           | None \<Rightarrow> Inr None)"

definition rpmostreed_sysroot_has_txn :: "daemon \<Rightarrow> bool" where
  "rpmostreed_sysroot_has_txn d \<longleftrightarrow> txn d \<noteq> None"

definition on_active_txn_changed :: "bus_env \<Rightarrow> daemon \<Rightarrow> daemon result" where
  "on_active_txn_changed env d = update_status env d"

definition clear_close_timer :: "daemon \<Rightarrow> daemon" where
  "clear_close_timer d =
     (if close_transaction_timeout_id d > 0
      then (source_remove (close_transaction_timeout_id d) d)\<lparr>close_transaction_timeout_id := 0\<rparr>
      else d)"

text \<open>The sysroot gives up its reference; a running worker thread still holds one.\<close>

definition drop_txn :: "RpmostreedTransaction \<Rightarrow> daemon \<Rightarrow> daemon" where
  "drop_txn t d = (if t_running t then d\<lparr>orphans := t # orphans d\<rparr> else transaction_unref t d)"

definition rpmostreed_sysroot_set_txn :: "bus_env \<Rightarrow> RpmostreedTransaction option \<Rightarrow> daemon \<Rightarrow> daemon result" where
  "rpmostreed_sysroot_set_txn env new d =
     (let d = clear_close_timer d
      in case new of
           Some t \<Rightarrow>
             if txn d \<noteq> None then Inl (Abort ''self->transaction == NULL'')
             else let invoc = t_invocation t;
                      d = d\<lparr>txn := Some t,
                            active_transaction := Some (inv_method invoc, inv_sender invoc, inv_path invoc)\<rparr>
                  in bindR (on_active_txn_changed env d) (\<lambda>d. Inr (d\<lparr>active_transaction_path := t_address t\<rparr>))
         | None \<Rightarrow>
             (case txn d of
                None \<Rightarrow> Inl (Abort ''self->transaction'')
              | Some t \<Rightarrow>
                  let d = drop_txn t (d\<lparr>txn := None\<rparr>)
                  in bindR (on_active_txn_changed env (d\<lparr>active_transaction := Some ([], [], [])\<rparr>))
                       (\<lambda>d. Inr (d\<lparr>active_transaction_path := []\<rparr>))))"

definition rpmostreed_sysroot_set_txn_and_title ::
  "bus_env \<Rightarrow> RpmostreedTransaction \<Rightarrow> string \<Rightarrow> daemon \<Rightarrow> daemon result" where
  "rpmostreed_sysroot_set_txn_and_title env t title d =
     rpmostreed_sysroot_set_txn env (Some (t\<lparr>t_title := title\<rparr>)) d"

definition rpmostreed_sysroot_finish_txn :: "bus_env \<Rightarrow> nat \<Rightarrow> daemon \<Rightarrow> daemon result" where
  "rpmostreed_sysroot_finish_txn env i d =
     (if map_option t_id (txn d) = Some i then rpmostreed_sysroot_set_txn env None d
      else Inl (Abort ''self->transaction == txn''))"

definition on_txn_executed_changed :: "RpmostreedTransaction \<Rightarrow> daemon \<Rightarrow> daemon" where
  "on_txn_executed_changed t d =
     (if t_executed t \<and> close_transaction_timeout_id d = 0
      then let (i, d) = add_source Force_Close d in d\<lparr>close_transaction_timeout_id := i\<rparr>
      else d)"

section \<open>Creation\<close>

text \<open>
  The system calls of \<open>transaction_initable_init\<close> and libostree, each with its error if it fails;
  \<open>io_try_lock\<close> tells whether another process leaves the sysroot lock free.
\<close>

record txn_io =
  io_unlink :: "string option"
  io_server :: "gerror + string"
  io_chmod :: "string option"
  io_sysroot_initialize :: "gerror option"
  io_sysroot_load :: "gerror option"
  io_failpoint_lock :: "gerror option"
  io_try_lock :: "gerror + bool"

definition transaction_constructed ::
  "bus_env \<Rightarrow> txn_kind \<Rightarrow> invocation \<Rightarrow> daemon \<Rightarrow> RpmostreedTransaction \<times> daemon" where
  "transaction_constructed env kind invoc d =
     (let (i, d) = new_id d; (w, d) = new_id d
      in (\<lparr>t_id = i, t_kind = kind, t_invocation = invoc, t_address = [], t_title = [], t_executed = False,
           t_cancelled = False, t_sysroot = False, t_sysroot_locked = False,
           t_client_description = rpmostreed_daemon_client_get_string d (inv_sender invoc),
           t_agent_id = rpmostreed_daemon_client_get_agent_id d (inv_sender invoc),
           t_sd_unit = rpmostreed_daemon_client_get_sd_unit env d (inv_sender invoc),
           t_peers = [], t_finished_params = None, t_running = False, t_watch_id = w,
           t_server_started = False, t_reboot_requested = False, t_closed_handlers = 0\<rparr>, d))"

definition transaction_initable_init ::
  "txn_io \<Rightarrow> RpmostreedTransaction \<Rightarrow> daemon \<Rightarrow> unit result \<times> RpmostreedTransaction \<times> daemon" where
  "transaction_initable_init io t d =
     (case io_unlink io of Some e \<Rightarrow> (Inl (Prefixed ''Failed to unlink'' (External e)), t, d) | None \<Rightarrow>
     (case io_server io of Inl e \<Rightarrow> (Inl e, t, d) | Inr addr \<Rightarrow>
     (let t = t\<lparr>t_address := addr\<rparr> in
      case io_chmod io of Some e \<Rightarrow> (Inl (Prefixed ''Failed to chmod'' (External e)), t, d) | None \<Rightarrow>
     (let t = t\<lparr>t_sysroot := True\<rparr> in
      case io_sysroot_initialize io of Some e \<Rightarrow> (Inl e, t, d) | None \<Rightarrow>
     (case io_sysroot_load io of Some e \<Rightarrow> (Inl e, t, d) | None \<Rightarrow>
     (case io_failpoint_lock io of Some e \<Rightarrow> (Inl e, t, d) | None \<Rightarrow>
     (case io_try_lock io of Inl e \<Rightarrow> (Inl e, t, d) | Inr free \<Rightarrow>
        if \<not> (free \<and> \<not> sysroot_lock d)
        then (Inl (Throw ''System transaction in progress'' []), t, d)
        else (Inr (), t\<lparr>t_sysroot_locked := True, t_server_started := True\<rparr>, d\<lparr>sysroot_lock := True\<rparr>))))))))"

text \<open>\<open>g_initable_new\<close>: on failure the half-made object goes away again.\<close>

definition rpmostreed_transaction_new ::
  "bus_env \<Rightarrow> txn_io \<Rightarrow> txn_kind \<Rightarrow> invocation \<Rightarrow> daemon \<Rightarrow> (RpmostreedTransaction result \<times> daemon) result" where
  "rpmostreed_transaction_new env io kind invoc d =
     (if rpmostreed_sysroot_has_txn d then Inl (Abort ''!rpmostreed_sysroot_has_txn'')
      else let (t, d) = transaction_constructed env kind invoc d
           in case transaction_initable_init io t d of
                (Inr _, t, d) \<Rightarrow> Inr (Inr t, d)
              | (Inl e, t, d) \<Rightarrow> Inr (Inl e, transaction_unref t d))"

section \<open>Handlers and callbacks\<close>

definition rpmostreed_transaction_get_active :: "RpmostreedTransaction \<Rightarrow> bool" where
  "rpmostreed_transaction_get_active t \<longleftrightarrow> t_finished_params t = None"

definition lookup_txn :: "nat \<Rightarrow> daemon \<Rightarrow> RpmostreedTransaction option" where
  "lookup_txn i d = find (\<lambda>t. t_id t = i) ((case txn d of Some t \<Rightarrow> [t] | None \<Rightarrow> []) @ orphans d)"

definition put_txn :: "RpmostreedTransaction \<Rightarrow> daemon \<Rightarrow> daemon" where
  "put_txn t d =
     (if map_option t_id (txn d) = Some (t_id t) then d\<lparr>txn := Some t\<rparr>
      else d\<lparr>orphans := map (\<lambda>u. if t_id u = t_id t then t else u) (orphans d)\<rparr>)"

definition emit :: "txn_signal \<Rightarrow> daemon \<Rightarrow> daemon" where
  "emit s d = d\<lparr>signals := signals d @ [s]\<rparr>"

text \<open>
  The signal \<open>closed\<close>, with the handlers \<open>on_auto_update_done\<close> of \<^verbatim>\<open>rpmostreed-os.cxx\<close> that were connected to it.
\<close>

definition emit_closed :: "RpmostreedTransaction \<Rightarrow> daemon \<Rightarrow> daemon" where
  "emit_closed t d = d\<lparr>signals := signals d @ Closed # replicate (t_closed_handlers t) Refresh_cached_update\<rparr>"

definition connect_closed :: "nat \<Rightarrow> daemon \<Rightarrow> daemon" where
  "connect_closed i d =
     (case lookup_txn i d of
        Some t \<Rightarrow> put_txn (t\<lparr>t_closed_handlers := t_closed_handlers t + 1\<rparr>) d
      | None \<Rightarrow> d)"

definition transaction_maybe_emit_closed :: "bus_env \<Rightarrow> RpmostreedTransaction \<Rightarrow> daemon \<Rightarrow> daemon result" where
  "transaction_maybe_emit_closed env t d =
     (if rpmostreed_transaction_get_active t then Inr d
      else if length (t_peers t) > 0 then Inr d
      else rpmostreed_sysroot_finish_txn env (t_id t) (emit_closed t d))"

definition transaction_connection_closed_cb ::
  "bus_env \<Rightarrow> nat \<Rightarrow> RpmostreedTransaction \<Rightarrow> daemon \<Rightarrow> daemon result" where
  "transaction_connection_closed_cb env connection t d =
     (let t = t\<lparr>t_peers := removeAll connection (t_peers t)\<rparr>
      in transaction_maybe_emit_closed env t (put_txn t d))"

definition transaction_new_connection_cb :: "bool \<Rightarrow> nat \<Rightarrow> RpmostreedTransaction \<Rightarrow> daemon \<Rightarrow> daemon" where
  "transaction_new_connection_cb exported connection t d =
     (if \<not> exported then d
      else put_txn (t\<lparr>t_peers := List.insert connection (t_peers t)\<rparr>) d)"

definition transaction_owner_vanished_cb :: "bus_env \<Rightarrow> RpmostreedTransaction \<Rightarrow> daemon \<Rightarrow> daemon result" where
  "transaction_owner_vanished_cb env t d =
     (if t_watch_id t > 0
      then let t = t\<lparr>t_watch_id := 0\<rparr>
           in rpmostreed_sysroot_finish_txn env (t_id t) (emit_closed t (put_txn t d))
      else Inr d)"

definition transaction_handle_cancel :: "RpmostreedTransaction \<Rightarrow> daemon \<Rightarrow> daemon" where
  "transaction_handle_cancel t d = emit Cancel_reply (put_txn (t\<lparr>t_cancelled := True\<rparr>) d)"

definition transaction_handle_start :: "nat \<Rightarrow> RpmostreedTransaction \<Rightarrow> daemon \<Rightarrow> daemon" where
  "transaction_handle_start connection t d =
     (let started = t_watch_id t > 0;
          t = (if started then t\<lparr>t_watch_id := 0, t_running := True\<rparr> else t);
          d = emit (Start_reply started) (put_txn t d)
      in case t_finished_params t of
           Some (success, msg) \<Rightarrow> emit (Finished_on connection success msg) d
         | None \<Rightarrow> d)"

text \<open>
  The worker thread: the outcome of the failpoint and of the subclass method, which returns or lets an
  exception escape. The result is an error or the boolean that the task completes with.
\<close>

datatype exec_outcome = Returned bool "gerror option" | Exception string

definition transaction_execute_thread :: "string option \<Rightarrow> exec_outcome \<Rightarrow> gerror + bool" where
  "transaction_execute_thread failpoint exec =
     (let (success, local_error) =
            (case failpoint of
               Some e \<Rightarrow> (False, Some (Throw ''%s'' [e]))
             | None \<Rightarrow> (case exec of
                          Returned b err \<Rightarrow> (b, err)
                        | Exception e \<Rightarrow> (False, Some (Throw ''%s'' [e]))))
      in case local_error of Some e \<Rightarrow> Inl e | None \<Rightarrow> Inr success)"

text \<open>\<open>reload\<close> is the outcome of \<open>rpmostreed_sysroot_reload\<close>, called only after success.\<close>

definition transaction_execute_done_cb ::
  "bus_env \<Rightarrow> gerror + bool \<Rightarrow> unit result \<Rightarrow> RpmostreedTransaction \<Rightarrow> daemon \<Rightarrow> daemon result" where
  "transaction_execute_done_cb env result reload t d =
     (let (success, local_error) =
            (case result of
               Inl e \<Rightarrow> (False, Some e)
             | Inr False \<Rightarrow> (False, None)
             | Inr True \<Rightarrow> (case reload of Inr _ \<Rightarrow> (True, None) | Inl e \<Rightarrow> (False, Some e)));
          d = emit (Finished success local_error) d;
          t = t\<lparr>t_finished_params := Some (success, local_error), t_executed := True, t_running := False\<rparr>;
          (t, d) = unlock_sysroot t d;
          d = on_txn_executed_changed t (put_txn t d)
      in transaction_maybe_emit_closed env t d)"

definition rpmostreed_transaction_force_close :: "RpmostreedTransaction \<Rightarrow> RpmostreedTransaction result" where
  "rpmostreed_transaction_force_close t =
     (if \<not> t_executed t then Inl (Abort ''priv->executed'')
      else Inr (t\<lparr>t_server_started := False, t_peers := []\<rparr>))"

text \<open>Returning \<open>FALSE\<close> from the timeout drops its source if the handler has not.\<close>

definition on_force_close :: "bus_env \<Rightarrow> nat \<Rightarrow> daemon \<Rightarrow> daemon result" where
  "on_force_close env source d =
     bindR (case txn d of
              None \<Rightarrow> Inr d
            | Some t \<Rightarrow>
                bindR (rpmostreed_transaction_force_close t) (\<lambda>t.
                  rpmostreed_sysroot_set_txn env None (put_txn t d)))
       (\<lambda>d. Inr (source_destroy source d))"

text \<open>
  The shape that every transaction-starting method of the OS interface has: join a compatible
  transaction, or load the state, create one, make it the current one, and reply with its address.
  \<open>connect_joined\<close> and \<open>connect_new\<close> say whether the handler for the signal \<open>closed\<close> is connected to a transaction
  that is joined or created.
\<close>

definition merge_or_start_txn ::
  "bus_env \<Rightarrow> txn_io \<Rightarrow> unit result \<Rightarrow> txn_kind result \<Rightarrow> string \<Rightarrow> bool \<Rightarrow> bool \<Rightarrow> invocation \<Rightarrow> daemon \<Rightarrow> daemon result" where
  "merge_or_start_txn env io load_state kind title connect_joined connect_new invoc d =
     (case rpmostreed_sysroot_prep_for_txn invoc d of
        Inl e \<Rightarrow> Inr (emit (Method_reply (Inl e)) d)
      | Inr (Some t) \<Rightarrow>
          Inr (emit (Method_reply (Inr (t_address t))) (if connect_joined then connect_closed (t_id t) d else d))
      | Inr None \<Rightarrow>
          (case load_state of
             Inl e \<Rightarrow> Inr (emit (Method_reply (Inl e)) d)
           | Inr _ \<Rightarrow>
               (case kind of
                  Inl e \<Rightarrow> Inr (emit (Method_reply (Inl e)) d)
                | Inr kind \<Rightarrow>
                    bindR (rpmostreed_transaction_new env io kind invoc d) (\<lambda>(new, d).
                      case new of
                        Inl e \<Rightarrow> Inr (emit (Method_reply (Inl e)) d)
                      | Inr t \<Rightarrow>
                          bindR (rpmostreed_sysroot_set_txn_and_title env t title d)
                            (\<lambda>d. Inr (emit (Method_reply (Inr (t_address t)))
                                        (if connect_new then connect_closed (t_id t) d else d)))))))"

end
