(* ===== verification/Daemon_Machine.thy ===== *)
theory Daemon_Machine
  imports Transaction
begin

text \<open>
  The daemon as an event machine: bus method calls, the callbacks of a transaction, the worker thread and
  the timers, in any order the main loop may run them. The invariant ties the current transaction, the
  sysroot lock, the timers and the idle state together; every assertion of the handlers is a branch that
  stops the process, and is shown not to be taken.
\<close>

section \<open>Events\<close>

datatype event =
    Method_call bus_env txn_io "unit result" "txn_kind result" string bool bool invocation
  | Start nat nat
  | Cancel nat
  | New_connection nat nat bool
  | Connection_closed bus_env nat nat
  | Owner_vanished bus_env nat
  | Thread_reboot nat
  | Thread_done bus_env nat "string option" exec_outcome "unit result"
  | Force_close_timeout bus_env nat
  | Idle_exit_timeout nat
  | Rerender_timeout bus_env nat
  | Register_client bus_env string "string option"
  | Unregister_client bus_env string
  | Name_owner_changed bus_env string string string string string string
  | Reload_config "file_error + key_file"
  | Answered_call "string result"

text \<open>
  When an event can occur. A method call carries a method name; some calls are answered without touching a transaction. A transaction receives events while its
  object is alive: calls come over an open peer connection, the bus name is watched until \<open>Start\<close>, and the
  thread runs between \<open>Start\<close> and its completion, asking for a reboot at most once. A timer fires while its
  source is attached.
\<close>

fun enabled :: "event \<Rightarrow> daemon \<Rightarrow> bool" where
  "enabled (Method_call env io load kind title joined new invoc) d = (inv_method invoc \<noteq> [])"
| "enabled (Start i c) d = (case lookup_txn i d of Some t \<Rightarrow> c \<in> set (t_peers t) | None \<Rightarrow> False)"
| "enabled (Cancel i) d = (lookup_txn i d \<noteq> None)"
| "enabled (New_connection i c exported) d = (case lookup_txn i d of Some t \<Rightarrow> t_server_started t | None \<Rightarrow> False)"
| "enabled (Connection_closed env i c) d = (case lookup_txn i d of Some t \<Rightarrow> c \<in> set (t_peers t) | None \<Rightarrow> False)"
| "enabled (Owner_vanished env i) d = (case lookup_txn i d of Some t \<Rightarrow> t_watch_id t > 0 | None \<Rightarrow> False)"
| "enabled (Thread_reboot i) d = (case lookup_txn i d of Some t \<Rightarrow> t_running t \<and> \<not> t_reboot_requested t | None \<Rightarrow> False)"
| "enabled (Thread_done env i failpoint exec reload) d = (case lookup_txn i d of Some t \<Rightarrow> t_running t | None \<Rightarrow> False)"
| "enabled (Force_close_timeout env s) d = ((s, Force_Close) \<in> set (sources d))"
| "enabled (Idle_exit_timeout s) d = list_ex (\<lambda>(i, k). i = s \<and> (case k of Idle_Exit secs \<Rightarrow> True | _ \<Rightarrow> False)) (sources d)"
| "enabled (Rerender_timeout env s) d = ((s, Rerender_Status) \<in> set (sources d))"
| "enabled (Register_client env c cid) d = True"
| "enabled (Unregister_client env c) d = True"
| "enabled (Name_owner_changed env sn p i n old new) d = True"
| "enabled (Reload_config loaded) d = True"
| "enabled (Answered_call r) d = True"

definition with_txn :: "nat \<Rightarrow> (RpmostreedTransaction \<Rightarrow> daemon \<Rightarrow> daemon result) \<Rightarrow> daemon \<Rightarrow> daemon result" where
  "with_txn i f d = (case lookup_txn i d of Some t \<Rightarrow> f t d | None \<Rightarrow> Inr d)"

text \<open>A failing configuration reload is reported to the caller and leaves the daemon as it was.\<close>

fun step :: "event \<Rightarrow> daemon \<Rightarrow> daemon result" where
  "step (Method_call env io load kind title joined new invoc) d = merge_or_start_txn env io load kind title joined new invoc d"
| "step (Start i c) d = with_txn i (\<lambda>t d. Inr (transaction_handle_start c t d)) d"
| "step (Cancel i) d = with_txn i (\<lambda>t d. Inr (transaction_handle_cancel t d)) d"
| "step (New_connection i c exported) d = with_txn i (\<lambda>t d. Inr (transaction_new_connection_cb exported c t d)) d"
| "step (Connection_closed env i c) d = with_txn i (transaction_connection_closed_cb env c) d"
| "step (Owner_vanished env i) d = with_txn i (transaction_owner_vanished_cb env) d"
| "step (Thread_reboot i) d =
     with_txn i (\<lambda>t d. rpmostreed_daemon_reboot (put_txn (t\<lparr>t_reboot_requested := True\<rparr>) d)) d"
| "step (Thread_done env i failpoint exec reload) d =
     with_txn i (transaction_execute_done_cb env (transaction_execute_thread failpoint exec) reload) d"
| "step (Force_close_timeout env s) d = on_force_close env s d"
| "step (Idle_exit_timeout s) d = Inr (on_idle_exit d)"
| "step (Rerender_timeout env s) d = idle_update_status env d"
| "step (Register_client env c cid) d = rpmostreed_daemon_add_client env c cid d"
| "step (Unregister_client env c) d = rpmostreed_daemon_remove_client env c d"
| "step (Name_owner_changed env sn p i n old new) d = on_name_owner_changed env sn p i n old new d"
| "step (Reload_config loaded) d =
     (case rpmostreed_daemon_reload_config loaded d of Inr (d, _) \<Rightarrow> Inr d | Inl _ \<Rightarrow> Inr d)"
| "step (Answered_call r) d = Inr (emit (Method_reply r) d)"

text \<open>The daemon starts its main loop without transaction and without clients.\<close>

definition started :: "daemon \<Rightarrow> bool" where
  "started d \<longleftrightarrow>
     (\<exists>env timeout. rpmostreed_daemon_run_until_idle_exit env (fresh_daemon\<lparr>idle_exit_timeout := timeout\<rparr>) = Inr d)"

section \<open>The invariant\<close>

text \<open>
  A transaction waits for \<open>Start\<close>, runs, or has been executed; it holds the sysroot lock until it has been
  executed.
\<close>

definition txn_ok :: "RpmostreedTransaction \<Rightarrow> bool" where
  "txn_ok t \<longleftrightarrow>
     t_sysroot t \<and> t_sysroot_locked t = (\<not> t_executed t) \<and>
     (t_executed t \<longleftrightarrow> t_finished_params t \<noteq> None) \<and>
     (t_running t \<longleftrightarrow> t_watch_id t = 0 \<and> \<not> t_executed t) \<and>
     (t_executed t \<longrightarrow> t_watch_id t = 0)"

definition active_of :: "RpmostreedTransaction \<Rightarrow> string \<times> string \<times> string" where
  "active_of t = (inv_method (t_invocation t), inv_sender (t_invocation t), inv_path (t_invocation t))"

definition timers_ok :: "daemon \<Rightarrow> bool" where
  "timers_ok d \<longleftrightarrow> sources_ok d \<and> idle_source_ok d \<and> criticals d = [] \<and>
     force_close_ids d = (if close_transaction_timeout_id d > 0 then {close_transaction_timeout_id d} else {})"

definition current_ok :: "daemon \<Rightarrow> bool" where
  "current_ok d \<longleftrightarrow>
     (case txn d of
        None \<Rightarrow> \<not> have_active_txn d \<and> close_transaction_timeout_id d = 0 \<and> \<not> sysroot_lock d
      | Some t \<Rightarrow>
          txn_ok t \<and> active_transaction d = Some (active_of t) \<and> inv_method (t_invocation t) \<noteq> [] \<and>
          (close_transaction_timeout_id d > 0 \<longleftrightarrow> t_executed t) \<and> sysroot_lock d = t_sysroot_locked t \<and>
          (rebooting d \<longrightarrow> t_reboot_requested t))"

definition invariant :: "daemon \<Rightarrow> bool" where
  "invariant d \<longleftrightarrow> timers_ok d \<and> orphans d = [] \<and> current_ok d \<and>
     (idle_exit_source d \<noteq> None \<longrightarrow> \<not> have_active_txn d \<and> bus_clients d = [])"

section \<open>Preservation\<close>

lemma timers_ok_status:
  assumes "timers_ok d"
  shows "\<exists>d'. update_status env d = Inr d' \<and> timers_ok d' \<and> status_frame d d' \<and>
     (idle_exit_source d' \<noteq> None \<longleftrightarrow> currently_idle env d)"
proof -
  from assms have "sources_ok d" "idle_source_ok d" by (auto simp: timers_ok_def)
  from update_status_ok [OF this, of env] obtain d' where
    "update_status env d = Inr d'" "sources_ok d'" "idle_source_ok d'" and frame: "status_frame d d'"
    and "idle_exit_source d' \<noteq> None \<longleftrightarrow> currently_idle env d" by blast
  moreover have "timers_ok d'"
    using assms calculation status_frame_simps [OF frame] by (simp add: timers_ok_def)
  ultimately show ?thesis by blast
qed

lemma timers_ok_update [simp]:
  "timers_ok (d\<lparr>txn := t\<rparr>) = timers_ok d" "timers_ok (d\<lparr>active_transaction := a\<rparr>) = timers_ok d"
  "timers_ok (d\<lparr>active_transaction_path := p\<rparr>) = timers_ok d" "timers_ok (d\<lparr>sysroot_lock := l\<rparr>) = timers_ok d"
  "timers_ok (d\<lparr>orphans := os\<rparr>) = timers_ok d" "timers_ok (d\<lparr>signals := ss\<rparr>) = timers_ok d"
  "timers_ok (d\<lparr>rebooting := b\<rparr>) = timers_ok d" "timers_ok (d\<lparr>bus_clients := cs\<rparr>) = timers_ok d"
  by (simp_all add: timers_ok_def)

lemma have_active_txn_update [simp]:
  "have_active_txn (d\<lparr>txn := t\<rparr>) = have_active_txn d" "have_active_txn (d\<lparr>rebooting := b\<rparr>) = have_active_txn d"
  "have_active_txn (d\<lparr>sysroot_lock := b\<rparr>) = have_active_txn d" "have_active_txn (d\<lparr>bus_clients := cs\<rparr>) = have_active_txn d"
  "have_active_txn (d\<lparr>close_transaction_timeout_id := i\<rparr>) = have_active_txn d"
  by (simp_all add: have_active_txn_def)

lemma have_active_frame: "status_frame d d' \<Longrightarrow> have_active_txn d' = have_active_txn d"
  by (simp add: have_active_txn_def status_frame_simps(8))

lemma idle_source_okD:
  "idle_source_ok d \<Longrightarrow> (i, Idle_Exit secs) \<in> set (sources d) \<Longrightarrow> idle_exit_source d = Some i"
  "idle_source_ok d \<Longrightarrow> idle_exit_source d = Some i \<Longrightarrow> \<exists>secs. (i, Idle_Exit secs) \<in> set (sources d)"
  "idle_source_ok d \<Longrightarrow> idle_exit_source d = Some i \<Longrightarrow> (rerender_status_id d, Rerender_Status) \<in> set (sources d)"
  unfolding idle_source_ok_def by blast+

lemma idle_source_ok_remove:
  assumes "idle_source_ok d" and c: "\<And>k. (c, k) \<in> set (sources d) \<Longrightarrow> k = Force_Close"
  shows "idle_source_ok (source_destroy c d)"
  unfolding idle_source_ok_def
proof (intro conjI allI impI)
  fix i secs
  assume "(i, Idle_Exit secs) \<in> set (sources (source_destroy c d))"
  then have "(i, Idle_Exit secs) \<in> set (sources d)" by (simp add: source_destroy_def)
  from idle_source_okD(1) [OF assms(1) this]
  show "idle_exit_source (source_destroy c d) = Some i" by (simp add: source_destroy_def)
next
  fix i
  assume "idle_exit_source (source_destroy c d) = Some i"
  then have "idle_exit_source d = Some i" by (simp add: source_destroy_def)
  from idle_source_okD(2,3) [OF assms(1) this]
  obtain secs where s: "(i, Idle_Exit secs) \<in> set (sources d)"
    and r: "(rerender_status_id d, Rerender_Status) \<in> set (sources d)" by blast
  have "i \<noteq> c" "rerender_status_id d \<noteq> c" using c s r by blast+
  with s r show "\<exists>secs. (i, Idle_Exit secs) \<in> set (sources (source_destroy c d))"
    "(rerender_status_id (source_destroy c d), Rerender_Status) \<in> set (sources (source_destroy c d))"
    by (auto simp: source_destroy_def)
qed

lemma sources_ok_remove: "sources_ok d \<Longrightarrow> sources_ok (source_destroy c d)"
  unfolding sources_ok_def source_destroy_def by (auto simp: distinct_map_filter)

lemma clear_close_timer_ok:
  assumes "timers_ok d" and d': "d' = clear_close_timer d"
  shows "timers_ok d'" "close_transaction_timeout_id d' = 0"
    "d' = d\<lparr>sources := sources d', close_transaction_timeout_id := 0\<rparr>"
    "close_transaction_timeout_id d > 0 \<Longrightarrow> close_transaction_timeout_id d \<notin> fst ` set (sources d')"
proof -
  let ?c = "close_transaction_timeout_id d"
  have ok: "sources_ok d" "idle_source_ok d" "criticals d = []"
    and ids: "force_close_ids d = (if ?c > 0 then {?c} else {})"
    using assms(1) by (auto simp: timers_ok_def)
  have "timers_ok d' \<and> d' = d\<lparr>sources := sources d', close_transaction_timeout_id := 0\<rparr>"
  proof (cases "?c > 0")
    case True
    then have fc: "(?c, Force_Close) \<in> set (sources d)" using ids by (auto simp: force_close_ids_def)
    then have "?c \<in> fst ` set (sources d)" by force
    with True have eq: "d' = (source_destroy ?c d)\<lparr>close_transaction_timeout_id := 0\<rparr>"
      by (simp add: d' clear_close_timer_def source_remove_def)
    have "k = Force_Close" if "(?c, k) \<in> set (sources d)" for k
      using eq_key_imp_eq_value [OF _ that fc] ok(1) by (simp add: sources_ok_def)
    then have "idle_source_ok d'" using idle_source_ok_remove [OF ok(2)] by (simp add: eq)
    moreover have "sources_ok d'" using sources_ok_remove [OF ok(1)] by (simp add: eq)
    moreover have "force_close_ids d' = {}"
      using ids True by (auto simp: eq force_close_ids_def source_destroy_def)
    ultimately show ?thesis using ok(3) by (simp add: timers_ok_def eq source_destroy_def)
  next
    case False
    then show ?thesis using assms(1) by (simp add: d' clear_close_timer_def)
  qed
  then show "timers_ok d'" "d' = d\<lparr>sources := sources d', close_transaction_timeout_id := 0\<rparr>" by auto
  show "close_transaction_timeout_id d' = 0" by (simp add: d' clear_close_timer_def)
  show "?c > 0 \<Longrightarrow> ?c \<notin> fst ` set (sources d')"
    unfolding d' clear_close_timer_def source_remove_def source_destroy_def by auto
qed

lemma current_ok_frame: "status_frame d d' \<Longrightarrow> current_ok d' = current_ok d"
  by (simp add: current_ok_def have_active_frame status_frame_simps cong: option.case_cong)

text \<open>A status update restores the idle clause of the invariant whatever it was before.\<close>

lemma update_status_invariant:
  assumes "timers_ok d" "orphans d = []" "current_ok d"
  shows "\<exists>d'. update_status env d = Inr d' \<and> invariant d' \<and> status_frame d d'"
proof -
  from timers_ok_status [OF assms(1), of env] obtain d' where
    u: "update_status env d = Inr d'" "timers_ok d'" and f: "status_frame d d'"
    and i: "idle_exit_source d' \<noteq> None \<longleftrightarrow> currently_idle env d" by blast
  have "idle_exit_source d' \<noteq> None \<longrightarrow> \<not> have_active_txn d' \<and> bus_clients d' = []"
    using i by (auto simp: currently_idle_def have_active_frame [OF f] status_frame_simps [OF f] split: if_splits)
  then have "invariant d'"
    using u(2) assms current_ok_frame [OF f] status_frame_simps(6) [OF f] by (simp add: invariant_def)
  with u(1) f show ?thesis by blast
qed

lemma invariant_signals [simp]:
  "invariant (d\<lparr>signals := s\<rparr>) = invariant d" "invariant (d\<lparr>active_transaction_path := p\<rparr>) = invariant d"
  "invariant (emit x d) = invariant d" "invariant (emit_closed t d) = invariant d"
  by (simp_all add: invariant_def current_ok_def have_active_txn_def emit_def emit_closed_def cong: option.case_cong)

lemma emit_simps [simp]:
  "txn (emit x d) = txn d" "rebooting (emit x d) = rebooting d" "orphans (emit x d) = orphans d"
  "close_transaction_timeout_id (emit x d) = close_transaction_timeout_id d" "sysroot_lock (emit x d) = sysroot_lock d"
  "timers_ok (emit x d) = timers_ok d"
  "txn (emit_closed t d) = txn d" "rebooting (emit_closed t d) = rebooting d" "orphans (emit_closed t d) = orphans d"
  "sysroot_lock (emit_closed t d) = sysroot_lock d" "timers_ok (emit_closed t d) = timers_ok d"
  by (simp_all add: emit_def emit_closed_def)

lemma set_txn_Some_ok:
  assumes "timers_ok d" "orphans d = []" "txn d = None" "close_transaction_timeout_id d = 0"
    "txn_ok t" "\<not> t_executed t" "inv_method (t_invocation t) \<noteq> []" "sysroot_lock d" "\<not> rebooting d"
  shows "\<exists>d'. rpmostreed_sysroot_set_txn env (Some t) d = Inr d' \<and> invariant d' \<and> txn d' = Some t \<and> signals d' = signals d"
proof -
  let ?d = "d\<lparr>txn := Some t, active_transaction := Some (active_of t)\<rparr>"
  have "current_ok ?d" using assms by (simp add: current_ok_def txn_ok_def)
  then obtain d' where "update_status env ?d = Inr d'" "invariant d'" and f: "status_frame ?d d'"
    using update_status_invariant [of ?d env] assms by auto
  then show ?thesis
    using assms status_frame_simps(5,12) [OF f]
    by (simp add: rpmostreed_sysroot_set_txn_def clear_close_timer_def Let_def on_active_txn_changed_def
        active_of_def)
qed

lemma set_txn_None_ok:
  assumes "timers_ok d" "orphans d = []" "txn d = Some t" "\<not> t_running t"
    "sysroot_lock d = t_sysroot_locked t" "t_sysroot t"
  shows "\<exists>d'. rpmostreed_sysroot_set_txn env None d = Inr d' \<and> invariant d' \<and> txn d' = None \<and>
     rebooting d' = rebooting d \<and> \<not> sysroot_lock d' \<and>
     (\<forall>s \<in> force_close_ids d. s \<notin> fst ` set (sources d'))"
proof -
  define d1 where "d1 = clear_close_timer d"
  note d1 = clear_close_timer_ok [OF assms(1) d1_def]
  let ?d = "d1\<lparr>txn := None, sysroot_lock := False, active_transaction := Some ([], [], [])\<rparr>"
  have sel: "txn d1 = Some t" "sysroot_lock d1 = t_sysroot_locked t" "orphans d1 = []" "rebooting d1 = rebooting d"
    using assms by (subst d1(3), simp)+
  have "drop_txn t (d1\<lparr>txn := None\<rparr>) = d1\<lparr>txn := None, sysroot_lock := False\<rparr>"
    using assms sel by (simp add: drop_txn_def transaction_unref_def transaction_dispose_def
        transaction_finalize_def unlock_sysroot_def)
  moreover have "current_ok ?d" using d1 by (simp add: current_ok_def have_active_txn_def)
  then obtain d' where "update_status env ?d = Inr d'" "invariant d'" and f: "status_frame ?d d'"
    using update_status_invariant [of ?d env] d1(1) sel by auto
  moreover have "s \<notin> fst ` set (sources d')" if "s \<in> force_close_ids d" for s
  proof -
    have "s = close_transaction_timeout_id d" "s > 0" "s < next_id d"
      using assms(1) that by (auto simp: timers_ok_def sources_ok_def force_close_ids_def split: if_splits)
    moreover have "next_id d1 = next_id d" by (subst d1(3)) simp
    ultimately show ?thesis using d1(4) bspec [OF status_frame_simps(15) [OF f], of s] by fastforce
  qed
  ultimately show ?thesis
    using status_frame_simps(3,5,10) [OF f] sel
    by (simp add: rpmostreed_sysroot_set_txn_def d1_def [symmetric] Let_def on_active_txn_changed_def)
qed

lemma timers_ok_next_id: "timers_ok d \<Longrightarrow> next_id d \<le> n \<Longrightarrow> timers_ok (d\<lparr>next_id := n\<rparr>)"
proof -
  assume "timers_ok d" and n: "next_id d \<le> n"
  moreover have "idle_source_ok (d\<lparr>next_id := n\<rparr>) = idle_source_ok d" "force_close_ids (d\<lparr>next_id := n\<rparr>) = force_close_ids d"
    by (simp_all add: idle_source_ok_def force_close_ids_def)
  moreover have "sources_ok d \<Longrightarrow> sources_ok (d\<lparr>next_id := n\<rparr>)" using n by (fastforce simp: sources_ok_def)
  ultimately show ?thesis by (simp add: timers_ok_def)
qed

lemma current_ok_next_id [simp]: "current_ok (d\<lparr>next_id := n\<rparr>) = current_ok d"
  by (simp add: current_ok_def have_active_txn_def cong: option.case_cong)

lemma invariant_next_id: "invariant d \<Longrightarrow> next_id d \<le> n \<Longrightarrow> invariant (d\<lparr>next_id := n\<rparr>)"
  by (simp add: invariant_def timers_ok_next_id have_active_txn_def)

lemma transaction_initable_init_cases:
  assumes "transaction_initable_init io t d = (r, t', d')" "\<not> t_sysroot_locked t"
  shows "(case r of Inl e \<Rightarrow> d' = d \<and> \<not> t_sysroot_locked t'
     | Inr _ \<Rightarrow> d' = d\<lparr>sysroot_lock := True\<rparr> \<and> \<not> sysroot_lock d \<and>
         (\<exists>addr. t' = t\<lparr>t_address := addr, t_sysroot := True, t_sysroot_locked := True, t_server_started := True\<rparr>))"
  using assms by (simp add: transaction_initable_init_def Let_def split: option.splits sum.splits if_splits) auto

lemma transaction_new_ok:
  assumes "txn d = None" "\<not> sysroot_lock d" "next_id d > 0"
  shows "\<exists>r d'. rpmostreed_transaction_new env io kind invoc d = Inr (r, d') \<and>
     (case r of Inl e \<Rightarrow> d' = d\<lparr>next_id := next_id d + 2\<rparr>
      | Inr t \<Rightarrow> d' = d\<lparr>next_id := next_id d + 2, sysroot_lock := True\<rparr> \<and> txn_ok t \<and> \<not> t_executed t \<and>
          t_invocation t = invoc \<and> t_kind t = kind)"
proof -
  obtain t where t: "transaction_constructed env kind invoc d = (t, d\<lparr>next_id := next_id d + 2\<rparr>)"
    and init: "\<not> t_sysroot_locked t" "\<not> t_sysroot t" "\<not> t_executed t" "t_finished_params t = None"
      "\<not> t_running t" "t_watch_id t > 0" "t_invocation t = invoc" "t_kind t = kind"
    by (simp add: transaction_constructed_def new_id_def)
  obtain r t' d' where r: "transaction_initable_init io t (d\<lparr>next_id := next_id d + 2\<rparr>) = (r, t', d')"
    by (metis prod_cases3)
  note c = transaction_initable_init_cases [OF r init(1)]
  show ?thesis
  proof (cases r)
    case (Inl e)
    then have "transaction_unref t' d' = d\<lparr>next_id := next_id d + 2\<rparr>"
      using c by (simp add: transaction_unref_def transaction_dispose_def transaction_finalize_def unlock_sysroot_def Let_def)
    with Inl show ?thesis using assms t r
      by (simp add: rpmostreed_transaction_new_def rpmostreed_sysroot_has_txn_def)
  next
    case (Inr u)
    with c obtain addr where t': "t' = t\<lparr>t_address := addr, t_sysroot := True, t_sysroot_locked := True, t_server_started := True\<rparr>"
      and d': "d' = d\<lparr>next_id := next_id d + 2, sysroot_lock := True\<rparr>" by auto
    have "txn_ok t'" using init by (simp add: t' txn_ok_def)
    moreover have "rpmostreed_transaction_new env io kind invoc d = Inr (Inr t', d')"
      using assms t r Inr by (simp add: rpmostreed_transaction_new_def rpmostreed_sysroot_has_txn_def)
    ultimately show ?thesis using init(3,7,8) by (auto simp: t' d')
  qed
qed

lemma invariant_no_txn:
  assumes "invariant d" "txn d = None"
  shows "\<not> sysroot_lock d" "next_id d > 0" "close_transaction_timeout_id d = 0"
  using assms by (simp_all add: invariant_def current_ok_def timers_ok_def sources_ok_def)

text \<open>Events of the current transaction.\<close>

lemma lookup_txn_current:
  "invariant d \<Longrightarrow> lookup_txn i d = Some t \<longleftrightarrow> txn d = Some t \<and> t_id t = i"
  by (auto simp: invariant_def lookup_txn_def split: option.splits)

lemma put_txn_current: "txn d = Some t \<Longrightarrow> t_id t' = t_id t \<Longrightarrow> put_txn t' d = d\<lparr>txn := Some t'\<rparr>"
  by (simp add: put_txn_def)

lemma txn_okD:
  assumes "txn_ok t"
  shows "t_sysroot t" "t_sysroot_locked t = (\<not> t_executed t)" "t_finished_params t = None \<longleftrightarrow> \<not> t_executed t"
    "t_running t \<longleftrightarrow> t_watch_id t = 0 \<and> \<not> t_executed t" "t_executed t \<Longrightarrow> t_watch_id t = 0"
  using assms unfolding txn_ok_def by blast+

lemma current_txnD:
  assumes "invariant d" "txn d = Some t"
  shows "timers_ok d" "orphans d = []" "txn_ok t" "sysroot_lock d = t_sysroot_locked t" "t_sysroot t"
    "close_transaction_timeout_id d > 0 \<longleftrightarrow> t_executed t" "rebooting d \<longrightarrow> t_reboot_requested t"
    "active_transaction d = Some (active_of t)" "idle_exit_source d = None"
  using assms by (auto simp: invariant_def current_ok_def txn_ok_def have_active_txn_def active_of_def)

lemma invariant_put:
  assumes "invariant d" "txn d = Some t" "txn_ok t'" "t_invocation t' = t_invocation t"
    "t_executed t' = t_executed t" "t_reboot_requested t \<longrightarrow> t_reboot_requested t'"
  shows "invariant (d\<lparr>txn := Some t'\<rparr>)"
proof -
  have "t_sysroot_locked t' = t_sysroot_locked t" "active_of t' = active_of t"
    using assms(4,5) txn_okD(2) [OF assms(3)] txn_okD(2) [OF current_txnD(3) [OF assms(1,2)]]
    by (simp_all add: active_of_def)
  then show ?thesis
    using assms by (simp add: invariant_def current_ok_def)
qed

lemma connect_closed_ok:
  assumes "invariant d"
  shows "invariant (connect_closed i d)"
proof (cases "lookup_txn i d")
  case (Some t)
  then have t: "txn d = Some t" using lookup_txn_current [OF assms] by blast
  then show ?thesis
    using invariant_put [OF assms t, of "t\<lparr>t_closed_handlers := t_closed_handlers t + 1\<rparr>"] current_txnD(3) [OF assms t] Some
    by (simp add: connect_closed_def put_txn_current txn_ok_def)
qed (use assms in \<open>simp add: connect_closed_def\<close>)

text \<open>Only the count of handlers changes.\<close>

lemma connect_closed_current:
  assumes "invariant d" "txn d = Some t"
  shows "\<exists>n. connect_closed (t_id t) d = d\<lparr>txn := Some (t\<lparr>t_closed_handlers := n\<rparr>)\<rparr>"
  using assms lookup_txn_current [OF assms(1), of "t_id t" t] by (auto simp: connect_closed_def put_txn_current)

text \<open>What a reply says: the address is that of the current transaction, which was started by an equal call.\<close>

definition reply_ok :: "txn_kind result \<Rightarrow> invocation \<Rightarrow> daemon \<Rightarrow> daemon \<Rightarrow> string result \<Rightarrow> bool" where
  "reply_ok kind invoc d d' r =
     (case r of
        Inl e \<Rightarrow> txn d' = txn d
      | Inr address \<Rightarrow> (case txn d' of None \<Rightarrow> False | Some t \<Rightarrow>
          t_address t = address \<and> rpmostreed_transaction_is_compatible t invoc \<and>
          (txn d = None \<longrightarrow> kind = Inr (t_kind t))))"

lemma new_transaction_reply:
  assumes "invariant d" "inv_method invoc \<noteq> []" "txn d = None" "\<not> rebooting d"
    and "txn_ok t" "\<not> t_executed t" "t_invocation t = invoc" "t_kind t = k"
  shows "\<exists>d1. rpmostreed_sysroot_set_txn env (Some (t\<lparr>t_title := title\<rparr>)) (d\<lparr>next_id := next_id d + 2, sysroot_lock := True\<rparr>) = Inr d1 \<and>
    (\<forall>d'. d' = emit (Method_reply (Inr (t_address t))) (if new then connect_closed (t_id t) d1 else d1) \<longrightarrow>
      invariant d' \<and> signals d' = signals d @ [Method_reply (Inr (t_address t))] \<and> reply_ok (Inr k) invoc d d' (Inr (t_address t)))"
proof -
  let ?d = "d\<lparr>next_id := next_id d + 2, sysroot_lock := True\<rparr>" and ?t = "t\<lparr>t_title := title\<rparr>"
  have "timers_ok ?d" using assms(1) by (simp add: invariant_def timers_ok_next_id)
  moreover have "txn_ok ?t" using assms(5) by (simp add: txn_ok_def)
  ultimately obtain d1 where d1: "rpmostreed_sysroot_set_txn env (Some ?t) ?d = Inr d1" "invariant d1" "txn d1 = Some ?t"
    "signals d1 = signals d"
    using set_txn_Some_ok [of ?d ?t env] assms invariant_no_txn(3) [OF assms(1,3)] by (auto simp: invariant_def)
  moreover obtain n where "connect_closed (t_id t) d1 = d1\<lparr>txn := Some (?t\<lparr>t_closed_handlers := n\<rparr>)\<rparr>"
    using connect_closed_current [OF d1(2,3)] by auto
  ultimately show ?thesis using assms(7,8) connect_closed_ok [OF d1(2), of "t_id t"]
    by (auto simp: reply_ok_def rpmostreed_transaction_is_compatible_def emit_def)
qed

lemma method_call_reply:
  assumes "invariant d" "inv_method invoc \<noteq> []"
  shows "\<exists>d' r. merge_or_start_txn env io load kind title joined new invoc d = Inr d' \<and> invariant d' \<and>
    signals d' = signals d @ [Method_reply r] \<and> reply_ok kind invoc d d' r"
proof (cases "rpmostreed_sysroot_prep_for_txn invoc d")
  case (Inl e)
  then show ?thesis using assms(1) by (auto simp: merge_or_start_txn_def reply_ok_def emit_def)
next
  case (Inr prep)
  show ?thesis
  proof (cases prep)
    case (Some t)
    then have t: "txn d = Some t" "rpmostreed_transaction_is_compatible t invoc"
      using Inr by (auto simp: rpmostreed_sysroot_prep_for_txn_def split: if_splits option.splits)
    obtain n where "connect_closed (t_id t) d = d\<lparr>txn := Some (t\<lparr>t_closed_handlers := n\<rparr>)\<rparr>"
      using connect_closed_current [OF assms(1) t(1)] by blast
    then show ?thesis using assms(1) connect_closed_ok [OF assms(1), of "t_id t"] t Inr Some
      by (auto simp: merge_or_start_txn_def reply_ok_def emit_def rpmostreed_transaction_is_compatible_def)
  next
    case None
    then have d: "txn d = None" "\<not> rebooting d"
      using Inr by (auto simp: rpmostreed_sysroot_prep_for_txn_def split: if_splits option.splits)
    note no = invariant_no_txn [OF assms(1) d(1)]
    show ?thesis
    proof (cases "load = Inr () \<and> \<not> isl kind")
      case False
      then show ?thesis using assms(1) Inr None
        by (cases load; cases kind) (auto simp: merge_or_start_txn_def reply_ok_def emit_def)
    next
      case True
      then obtain k where kind: "kind = Inr k" by (cases kind) auto
      obtain r d1 where r: "rpmostreed_transaction_new env io k invoc d = Inr (r, d1)"
        and c: "case r of Inl e \<Rightarrow> d1 = d\<lparr>next_id := next_id d + 2\<rparr>
          | Inr t \<Rightarrow> d1 = d\<lparr>next_id := next_id d + 2, sysroot_lock := True\<rparr> \<and> txn_ok t \<and> \<not> t_executed t \<and>
              t_invocation t = invoc \<and> t_kind t = k"
        using transaction_new_ok [OF d(1) no(1,2), of env io k invoc] by (elim exE conjE)
      note start = True kind r c Inr None
      show ?thesis
      proof (cases r)
        case (Inl e)
        then show ?thesis using start invariant_next_id [OF assms(1), of "next_id d + 2"]
          by (auto simp: merge_or_start_txn_def reply_ok_def emit_def)
      next
        case (Inr t)
        then show ?thesis using new_transaction_reply [OF assms d, of t k env title new] start
          by (auto simp: merge_or_start_txn_def rpmostreed_sysroot_set_txn_and_title_def)
      qed
    qed
  qed
qed

lemma method_call_ok:
  assumes "invariant d" "inv_method invoc \<noteq> []"
  shows "\<exists>d'. merge_or_start_txn env io load kind title joined new invoc d = Inr d' \<and> invariant d'"
  using method_call_reply [OF assms, of env io load kind title joined new] by blast

lemma finish_txn_ok:
  assumes "invariant d" "txn d = Some t" "\<not> t_running t" "t' = t\<lparr>t_watch_id := w, t_peers := ps, t_server_started := sv\<rparr>"
  shows "\<exists>d'. rpmostreed_sysroot_finish_txn env (t_id t) (emit_closed t' (d\<lparr>txn := Some t'\<rparr>)) = Inr d' \<and> invariant d' \<and>
    txn d' = None \<and> \<not> sysroot_lock d'"
  using set_txn_None_ok [of "emit_closed t' (d\<lparr>txn := Some t'\<rparr>)" t' env] current_txnD [OF assms(1,2)] assms(3,4)
  by (auto simp: rpmostreed_sysroot_finish_txn_def)

lemma maybe_emit_closed_ok:
  assumes "invariant d" "txn d = Some t"
  shows "\<exists>d'. transaction_maybe_emit_closed env t d = Inr d' \<and> invariant d'"
proof (cases "t_executed t \<and> t_peers t = []")
  case True
  note ok = txn_okD [OF current_txnD(3) [OF assms]]
  have nr: "\<not> t_running t" using True ok(4) by blast
  have eq: "t = t\<lparr>t_watch_id := t_watch_id t, t_peers := t_peers t, t_server_started := t_server_started t\<rparr>" by simp
  have "d\<lparr>txn := Some t\<rparr> = d" using assms(2) by simp
  with finish_txn_ok [OF assms nr eq, of env] True ok(3) show ?thesis
    by (auto simp: transaction_maybe_emit_closed_def rpmostreed_transaction_get_active_def)
next
  case False
  then show ?thesis
    using assms(1) txn_okD(3) [OF current_txnD(3) [OF assms]]
    by (auto simp: transaction_maybe_emit_closed_def rpmostreed_transaction_get_active_def)
qed

lemma connection_closed_ok:
  assumes "invariant d" "txn d = Some t"
  shows "\<exists>d'. transaction_connection_closed_cb env c t d = Inr d' \<and> invariant d'"
proof -
  let ?t = "t\<lparr>t_peers := removeAll c (t_peers t)\<rparr>"
  have "invariant (d\<lparr>txn := Some ?t\<rparr>)"
    using invariant_put [OF assms, of ?t] current_txnD(3) [OF assms] by (simp add: txn_ok_def)
  then show ?thesis
    using maybe_emit_closed_ok [of "d\<lparr>txn := Some ?t\<rparr>" ?t env] assms
    by (simp add: transaction_connection_closed_cb_def Let_def put_txn_current)
qed

lemma owner_vanished_ok:
  assumes "invariant d" "txn d = Some t"
  shows "\<exists>d'. transaction_owner_vanished_cb env t d = Inr d' \<and> invariant d'"
proof (cases "t_watch_id t > 0")
  case True
  note ok = current_txnD [OF assms]
  from True have nr: "\<not> t_running t" using ok(3) by (simp add: txn_ok_def)
  have eq: "t\<lparr>t_watch_id := 0\<rparr> = t\<lparr>t_watch_id := 0, t_peers := t_peers t, t_server_started := t_server_started t\<rparr>"
    by simp
  show ?thesis
    using finish_txn_ok [OF assms nr eq, of env] True assms(2)
    by (auto simp: transaction_owner_vanished_cb_def put_txn_current)
next
  case False
  then show ?thesis using assms by (simp add: transaction_owner_vanished_cb_def)
qed

lemma handle_start_ok:
  assumes "invariant d" "txn d = Some t"
  shows "invariant (transaction_handle_start c t d)"
proof -
  let ?t = "if t_watch_id t > 0 then t\<lparr>t_watch_id := 0, t_running := True\<rparr> else t"
  have ok: "txn_ok t" using current_txnD(3) [OF assms] .
  moreover have "\<not> t_executed t" if "t_watch_id t > 0" using txn_okD(5) [OF ok] that by auto
  ultimately have "txn_ok ?t" by (cases "t_watch_id t > 0") (simp_all add: txn_ok_def)
  then have "invariant (d\<lparr>txn := Some ?t\<rparr>)"
    by (intro invariant_put [OF assms]) simp_all
  moreover have "put_txn ?t d = d\<lparr>txn := Some ?t\<rparr>" using assms by (simp add: put_txn_current)
  ultimately show ?thesis
    by (cases "t_watch_id t > 0") (simp_all add: transaction_handle_start_def Let_def split: option.splits prod.splits)
qed

lemma new_connection_ok:
  assumes "invariant d" "txn d = Some t"
  shows "invariant (transaction_new_connection_cb exported c t d)"
  using invariant_put [OF assms, of "t\<lparr>t_peers := List.insert c (t_peers t)\<rparr>"] assms current_txnD(3) [OF assms]
  by (simp add: transaction_new_connection_cb_def put_txn_current txn_ok_def)

lemma handle_cancel_ok:
  assumes "invariant d" "txn d = Some t"
  shows "invariant (transaction_handle_cancel t d)"
  using invariant_put [OF assms, of "t\<lparr>t_cancelled := True\<rparr>"] assms current_txnD(3) [OF assms]
  by (simp add: transaction_handle_cancel_def put_txn_current txn_ok_def)

lemma reboot_ok:
  assumes "invariant d" "txn d = Some t" "\<not> t_reboot_requested t"
  shows "\<exists>d'. rpmostreed_daemon_reboot (put_txn (t\<lparr>t_reboot_requested := True\<rparr>) d) = Inr d' \<and> invariant d'"
proof -
  let ?t = "t\<lparr>t_reboot_requested := True\<rparr>"
  have "invariant (d\<lparr>txn := Some ?t\<rparr>)"
    using invariant_put [OF assms(1,2), of ?t] current_txnD(3) [OF assms(1,2)] by (simp add: txn_ok_def)
  then have "invariant (d\<lparr>txn := Some ?t, rebooting := True\<rparr>)"
    by (simp add: invariant_def current_ok_def)
  then show ?thesis
    using assms current_txnD(7) [OF assms(1,2)] by (simp add: rpmostreed_daemon_reboot_def put_txn_current)
qed

lemma timers_ok_add_force_close:
  assumes "timers_ok d" "close_transaction_timeout_id d = 0"
  shows "timers_ok (d\<lparr>sources := (next_id d, Force_Close) # sources d, next_id := next_id d + 1,
    close_transaction_timeout_id := next_id d\<rparr>)" (is "timers_ok ?d")
proof -
  have ok: "sources_ok d" "idle_source_ok d" "criticals d = []" "force_close_ids d = {}"
    using assms by (simp_all add: timers_ok_def)
  have "sources_ok ?d" using ok(1) by (fastforce simp: sources_ok_def)
  moreover have "idle_source_ok ?d"
    unfolding idle_source_ok_def using idle_source_okD [OF ok(2)] by simp
  moreover have "force_close_ids ?d = {next_id d}" using ok(4) by (auto simp: force_close_ids_def)
  moreover have "next_id d > 0" using ok(1) by (simp add: sources_ok_def)
  ultimately show ?thesis using ok(3) by (simp add: timers_ok_def)
qed

lemma execute_done_ok:
  assumes "invariant d" "txn d = Some t" "t_running t"
  shows "\<exists>d'. transaction_execute_done_cb env result reload t d = Inr d' \<and> invariant d'"
proof -
  note ok = current_txnD [OF assms(1,2)] and tok = txn_okD [OF current_txnD(3) [OF assms(1,2)]]
  have ne: "\<not> t_executed t" "t_sysroot_locked t" "t_watch_id t = 0" using assms(3) tok(2,4) by blast+
  have close: "close_transaction_timeout_id d = 0" using ok(6) ne by simp
  define outcome where "outcome = (case result of
               Inl e \<Rightarrow> (False, Some e)
             | Inr False \<Rightarrow> (False, None)
             | Inr True \<Rightarrow> (case reload of Inr _ \<Rightarrow> (True, None) | Inl e \<Rightarrow> (False, Some e)))"
  let ?s = "emit (Finished (fst outcome) (snd outcome)) d"
  let ?t = "t\<lparr>t_finished_params := Some outcome, t_executed := True, t_running := False, t_sysroot_locked := False\<rparr>"
  let ?d = "?s\<lparr>sysroot_lock := False, txn := Some ?t, sources := (next_id d, Force_Close) # sources d,
    next_id := next_id d + 1, close_transaction_timeout_id := next_id d\<rparr>"
  have "timers_ok ?d"
    using timers_ok_add_force_close [of "?s\<lparr>sysroot_lock := False, txn := Some ?t\<rparr>"] ok(1) close
    by (simp add: emit_def)
  moreover have "next_id d > 0" using ok(1) by (simp add: timers_ok_def sources_ok_def)
  ultimately have inv: "invariant ?d"
    using assms(1,2) ok ne tok by (simp add: invariant_def current_ok_def txn_ok_def active_of_def emit_def)
  have "transaction_execute_done_cb env result reload t d = transaction_maybe_emit_closed env ?t ?d"
    using ne tok(1) close assms(2)
    by (simp add: transaction_execute_done_cb_def outcome_def [symmetric] case_prod_beta' unlock_sysroot_def
        put_txn_def on_txn_executed_changed_def add_source_def emit_def Let_def)
  then show ?thesis using maybe_emit_closed_ok [OF inv, of ?t env] by simp
qed

text \<open>Timers and clients.\<close>

lemma force_close_ok:
  assumes "invariant d" "(s, Force_Close) \<in> set (sources d)"
  shows "\<exists>d'. on_force_close env s d = Inr d' \<and> invariant d' \<and> txn d' = None \<and> \<not> sysroot_lock d'"
proof -
  have timers: "timers_ok d" and s: "s \<in> force_close_ids d" using assms by (auto simp: invariant_def force_close_ids_def)
  then have c: "close_transaction_timeout_id d > 0" by (auto simp: timers_ok_def split: if_splits)
  then obtain t where t: "txn d = Some t" using invariant_no_txn(3) [OF assms(1)] by (cases "txn d") auto
  note ok = current_txnD [OF assms(1) t] and tok = txn_okD [OF current_txnD(3) [OF assms(1) t]]
  have e: "t_executed t" using ok(6) c by simp
  let ?t = "t\<lparr>t_server_started := False, t_peers := []\<rparr>"
  obtain d' where d': "rpmostreed_sysroot_set_txn env None (d\<lparr>txn := Some ?t\<rparr>) = Inr d'" "invariant d'" "txn d' = None"
    "\<not> sysroot_lock d'" and ns: "s \<notin> fst ` set (sources d')"
    using set_txn_None_ok [of "d\<lparr>txn := Some ?t\<rparr>" ?t env] ok tok e s by auto
  have "source_destroy s d' = d'"
    using ns by (force simp: source_destroy_def intro!: daemon.equality filter_True)
  then show ?thesis using d' t e
    by (simp add: on_force_close_def rpmostreed_transaction_force_close_def put_txn_def)
qed

lemma invariantD:
  assumes "invariant d"
  shows "timers_ok d" "orphans d = []" "current_ok d" "sources_ok d" "idle_source_ok d"
  using assms unfolding invariant_def timers_ok_def by blast+

lemma current_ok_update [simp]:
  "current_ok (d\<lparr>bus_clients := cs\<rparr>) = current_ok d"
  "current_ok (d\<lparr>sources := src, idle_exit_source := i, status := st, running := r\<rparr>) = current_ok d"
  "current_ok (d\<lparr>idle_exit_timeout := a, lock_layering := b, disable_recommends := c, auto_update_policy := e\<rparr>) = current_ok d"
  by (simp_all add: current_ok_def have_active_txn_def cong: option.case_cong)

lemma add_client_ok:
  assumes "invariant d"
  shows "\<exists>d'. rpmostreed_daemon_add_client env c cid d = Inr d' \<and> invariant d'"
proof (cases "map_of (bus_clients d) c")
  case None
  let ?d = "d\<lparr>next_id := next_id d + 1, bus_clients := (c, client_new env c cid\<lparr>c_name_watch_id := next_id d\<rparr>) # bus_clients d\<rparr>"
  have "timers_ok ?d" "orphans ?d = []" "current_ok ?d"
    using invariantD [OF assms] by (simp_all add: timers_ok_next_id)
  from update_status_invariant [OF this, of env] None show ?thesis
    by (auto simp: rpmostreed_daemon_add_client_def new_id_def client_new_def)
qed (use assms in \<open>simp add: rpmostreed_daemon_add_client_def\<close>)

lemma remove_client_ok:
  assumes "invariant d"
  shows "\<exists>d'. rpmostreed_daemon_remove_client env c d = Inr d' \<and> invariant d'"
proof (cases "map_of (bus_clients d) c")
  case (Some x)
  let ?d = "d\<lparr>bus_clients := filter (\<lambda>(k, _). k \<noteq> c) (bus_clients d)\<rparr>"
  have "timers_ok ?d" "orphans ?d = []" "current_ok ?d"
    using invariantD [OF assms] by simp_all
  from update_status_invariant [OF this, of env] Some show ?thesis
    by (auto simp: rpmostreed_daemon_remove_client_def)
qed (use assms in \<open>simp add: rpmostreed_daemon_remove_client_def\<close>)

lemma name_owner_changed_ok:
  "invariant d \<Longrightarrow> \<exists>d'. on_name_owner_changed env sn p i n old new d = Inr d' \<and> invariant d'"
  using remove_client_ok [of d env n] by (simp add: on_name_owner_changed_def)

lemma reload_config_ok:
  assumes "invariant d" "rpmostreed_daemon_reload_config loaded d = Inr (d', b)"
  shows "invariant d'"
proof -
  obtain a b c e where d': "d' = d\<lparr>idle_exit_timeout := a, lock_layering := b, disable_recommends := c, auto_update_policy := e\<rparr>"
    using assms(2) by (auto simp: rpmostreed_daemon_reload_config_def bindR_Inr_iff Let_def)
  have "timers_ok d' = timers_ok d"
    by (simp add: d' timers_ok_def sources_ok_def idle_source_ok_def force_close_ids_def)
  then show ?thesis using assms(1) by (simp add: d' invariant_def have_active_txn_def)
qed

lemma idle_exit_ok:
  assumes "invariant d"
  shows "invariant (on_idle_exit d)"
proof -
  note ok = invariantD [OF assms]
  obtain src where eq: "on_idle_exit d = d\<lparr>sources := src, idle_exit_source := None, status := ''STATUS=Exiting due to idle'', running := False\<rparr>"
    and src: "src = (case idle_exit_source d of None \<Rightarrow> sources d | Some i \<Rightarrow> filter (\<lambda>(j, _). j \<noteq> i) (sources d))"
    by (auto simp: on_idle_exit_def source_destroy_def split: option.splits)
  have no_idle: "(i, Idle_Exit secs) \<notin> set src" for i secs
    using idle_source_okD(1) [OF ok(5), of i secs] by (auto simp: src split: option.splits)
  have "i \<noteq> j" if idle: "idle_exit_source d = Some i" and fc: "(j, Force_Close) \<in> set (sources d)" for i j
  proof -
    obtain secs where "(i, Idle_Exit secs) \<in> set (sources d)" using idle_source_okD(2) [OF ok(5) idle] by blast
    then show ?thesis
      using fc ok(4) eq_key_imp_eq_value [of "sources d" i] by (auto simp: sources_ok_def)
  qed
  then have "force_close_ids (on_idle_exit d) = force_close_ids d"
    by (auto simp: eq src force_close_ids_def split: option.splits)
  moreover have "sources_ok (on_idle_exit d)"
    using ok(4) sources_ok_remove [OF ok(4)]
    by (auto simp: eq src sources_ok_def source_destroy_def split: option.splits)
  moreover have "idle_source_ok (on_idle_exit d)"
    using no_idle by (simp add: eq idle_source_ok_def)
  ultimately have "timers_ok (on_idle_exit d)" using ok(1) by (simp add: timers_ok_def eq)
  then show ?thesis using ok by (simp add: invariant_def eq)
qed

section \<open>The daemon is a safe machine\<close>

lemma started_invariant: "started d \<Longrightarrow> invariant d"
proof -
  assume "started d"
  then obtain env timeout where d: "update_status env (fresh_daemon\<lparr>idle_exit_timeout := timeout, running := True\<rparr>) = Inr d"
    by (auto simp: started_def rpmostreed_daemon_run_until_idle_exit_def)
  let ?d = "fresh_daemon\<lparr>idle_exit_timeout := timeout, running := True\<rparr>"
  have "timers_ok ?d" "orphans ?d = []" "current_ok ?d"
    by (simp_all add: fresh_daemon_def timers_ok_def sources_ok_def idle_source_ok_def force_close_ids_def
        current_ok_def have_active_txn_def)
  from update_status_invariant [OF this, of env] d show ?thesis by auto
qed

lemma with_txn_ok:
  assumes "invariant d" "lookup_txn i d \<noteq> None"
    and "\<And>t. txn d = Some t \<Longrightarrow> lookup_txn i d = Some t \<Longrightarrow> \<exists>d'. f t d = Inr d' \<and> invariant d'"
  shows "\<exists>d'. with_txn i f d = Inr d' \<and> invariant d'"
proof -
  obtain t where t: "lookup_txn i d = Some t" using assms(2) by blast
  then have "txn d = Some t" using lookup_txn_current [OF assms(1)] by blast
  from assms(3) [OF this t] t show ?thesis by (simp add: with_txn_def)
qed

lemma step_ok:
  assumes "invariant d" "enabled e d"
  shows "\<exists>d'. step e d = Inr d' \<and> invariant d'"
proof (cases e)
  case (Method_call env io load kind title joined new invoc)
  then show ?thesis using method_call_ok [OF assms(1)] assms(2) by simp
next
  case (Start i c)
  with assms show ?thesis using handle_start_ok [OF assms(1)] by (auto intro!: with_txn_ok split: option.splits)
next
  case (Cancel i)
  with assms show ?thesis using handle_cancel_ok [OF assms(1)] by (auto intro!: with_txn_ok split: option.splits)
next
  case (New_connection i c exported)
  with assms show ?thesis using new_connection_ok [OF assms(1)] by (auto intro!: with_txn_ok split: option.splits)
next
  case (Connection_closed env i c)
  with assms show ?thesis using connection_closed_ok [OF assms(1)] by (auto intro!: with_txn_ok split: option.splits)
next
  case (Owner_vanished env i)
  with assms show ?thesis using owner_vanished_ok [OF assms(1)] by (auto intro!: with_txn_ok split: option.splits)
next
  case (Thread_reboot i)
  with assms show ?thesis using reboot_ok [OF assms(1)] by (auto intro!: with_txn_ok split: option.splits)
next
  case (Thread_done env i failpoint exec reload)
  with assms show ?thesis using execute_done_ok [OF assms(1)] by (auto intro!: with_txn_ok split: option.splits)
next
  case (Force_close_timeout env s)
  with assms show ?thesis using force_close_ok [OF assms(1), of s env] by auto
next
  case (Idle_exit_timeout s)
  then show ?thesis using idle_exit_ok [OF assms(1)] by simp
next
  case (Rerender_timeout env s)
  then show ?thesis using update_status_invariant [OF invariantD(1-3) [OF assms(1)], of env]
    by (auto simp: idle_update_status_def)
next
  case (Register_client env c cid)
  then show ?thesis using add_client_ok [OF assms(1)] by simp
next
  case (Unregister_client env c)
  then show ?thesis using remove_client_ok [OF assms(1)] by simp
next
  case (Name_owner_changed env sn p i n old new)
  then show ?thesis using name_owner_changed_ok [OF assms(1)] by simp
next
  case (Reload_config loaded)
  then show ?thesis using reload_config_ok [OF assms(1)] assms(1) by (simp split: sum.splits prod.splits)
next
  case (Answered_call r)
  then show ?thesis using assms(1) by simp
qed

interpretation machine: safe_machine started enabled step invariant
  using started_invariant step_ok by unfold_locales blast+

abbreviation reachable :: "daemon \<Rightarrow> bool" where
  "reachable \<equiv> reach started enabled step"

text \<open>Sequences of events, for the concrete runs below.\<close>

fun run :: "event list \<Rightarrow> daemon \<Rightarrow> daemon result" where
  "run [] d = Inr d"
| "run (e # es) d = (if enabled e d then bindR (step e d) (run es) else Inl (Throw ''not enabled'' []))"

lemma run_reachable: "reachable d \<Longrightarrow> run es d = Inr d' \<Longrightarrow> reachable d'"
proof (induction es arbitrary: d)
  case (Cons e es)
  then obtain d1 where "enabled e d" "step e d = Inr d1" "run es d1 = Inr d'"
    by (auto simp: bindR_Inr_iff split: if_splits)
  with Cons show ?case by (meson reach.reach_step)
qed simp

definition demo_io :: txn_io where
  "demo_io = \<lparr>io_unlink = None, io_server = Inr ''unix:path=/run/rpm-ostree/1'', io_chmod = None,
     io_sysroot_initialize = None, io_sysroot_load = None, io_failpoint_lock = None, io_try_lock = Inr True\<rparr>"

definition demo_invocation :: invocation where
  "demo_invocation = \<lparr>inv_method = ''Cleanup'', inv_params = ''()'', inv_sender = '':1.7'', inv_path = ''/''\<rparr>"

definition demo_events :: "event list" where
  "demo_events = [Method_call quiet_env demo_io (Inr ()) (Inr (Cleanup 1)) ''cleanup'' False False demo_invocation,
     New_connection 3 1 True, Start 3 1, Thread_done quiet_env 3 None (Returned True None) (Inr ())]"

definition demo_start :: daemon where
  "demo_start = (case rpmostreed_daemon_run_until_idle_exit quiet_env fresh_daemon of Inr d \<Rightarrow> d | Inl _ \<Rightarrow> fresh_daemon)"

definition demo_done :: daemon where
  "demo_done = (case run demo_events demo_start of Inr d \<Rightarrow> d | Inl _ \<Rightarrow> demo_start)"

lemmas machine_evals = Let_def daemon_evals demo_io_def demo_invocation_def merge_or_start_txn_def rpmostreed_sysroot_prep_for_txn_def
  rpmostreed_transaction_new_def rpmostreed_sysroot_has_txn_def transaction_constructed_def transaction_initable_init_def
  rpmostreed_sysroot_set_txn_and_title_def rpmostreed_sysroot_set_txn_def clear_close_timer_def on_active_txn_changed_def
  emit_def emit_closed_def with_txn_def lookup_txn_def put_txn_def transaction_new_connection_cb_def transaction_handle_start_def
  transaction_execute_done_cb_def transaction_execute_thread_def unlock_sysroot_def on_txn_executed_changed_def
  transaction_maybe_emit_closed_def rpmostreed_transaction_get_active_def rpmostreed_daemon_client_get_string_def
  rpmostreed_daemon_client_get_agent_id_def rpmostreed_daemon_client_get_sd_unit_def

lemma demo_start_run:
  "rpmostreed_daemon_run_until_idle_exit quiet_env fresh_daemon = Inr demo_start"
  "\<exists>st. demo_start = fresh_daemon\<lparr>running := True, idle_exit_source := Some 1, rerender_status_id := 2,
     sources := [(2, Rerender_Status), (1, Idle_Exit 60)], next_id := 3, status := st\<rparr>"
  by (simp_all add: demo_start_def daemon_evals)

lemma demo_start_reachable: "reachable demo_start"
proof -
  have "fresh_daemon = fresh_daemon\<lparr>idle_exit_timeout := idle_exit_timeout fresh_daemon\<rparr>" by simp
  with demo_start_run(1) have "started demo_start" unfolding started_def by metis
  then show ?thesis by (rule reach.reach_init)
qed

lemma demo_done_run:
  "run demo_events demo_start = Inr demo_done"
  "(5, Force_Close) \<in> set (sources demo_done)" "\<exists>t. txn demo_done = Some t \<and> t_executed t"
proof -
  obtain st where st: "demo_start = fresh_daemon\<lparr>running := True, idle_exit_source := Some 1, rerender_status_id := 2,
     sources := [(2, Rerender_Status), (1, Idle_Exit 60)], next_id := 3, status := st\<rparr>"
    using demo_start_run(2) by blast
  show "run demo_events demo_start = Inr demo_done" "(5, Force_Close) \<in> set (sources demo_done)"
    "\<exists>t. txn demo_done = Some t \<and> t_executed t"
    unfolding demo_done_def st by (simp_all add: demo_events_def machine_evals)
qed

lemma demo_done_reachable: "reachable demo_done"
  by (rule run_reachable [OF demo_start_reachable demo_done_run(1)])

section \<open>Properties of the daemon\<close>



text \<open>
  C11: the sysroot lock is held exactly while the current transaction has not been executed yet; no path that
  closes, drops or fails to create a transaction leaks it.
\<close>

theorem sysroot_lock_iff_unfinished:
  assumes "reachable d"
  shows "sysroot_lock d \<longleftrightarrow> (\<exists>t. txn d = Some t \<and> \<not> t_executed t)"
proof (cases "txn d")
  case None
  then show ?thesis using invariant_no_txn(1) [OF machine.reach_invariant [OF assms] None] by simp
next
  case (Some t)
  note ok = current_txnD(3,4) [OF machine.reach_invariant [OF assms] Some]
  then show ?thesis using txn_okD(2) [OF ok(1)] Some by simp
qed

theorem sysroot_lock_iff_unfinished_witness:
  "sysroot_lock demo_done \<longleftrightarrow> (\<exists>t. txn demo_done = Some t \<and> \<not> t_executed t)"
  by (rule sysroot_lock_iff_unfinished [OF demo_done_reachable])

text \<open>
  The idle exit timer is only ever attached while no client is registered and no transaction is current,
  so the daemon never exits under a client or in the middle of a transaction.
\<close>

theorem idle_exit_only_when_idle:
  assumes "reachable d" "enabled (Idle_exit_timeout s) d"
  shows "bus_clients d = [] \<and> txn d = None \<and> \<not> sysroot_lock d"
proof -
  have inv: "invariant d" by (rule machine.reach_invariant [OF assms(1)])
  obtain k where "(s, k) \<in> set (sources d)" "case k of Idle_Exit secs \<Rightarrow> True | _ \<Rightarrow> False"
    using assms(2) by (auto simp: list_ex_iff)
  then obtain secs where "(s, Idle_Exit secs) \<in> set (sources d)" by (cases k) auto
  then have "idle_exit_source d = Some s" by (rule idle_source_okD(1) [OF invariantD(5) [OF inv]])
  then have "bus_clients d = []" "txn d = None"
    using inv current_txnD(9) [OF inv] by (auto simp: invariant_def intro: option.exhaust [of "txn d"])
  then show ?thesis using invariant_no_txn(1) [OF inv] by simp
qed

theorem idle_exit_only_when_idle_witness:
  "enabled (Idle_exit_timeout 1) demo_start \<and> bus_clients demo_start = [] \<and> txn demo_start = None \<and> \<not> sysroot_lock demo_start"
proof -
  have e: "enabled (Idle_exit_timeout 1) demo_start" by (simp add: demo_start_def daemon_evals)
  then show ?thesis using idle_exit_only_when_idle [OF demo_start_reachable e] by blast
qed

text \<open>
  C12: a transaction that has been executed cannot block the daemon: its forced close is pending, and when the
  timer fires the transaction is gone and the lock is free.
\<close>

theorem executed_txn_is_closed:
  assumes "reachable d" "txn d = Some t" "t_executed t"
  shows "\<exists>s d'. enabled (Force_close_timeout env s) d \<and> step (Force_close_timeout env s) d = Inr d' \<and>
     txn d' = None \<and> \<not> sysroot_lock d'"
proof -
  have inv: "invariant d" by (rule machine.reach_invariant [OF assms(1)])
  then have "close_transaction_timeout_id d > 0" using current_txnD(6) [OF inv assms(2)] assms(3) by simp
  then have "(close_transaction_timeout_id d, Force_Close) \<in> set (sources d)"
    using invariantD(1) [OF inv] by (auto simp: timers_ok_def force_close_ids_def)
  with force_close_ok [OF inv this, of env] show ?thesis by auto
qed

theorem executed_txn_is_closed_witness:
  "\<exists>s d'. enabled (Force_close_timeout quiet_env s) demo_done \<and>
     step (Force_close_timeout quiet_env s) demo_done = Inr d' \<and> txn d' = None \<and> \<not> sysroot_lock d'"
proof -
  obtain t where "txn demo_done = Some t" "t_executed t" using demo_done_run(3) by blast
  from executed_txn_is_closed [OF demo_done_reachable this] show ?thesis .
qed

end
