(* ===== verification/Authorize.thy ===== *)
theory Authorize
  imports Requests
begin

text \<open>
  Who may call what: \<open>os_authorize_method\<close> of \<^verbatim>\<open>src/src/daemon/rpmostreed-os.cxx\<close>, \<open>sysroot_authorize_method\<close>,
  \<open>authorize_method_for_uid0\<close> and \<open>rpmostreed_sysroot_authorize_direct\<close> of \<^verbatim>\<open>src/src/daemon/rpmostreed-sysroot.cxx\<close>.
  The bus daemon, polkit and logind are parameters. A result \<open>Inr ()\<close> lets the call through; \<open>Inl e\<close> is the error
  reply of a refused call.
\<close>

section \<open>Direct authorization\<close>

text \<open>
  \<open>get_connection_unix_user\<close> is the bus call, \<open>polkit_authority_get\<close> the error when polkit cannot be reached,
  \<open>polkit_check\<close> the verdict for a subject and an action, with or without user interaction, and
  \<open>sd_uid_get_state\<close> the session state of a user if logind knows it.
\<close>

record auth_env =
  on_session_bus :: bool
  get_connection_unix_user :: "string \<Rightarrow> gerror + u32"
  polkit_authority_get :: "gerror option"
  polkit_check :: "string \<Rightarrow> string \<Rightarrow> bool \<Rightarrow> gerror + bool"
  sd_uid_get_state :: "u32 \<Rightarrow> string option"

definition authorize_method_for_uid0 :: "auth_env \<Rightarrow> string \<Rightarrow> bool result" where
  "authorize_method_for_uid0 env sender =
     bindR (get_connection_unix_user env sender) (\<lambda>uid. Inr (uid = 0))"

definition rpmostreed_sysroot_authorize_direct :: "auth_env \<Rightarrow> string \<Rightarrow> bool result" where
  "rpmostreed_sysroot_authorize_direct env sender =
     (if on_session_bus env then Inr True else authorize_method_for_uid0 env sender)"

definition rpmostreed_sysroot_get_polkit_authority :: "auth_env \<Rightarrow> unit result" where
  "rpmostreed_sysroot_get_polkit_authority env = (case polkit_authority_get env of Some e \<Rightarrow> Inl e | None \<Rightarrow> Inr ())"

definition rpmostreed_get_client_uid :: "auth_env \<Rightarrow> string \<Rightarrow> u32 option" where
  "rpmostreed_get_client_uid env client =
     (case get_connection_unix_user env client of Inl _ \<Rightarrow> None | Inr uid \<Rightarrow> Some uid)"

section \<open>Methods of the OS interface\<close>

definition polkit_action :: "string \<Rightarrow> string" where
  "polkit_action a = ''org.projectatomic.rpmostree1.'' @ a"

text \<open>The actions of a call of \<open>UpdateDeployment\<close>, from its two dictionaries.\<close>

definition nonempty_ah :: "vardict \<Rightarrow> string \<Rightarrow> bool" where
  "nonempty_ah dict key = (case lookup_ah dict key of Some v \<Rightarrow> length v > 0 | None \<Rightarrow> False)"

abbreviation has_strv :: "vardict \<Rightarrow> string \<Rightarrow> bool" where
  "has_strv dict key \<equiv> vardict_lookup_strv dict key \<noteq> None"

definition known_changes :: "vardict \<Rightarrow> vardict \<Rightarrow> string list" where
  "known_changes modifiers options =
     (if vardict_lookup_bool options ''no-initramfs'' False then [polkit_action ''bootconfig''] else []) @
     (if lookup_s modifiers ''set-refspec'' \<noteq> None then [polkit_action ''rebase'']
      else if lookup_s modifiers ''set-revision'' \<noteq> None then [polkit_action ''deploy'']
      else if \<not> vardict_lookup_bool options ''no-pull-base'' False then [polkit_action ''upgrade'']
      else []) @
     (if has_strv modifiers ''install-packages'' \<or> has_strv modifiers ''uninstall-packages'' \<or> has_strv modifiers ''enable-modules'' \<or>
         has_strv modifiers ''disable-modules'' \<or> has_strv modifiers ''install-modules'' \<or> has_strv modifiers ''uninstall-modules'' \<or>
         vardict_lookup_bool options ''no-layering'' False
      then [polkit_action ''install-uninstall-packages''] else []) @
     (if nonempty_ah modifiers ''install-local-packages'' \<or>
         nonempty_ah modifiers ''install-local-fileoverride-packages''
      then [polkit_action ''install-local-packages''] else []) @
     (if has_strv modifiers ''override-replace-packages'' \<or> has_strv modifiers ''override-remove-packages'' \<or>
         has_strv modifiers ''override-reset-packages'' \<or> nonempty_ah modifiers ''override-replace-local-packages'' \<or>
         vardict_lookup_bool options ''no-overrides'' False
      then [polkit_action ''override''] else [])"

definition update_deployment_actions :: "vardict \<Rightarrow> vardict \<Rightarrow> string list" where
  "update_deployment_actions modifiers options =
     (let actions = known_changes modifiers options
      in if length actions = 0 then [polkit_action ''override''] else actions)"

text \<open>\<open>None\<close> is the early return for the methods that need no authorization.\<close>

definition os_method_actions :: "string \<Rightarrow> vardict \<Rightarrow> vardict \<Rightarrow> string list option" where
  "os_method_actions method modifiers options =
     (if method \<in> {''GetDeploymentsRpmDiff'', ''GetCachedDeployRpmDiff'', ''DownloadDeployRpmDiff'',
           ''GetCachedUpdateRpmDiff'', ''DownloadUpdateRpmDiff'', ''GetCachedRebaseRpmDiff'',
           ''DownloadRebaseRpmDiff'', ''RefreshMd''} then Some [polkit_action ''repo-refresh'']
      else if method = ''ModifyYumRepo'' then Some [polkit_action ''repo-modify'']
      else if method = ''Deploy'' then Some [polkit_action ''deploy'']
      else if method \<in> {''Upgrade'', ''AutomaticUpdateTrigger''} then Some [polkit_action ''upgrade'']
      else if method = ''Rebase'' then Some [polkit_action ''rebase'']
      else if method \<in> {''GetDeploymentBootConfig'', ''ListRepos'', ''WhatProvides'', ''GetPackages'', ''Search''} then None
      else if method \<in> {''SetInitramfsState'', ''KernelArgs'', ''InitramfsEtc''} then Some [polkit_action ''bootconfig'']
      else if method = ''Cleanup'' then Some [polkit_action ''cleanup'']
      else if method \<in> {''Rollback'', ''ClearRollbackTarget''} then Some [polkit_action ''rollback'']
      else if method = ''PkgChange'' then Some [polkit_action ''install-uninstall-packages'']
      else if method = ''UpdateDeployment'' then Some (update_deployment_actions modifiers options)
      else if method = ''FinalizeDeployment'' then Some [polkit_action ''finalize-deployment'']
      else Some [])"

fun check_actions :: "auth_env \<Rightarrow> string \<Rightarrow> string list \<Rightarrow> bool \<Rightarrow> bool result" where
  "check_actions env sender [] authorized = Inr authorized"
| "check_actions env sender (action # actions) authorized =
     (case polkit_check env sender action True of
        Inl e \<Rightarrow> Inl (Prefixed ''Authorization error: %s'' e)
      | Inr authorized \<Rightarrow> if \<not> authorized then Inr False else check_actions env sender actions authorized)"

definition os_authorize_method ::
  "auth_env \<Rightarrow> string \<Rightarrow> string \<Rightarrow> vardict \<Rightarrow> vardict \<Rightarrow> unit result" where
  "os_authorize_method env method_name sender modifiers options =
     (case rpmostreed_sysroot_authorize_direct env sender of
        Inl e \<Rightarrow> Inl (Prefixed ''Failed direct authorization: %s'' e)
      | Inr authorized \<Rightarrow>
          if authorized then Inr ()
          else
            (case rpmostreed_sysroot_get_polkit_authority env of
               Inl e \<Rightarrow> Inl (Prefixed ''Failed to load polkit: %s'' e)
             | Inr _ \<Rightarrow>
                 (case os_method_actions method_name modifiers options of
                    None \<Rightarrow> Inr ()
                  | Some actions \<Rightarrow>
                      bindR (check_actions env sender actions False) (\<lambda>authorized.
                        if \<not> authorized
                        then Inl (Throw ''rpmostreed OS operation %s not allowed for user'' [method_name])
                        else Inr ()))))"

section \<open>Methods of the sysroot interface\<close>

text \<open>The outcome of the method table: already authorized, the action, and whether the user may be asked.\<close>

definition sysroot_method_action :: "auth_env \<Rightarrow> string \<Rightarrow> string \<Rightarrow> bool \<times> string option \<times> bool" where
  "sysroot_method_action env method_name sender =
     (if method_name \<in> {''GetOS'', ''Reload''} then (True, None, True)
      else if method_name = ''ReloadConfig'' then (False, Some (polkit_action ''reload-daemon''), True)
      else if method_name = ''Cancel'' then (False, Some (polkit_action ''cancel''), True)
      else if method_name \<in> {''RegisterClient'', ''UnregisterClient''}
      then (case rpmostreed_get_client_uid env sender of
              Some uid \<Rightarrow> sd_uid_get_state env uid = Some ''active''
            | None \<Rightarrow> False,
            Some (polkit_action ''client-management''), False)
      else (False, None, True))"

definition sysroot_authorize_method :: "auth_env \<Rightarrow> string \<Rightarrow> string \<Rightarrow> unit result" where
  "sysroot_authorize_method env method_name sender =
     (case rpmostreed_sysroot_authorize_direct env sender of
        Inl e \<Rightarrow> Inl (Prefixed ''Failed to load polkit: %s'' e)
      | Inr True \<Rightarrow> Inr ()
      | Inr False \<Rightarrow>
          (let (authorized, action, allow_interactive_auth) = sysroot_method_action env method_name sender
           in bindR (case action of
                       Some action \<Rightarrow>
                         if authorized then Inr True
                         else (case rpmostreed_sysroot_get_polkit_authority env of
                                 Inl e \<Rightarrow> Inl (Prefixed ''Failed to load polkit: %s'' e)
                               | Inr _ \<Rightarrow>
                                   (case polkit_check env sender action allow_interactive_auth of
                                      Inl e \<Rightarrow> Inl (Prefixed ''Authorization error: %s'' e)
                                    | Inr authorized \<Rightarrow> Inr authorized))
                     | None \<Rightarrow> Inr authorized) (\<lambda>authorized.
                if \<not> authorized
                then Inl (Throw ''rpmostreed Sysroot operation %s not allowed for user'' [method_name])
                else Inr ())))"

section \<open>What an authorized call has been checked for\<close>

definition directly_authorized :: "auth_env \<Rightarrow> string \<Rightarrow> bool" where
  "directly_authorized env sender \<longleftrightarrow> on_session_bus env \<or> get_connection_unix_user env sender = Inr 0"

lemma authorize_direct_iff:
  "rpmostreed_sysroot_authorize_direct env sender = Inr True \<longleftrightarrow> directly_authorized env sender"
  by (auto simp: rpmostreed_sysroot_authorize_direct_def authorize_method_for_uid0_def directly_authorized_def bindR_Inr_iff)

lemma check_actions_iff:
  "check_actions env sender actions b = Inr True \<longleftrightarrow>
     (actions = [] \<and> b \<or> actions \<noteq> [] \<and> (\<forall>a \<in> set actions. polkit_check env sender a True = Inr True))"
proof (induction actions arbitrary: b)
  case (Cons a as)
  show ?case
  proof (cases "polkit_check env sender a True = Inr True")
    case True
    then show ?thesis using Cons.IH [of True] by (cases as) simp_all
  next
    case False
    then show ?thesis by (simp split: sum.split)
  qed
qed simp

lemma set_if_single: "a \<in> set (if c then [x] else []) \<longleftrightarrow> c \<and> a = x"
  by (cases c) simp_all

lemma known_changes_required: "a \<in> set (known_changes modifiers options) \<Longrightarrow> a \<in> set (update_deployment_actions modifiers options)"
  by (auto simp: update_deployment_actions_def Let_def)

text \<open>
  A call of the OS interface is let through exactly if the caller is root (or the daemon runs on the
  session bus), or polkit is there and the method is public or has a nonempty list of actions that polkit
  grants one by one. A method that is not in the table is refused.
\<close>

theorem os_authorize_method_iff:
  "os_authorize_method env method sender modifiers options = Inr () \<longleftrightarrow>
     directly_authorized env sender \<or>
     ((\<exists>uid. get_connection_unix_user env sender = Inr uid) \<and> polkit_authority_get env = None \<and>
      (case os_method_actions method modifiers options of
         None \<Rightarrow> True
       | Some actions \<Rightarrow> actions \<noteq> [] \<and> list_all (\<lambda>a. polkit_check env sender a True = Inr True) actions))"
proof (cases "rpmostreed_sysroot_authorize_direct env sender")
  case (Inl e)
  then have "\<not> directly_authorized env sender" "\<And>uid. get_connection_unix_user env sender \<noteq> Inr uid"
    by (auto simp: rpmostreed_sysroot_authorize_direct_def authorize_method_for_uid0_def directly_authorized_def
        bindR_Inl_iff split: if_splits)
  with Inl show ?thesis by (simp add: os_authorize_method_def)
next
  case (Inr b)
  show ?thesis
  proof (cases b)
    case True
    then show ?thesis using Inr authorize_direct_iff [of env sender] by (simp add: os_authorize_method_def)
  next
    case False
    then have "\<not> directly_authorized env sender" using Inr authorize_direct_iff [of env sender] by simp
    moreover have "\<exists>uid. get_connection_unix_user env sender = Inr uid"
      using Inr False by (auto simp: rpmostreed_sysroot_authorize_direct_def authorize_method_for_uid0_def bindR_Inr_iff split: if_splits)
    ultimately show ?thesis using Inr False
      by (auto simp: os_authorize_method_def rpmostreed_sysroot_get_polkit_authority_def bindR_Inr_iff check_actions_iff
          list_all_iff split: option.splits if_splits)
  qed
qed

text \<open>
  An unprivileged call of \<open>UpdateDeployment\<close> that is let through has been granted the action of every kind of
  change its dictionaries ask for under the keys of the table: switching the base, layering, local
  packages, overrides and the initramfs.
\<close>

theorem update_deployment_privileges:
  assumes "os_authorize_method env ''UpdateDeployment'' sender modifiers options = Inr ()"
    and "\<not> directly_authorized env sender"
  shows "(lookup_s modifiers ''set-refspec'' = None \<or> polkit_check env sender (polkit_action ''rebase'') True = Inr True) \<and>
    (lookup_s modifiers ''set-revision'' = None \<or> lookup_s modifiers ''set-refspec'' \<noteq> None \<or>
       polkit_check env sender (polkit_action ''deploy'') True = Inr True) \<and>
    (vardict_lookup_strv modifiers ''install-packages'' = None \<or>
       polkit_check env sender (polkit_action ''install-uninstall-packages'') True = Inr True) \<and>
    (vardict_lookup_strv modifiers ''uninstall-packages'' = None \<or>
       polkit_check env sender (polkit_action ''install-uninstall-packages'') True = Inr True) \<and>
    (nonempty_ah modifiers ''install-local-packages'' = False \<or>
       polkit_check env sender (polkit_action ''install-local-packages'') True = Inr True) \<and>
    (nonempty_ah modifiers ''override-replace-local-packages'' = False \<or>
       polkit_check env sender (polkit_action ''override'') True = Inr True) \<and>
    (vardict_lookup_bool options ''no-initramfs'' False = False \<or>
       polkit_check env sender (polkit_action ''bootconfig'') True = Inr True)"
proof -
  have ok: "\<And>a. a \<in> set (update_deployment_actions modifiers options) \<Longrightarrow> polkit_check env sender a True = Inr True"
    using assms unfolding os_authorize_method_iff by (simp add: os_method_actions_def list_all_iff)
  note granted = ok [OF known_changes_required]
  have "polkit_check env sender (polkit_action ''rebase'') True = Inr True" if "lookup_s modifiers ''set-refspec'' \<noteq> None"
    using that by (intro granted) (simp add: known_changes_def)
  moreover have "polkit_check env sender (polkit_action ''deploy'') True = Inr True"
    if "lookup_s modifiers ''set-revision'' \<noteq> None" "lookup_s modifiers ''set-refspec'' = None"
    using that by (intro granted) (simp add: known_changes_def)
  moreover have "polkit_check env sender (polkit_action ''install-uninstall-packages'') True = Inr True"
    if "has_strv modifiers ''install-packages'' \<or> has_strv modifiers ''uninstall-packages''"
    using that by (intro granted) (auto simp: known_changes_def set_if_single simp del: if_split)
  moreover have "polkit_check env sender (polkit_action ''install-local-packages'') True = Inr True"
    if "nonempty_ah modifiers ''install-local-packages''"
    using that by (intro granted) (simp add: known_changes_def)
  moreover have "polkit_check env sender (polkit_action ''override'') True = Inr True"
    if "nonempty_ah modifiers ''override-replace-local-packages''"
    using that by (intro granted) (simp add: known_changes_def)
  moreover have "polkit_check env sender (polkit_action ''bootconfig'') True = Inr True"
    if "vardict_lookup_bool options ''no-initramfs'' False"
    using that by (intro granted) (simp add: known_changes_def)
  ultimately show ?thesis by blast
qed

definition lenient_polkit :: auth_env where
  "lenient_polkit = \<lparr>on_session_bus = False, get_connection_unix_user = (\<lambda>_. Inr 1000), polkit_authority_get = None,
     polkit_check = (\<lambda>sender action interactive. Inr (action \<in> {polkit_action ''rebase'', polkit_action ''override''})),
     sd_uid_get_state = (\<lambda>_. Some ''active'')\<rparr>"

theorem update_deployment_privileges_witness:
  "polkit_check lenient_polkit '':1.9'' (polkit_action ''rebase'') True = Inr True \<and>
   os_authorize_method lenient_polkit ''UpdateDeployment'' '':1.9'' [''set-refspec'' \<mapsto> GV_s ''fedora:x''] Map.empty = Inr ()"
proof -
  let ?m = "[''set-refspec'' \<mapsto> GV_s ''fedora:x'']"
  have ok: "os_authorize_method lenient_polkit ''UpdateDeployment'' '':1.9'' ?m Map.empty = Inr ()"
    by (simp add: os_authorize_method_def rpmostreed_sysroot_authorize_direct_def authorize_method_for_uid0_def lenient_polkit_def
        rpmostreed_sysroot_get_polkit_authority_def os_method_actions_def update_deployment_actions_def known_changes_def
        vardict_lookup_bool_def lookup_b_def lookup_s_def vardict_lookup_strv_def nonempty_ah_def lookup_ah_def Let_def)
  moreover have "\<not> directly_authorized lenient_polkit '':1.9''" by (simp add: directly_authorized_def lenient_polkit_def)
  ultimately show ?thesis
    using update_deployment_privileges [of lenient_polkit "'':1.9''" ?m Map.empty] by (simp add: lookup_s_def)
qed

text \<open>
  The sysroot interface: besides root, only \<open>GetOS\<close> and \<open>Reload\<close> are open to everyone, an active session may
  register as a client, and every other call needs the polkit action of its method. Registering never
  asks the user.
\<close>

theorem sysroot_authorize_method_iff:
  "sysroot_authorize_method env method sender = Inr () \<longleftrightarrow>
     directly_authorized env sender \<or>
     (\<exists>uid. get_connection_unix_user env sender = Inr uid \<and>
        (method \<in> {''GetOS'', ''Reload''} \<or>
         method \<in> {''RegisterClient'', ''UnregisterClient''} \<and> sd_uid_get_state env uid = Some ''active'' \<or>
         polkit_authority_get env = None \<and>
           (method = ''ReloadConfig'' \<and> polkit_check env sender (polkit_action ''reload-daemon'') True = Inr True \<or>
            method = ''Cancel'' \<and> polkit_check env sender (polkit_action ''cancel'') True = Inr True \<or>
            method \<in> {''RegisterClient'', ''UnregisterClient''} \<and>
              polkit_check env sender (polkit_action ''client-management'') False = Inr True)))"
proof (cases "rpmostreed_sysroot_authorize_direct env sender")
  case (Inl e)
  then have "\<not> directly_authorized env sender" "\<And>uid. get_connection_unix_user env sender \<noteq> Inr uid"
    by (auto simp: rpmostreed_sysroot_authorize_direct_def authorize_method_for_uid0_def directly_authorized_def
        bindR_Inl_iff split: if_splits)
  with Inl show ?thesis by (simp add: sysroot_authorize_method_def)
next
  case (Inr b)
  show ?thesis
  proof (cases b)
    case True
    then show ?thesis using Inr authorize_direct_iff [of env sender] by (simp add: sysroot_authorize_method_def)
  next
    case False
    then have nd: "\<not> directly_authorized env sender" using Inr authorize_direct_iff [of env sender] by simp
    obtain uid where uid: "get_connection_unix_user env sender = Inr uid"
      using Inr False by (auto simp: rpmostreed_sysroot_authorize_direct_def authorize_method_for_uid0_def bindR_Inr_iff split: if_splits)
    have client: "rpmostreed_get_client_uid env sender = Some uid" by (simp add: rpmostreed_get_client_uid_def uid)
    note defs = sysroot_authorize_method_def sysroot_method_action_def rpmostreed_sysroot_get_polkit_authority_def
    consider "method \<in> {''GetOS'', ''Reload''}" | "method = ''ReloadConfig''" | "method = ''Cancel''"
      | "method \<in> {''RegisterClient'', ''UnregisterClient''}"
      | "method \<notin> {''GetOS'', ''Reload'', ''ReloadConfig'', ''Cancel'', ''RegisterClient'', ''UnregisterClient''}"
      by auto
    then show ?thesis
      by cases (auto simp: defs Inr False nd uid client split: option.splits sum.splits if_splits)
  qed
qed

end
