(* ===== verification/Os_Interface.thy ===== *)
theory Os_Interface
  imports Daemon_Machine Authorize Deployments
begin

text \<open>
  The methods of the D-Bus interfaces \<open>org.projectatomic.rpmostree1.OS\<close> and \<open>OSExperimental\<close> that start a transaction:
  the handlers of \<^verbatim>\<open>src/src/daemon/rpmostreed-os.cxx\<close> and \<^verbatim>\<open>src/src/daemon/rpmostreed-os-experimental.cxx\<close>. A handler joins
  a compatible transaction or creates one of its kind (\<open>merge_or_start_txn\<close>); all of them answer through \<open>Method_reply\<close>.
\<close>

section \<open>Deployment methods\<close>

text \<open>A call as the handler sees it: the surroundings, the outcome of \<open>rpmostreed_sysroot_load_state\<close> and the invocation.\<close>

record os_call =
  oc_bus :: bus_env
  oc_io :: txn_io
  oc_load :: "unit result"
  oc_invocation :: invocation

definition start_or_join :: "os_call \<Rightarrow> txn_kind result \<Rightarrow> string \<Rightarrow> bool \<Rightarrow> bool \<Rightarrow> daemon \<Rightarrow> daemon result" where
  "start_or_join c kind title connect_joined connect_new d =
     merge_or_start_txn (oc_bus c) (oc_io c) (oc_load c) kind title connect_joined connect_new (oc_invocation c) d"

text \<open>Only a new transaction of \<open>AutomaticUpdateTrigger\<close> that does not stage gets the handler that refreshes the cached update.\<close>

definition os_merge_or_start_deployment_txn ::
  "os_call \<Rightarrow> u32 \<Rightarrow> vardict \<Rightarrow> vardict option \<Rightarrow> int list option \<Rightarrow> daemon \<Rightarrow> daemon result" where
  "os_merge_or_start_deployment_txn c default_flags options modifiers fd_list d =
     start_or_join c (Inr (rpmostreed_transaction_new_deploy default_flags options modifiers fd_list)) ''new-deployment'' False
       (inv_method (oc_invocation c) = ''AutomaticUpdateTrigger'' \<and>
        has_flag default_flags (DEPLOY_FLAG_DOWNLOAD_ONLY OR DEPLOY_FLAG_DOWNLOAD_METADATA_ONLY)) d"

definition os_handle_deploy :: "os_call \<Rightarrow> int list option \<Rightarrow> string \<Rightarrow> vardict \<Rightarrow> daemon \<Rightarrow> daemon result" where
  "os_handle_deploy c fd_list revision options =
     os_merge_or_start_deployment_txn c DEPLOY_FLAG_ALLOW_DOWNGRADE options (Some [''set-revision'' \<mapsto> GV_s revision]) fd_list"

definition os_handle_upgrade :: "os_call \<Rightarrow> int list option \<Rightarrow> vardict \<Rightarrow> daemon \<Rightarrow> daemon result" where
  "os_handle_upgrade c fd_list options = os_merge_or_start_deployment_txn c 0 options (Some Map.empty) fd_list"

text \<open>The revision may be given among the options. The list of packages is not used.\<close>

definition os_handle_rebase :: "os_call \<Rightarrow> int list option \<Rightarrow> vardict \<Rightarrow> string \<Rightarrow> string list \<Rightarrow> daemon \<Rightarrow> daemon result" where
  "os_handle_rebase c fd_list options refspec pkgs =
     (let modifiers = [''set-refspec'' \<mapsto> GV_s refspec];
          modifiers = (case lookup_s options ''revision'' of Some r \<Rightarrow> modifiers(''set-revision'' \<mapsto> GV_s r) | None \<Rightarrow> modifiers)
      in os_merge_or_start_deployment_txn c DEPLOY_FLAG_ALLOW_DOWNGRADE options (Some modifiers) fd_list)"

definition os_handle_pkg_change ::
  "os_call \<Rightarrow> int list option \<Rightarrow> vardict \<Rightarrow> string list \<Rightarrow> string list \<Rightarrow> daemon \<Rightarrow> daemon result" where
  "os_handle_pkg_change c fd_list options packages_added packages_removed =
     os_merge_or_start_deployment_txn c DEPLOY_FLAG_NO_PULL_BASE options
       (Some [''install-packages'' \<mapsto> GV_as packages_added, ''uninstall-packages'' \<mapsto> GV_as packages_removed]) None"

definition os_handle_update_deployment :: "os_call \<Rightarrow> int list option \<Rightarrow> vardict \<Rightarrow> vardict \<Rightarrow> daemon \<Rightarrow> daemon result" where
  "os_handle_update_deployment c fd_list modifiers options =
     os_merge_or_start_deployment_txn c 0 options (Some modifiers) fd_list"

text \<open>
  Automatic updates: the policy comes from the mode or from the configuration. \<open>auto_update_flags\<close> are the default flags and
  the options of the transaction; with the policy \<open>none\<close> none is started and the reply has no address.
\<close>

fun auto_update_flags :: "RpmostreedAutomaticUpdatePolicy \<Rightarrow> vardict \<Rightarrow> (u32 \<times> vardict) option" where
  "auto_update_flags POLICY_NONE options = None"
| "auto_update_flags POLICY_CHECK options = Some (DEPLOY_FLAG_DOWNLOAD_METADATA_ONLY, options)"
| "auto_update_flags POLICY_STAGE options = Some (0, options)"
| "auto_update_flags POLICY_APPLY options = Some (0, options(''reboot'' \<mapsto> GV_b True))"

definition auto_update_policy_for :: "vardict \<Rightarrow> daemon \<Rightarrow> RpmostreedAutomaticUpdatePolicy result" where
  "auto_update_policy_for options d =
     (let mode = (case lookup_s options ''mode'' of Some m \<Rightarrow> m | None \<Rightarrow> ''auto'')
      in if mode = ''auto'' then Inr (auto_update_policy d) else rpmostree_str_to_auto_update_policy mode)"

definition os_handle_automatic_update_trigger ::
  "os_call \<Rightarrow> string \<Rightarrow> OstreeSysroot \<Rightarrow> vardict \<Rightarrow> daemon \<Rightarrow> daemon result" where
  "os_handle_automatic_update_trigger c osname sr options d =
     (if \<not> (case sr_booted sr of Some booted \<Rightarrow> osname = d_osname booted | None \<Rightarrow> False)
      then Inr (emit (Method_reply (Inl (Throw (''Cannot trigger auto-update for offline OS '%s'' @ [CHR 0x27]) [osname]))) d)
      else case auto_update_policy_for options d of
             Inl e \<Rightarrow> Inr (emit (Method_reply (Inl e)) d)
           | Inr policy \<Rightarrow>
               (let options = (if ''output-to-self'' \<in> dom options then options else options(''output-to-self'' \<mapsto> GV_b True))
                in case auto_update_flags policy options of
                     None \<Rightarrow> Inr (emit (Method_reply (Inr [])) d)
                   | Some (dfault, options) \<Rightarrow> os_merge_or_start_deployment_txn c dfault options None None d))"

section \<open>Other transactions\<close>

abbreviation command_line_or :: "vardict \<Rightarrow> string \<Rightarrow> string" where
  "command_line_or options title \<equiv> (case lookup_s options ''initiating-command-line'' of Some command_line \<Rightarrow> command_line | None \<Rightarrow> title)"

definition os_handle_download_update_rpm_diff :: "os_call \<Rightarrow> daemon \<Rightarrow> daemon result" where
  "os_handle_download_update_rpm_diff c = start_or_join c (Inr (PackageDiff None None)) ''package-diff'' True True"

definition os_handle_download_rebase_rpm_diff :: "os_call \<Rightarrow> string \<Rightarrow> string list \<Rightarrow> daemon \<Rightarrow> daemon result" where
  "os_handle_download_rebase_rpm_diff c refspec pkgs = start_or_join c (Inr (PackageDiff (Some refspec) None)) ''package-diff'' False False"

definition os_handle_download_deploy_rpm_diff :: "os_call \<Rightarrow> string \<Rightarrow> string list \<Rightarrow> daemon \<Rightarrow> daemon result" where
  "os_handle_download_deploy_rpm_diff c revision pkgs = start_or_join c (Inr (PackageDiff None (Some revision))) ''package-diff'' False False"

definition os_handle_rollback :: "os_call \<Rightarrow> vardict \<Rightarrow> daemon \<Rightarrow> daemon result" where
  "os_handle_rollback c options =
     start_or_join c (Inr (Rollback (case lookup_b options ''reboot'' of Some opt_reboot \<Rightarrow> opt_reboot | None \<Rightarrow> False))) ''rollback'' False False"

definition os_handle_refresh_md :: "os_call \<Rightarrow> vardict \<Rightarrow> daemon \<Rightarrow> daemon result" where
  "os_handle_refresh_md c options =
     (let force = vardict_lookup_bool options ''force'' False
      in start_or_join c (Inr (RefreshMd (if force then 0 OR REFRESH_MD_FLAG_FORCE else 0)))
           (''refresh-md'' @ (if force then '' (force)'' else [])) False False)"

definition os_handle_modify_yum_repo :: "os_call \<Rightarrow> string \<Rightarrow> (string \<times> string) list \<Rightarrow> daemon \<Rightarrow> daemon result" where
  "os_handle_modify_yum_repo c repo_id settings = start_or_join c (Inr (ModifyYumRepo repo_id settings)) ''modify-yum-repo'' False False"

definition os_handle_finalize_deployment :: "os_call \<Rightarrow> vardict \<Rightarrow> daemon \<Rightarrow> daemon result" where
  "os_handle_finalize_deployment c options =
     start_or_join c (Inr (FinalizeDeployment options)) (command_line_or options ''finalize-deployment'') False False"

text \<open>The older form of \<open>Cleanup\<close>; its options are ignored.\<close>

definition os_handle_clear_rollback_target :: "os_call \<Rightarrow> vardict \<Rightarrow> daemon \<Rightarrow> daemon result" where
  "os_handle_clear_rollback_target c options = start_or_join c (Inr (Cleanup CLEANUP_ROLLBACK_DEPLOY)) ''clear-rollback'' False False"

definition os_handle_initramfs_etc ::
  "os_call \<Rightarrow> string list \<Rightarrow> string list \<Rightarrow> bool \<Rightarrow> bool \<Rightarrow> vardict \<Rightarrow> daemon \<Rightarrow> daemon result" where
  "os_handle_initramfs_etc c track untrack untrack_all force_sync options =
     start_or_join c (Inr (InitramfsEtc (Some track) (Some untrack) untrack_all force_sync options))
       (command_line_or options ''initramfs-etc'') False False"

definition os_handle_set_initramfs_state :: "os_call \<Rightarrow> bool \<Rightarrow> string list \<Rightarrow> vardict \<Rightarrow> daemon \<Rightarrow> daemon result" where
  "os_handle_set_initramfs_state c regenerate initramfs_args options =
     start_or_join c (Inr (InitramfsState regenerate (Some initramfs_args) options)) (command_line_or options ''initramfs'') False False"

definition os_handle_kernel_args ::
  "os_call \<Rightarrow> string \<Rightarrow> string list \<Rightarrow> string list \<Rightarrow> string list \<Rightarrow> vardict \<Rightarrow> daemon \<Rightarrow> daemon result" where
  "os_handle_kernel_args c existing added replaced deleted options =
     start_or_join c (Inr (rpmostreed_transaction_new_kernel_arg existing (Some added) (Some replaced) (Some deleted) options))
       (command_line_or options ''kargs'') False False"

fun cleanup_flags :: "u32 \<Rightarrow> string list \<Rightarrow> u32 result" where
  "cleanup_flags flags [] = Inr flags"
| "cleanup_flags flags (v # iter) =
     (if v = ''base'' then cleanup_flags (flags OR CLEANUP_BASE) iter
      else if v = ''pending-deploy'' then cleanup_flags (flags OR CLEANUP_PENDING_DEPLOY) iter
      else if v = ''rollback-deploy'' then cleanup_flags (flags OR CLEANUP_ROLLBACK_DEPLOY) iter
      else if v = ''repomd'' then cleanup_flags (flags OR CLEANUP_REPOMD) iter
      else Inl (Throw ''Invalid cleanup type: %s'' [v]))"

definition os_handle_cleanup :: "os_call \<Rightarrow> string list \<Rightarrow> daemon \<Rightarrow> daemon result" where
  "os_handle_cleanup c types = start_or_join c (bindR (cleanup_flags 0 types) (\<lambda>flags. Inr (Cleanup flags))) ''cleanup'' False False"

section \<open>Applying changes to the running system\<close>

text \<open>
  The method \<open>LiveFs\<close> of the experimental interface prepares its transaction in its own way: the transaction becomes the
  current one also when it was joined, and it has no title.
\<close>

definition prepare_live_fs_txn :: "os_call \<Rightarrow> vardict \<Rightarrow> daemon \<Rightarrow> (RpmostreedTransaction result \<times> daemon) result" where
  "prepare_live_fs_txn c options d =
     (let set_current = (\<lambda>t d. bindR (rpmostreed_sysroot_set_txn (oc_bus c) (Some t) d) (\<lambda>d. Inr (Inr t, d)))
      in case rpmostreed_sysroot_prep_for_txn (oc_invocation c) d of
           Inl e \<Rightarrow> Inr (Inl (Prefixed ''Preparing sysroot for transaction'' e), d)
         | Inr (Some t) \<Rightarrow> set_current t d
         | Inr None \<Rightarrow>
             (case oc_load c of
                Inl e \<Rightarrow> Inr (Inl (Prefixed ''Loading sysroot state'' e), d)
              | Inr _ \<Rightarrow>
                  bindR (rpmostreed_transaction_new (oc_bus c) (oc_io c) (ApplyLive options) (oc_invocation c) d) (\<lambda>(new, d).
                    case new of
                      Inl e \<Rightarrow> Inr (Inl (Prefixed ''Starting live fs transaction'' e), d)
                    | Inr t \<Rightarrow> set_current t d)))"

definition osexperimental_handle_live_fs :: "os_call \<Rightarrow> vardict \<Rightarrow> daemon \<Rightarrow> daemon result" where
  "osexperimental_handle_live_fs c options d =
     bindR (prepare_live_fs_txn c options d) (\<lambda>(r, d).
       Inr (emit (Method_reply (case r of Inl e \<Rightarrow> Inl e | Inr t \<Rightarrow> Inr (t_address t))) d))"

section \<open>Dispatch\<close>

text \<open>The calls of the interface with their arguments, and the table of handlers.\<close>

datatype os_method =
    M_AutomaticUpdateTrigger vardict
  | M_Cleanup "string list"
  | M_KernelArgs string "string list" "string list" "string list" vardict
  | M_RefreshMd vardict
  | M_ModifyYumRepo string "(string \<times> string) list"
  | M_Rollback vardict
  | M_InitramfsEtc "string list" "string list" bool bool vardict
  | M_SetInitramfsState bool "string list" vardict
  | M_UpdateDeployment vardict vardict
  | M_FinalizeDeployment vardict
  | M_ClearRollbackTarget vardict
  | M_Upgrade vardict
  | M_Rebase vardict string "string list"
  | M_Deploy string vardict
  | M_PkgChange vardict "string list" "string list"
  | M_DownloadUpdateRpmDiff
  | M_DownloadRebaseRpmDiff string "string list"
  | M_DownloadDeployRpmDiff string "string list"

fun method_name :: "os_method \<Rightarrow> string" where
  "method_name (M_AutomaticUpdateTrigger _) = ''AutomaticUpdateTrigger''"
| "method_name (M_Cleanup _) = ''Cleanup''"
| "method_name (M_KernelArgs _ _ _ _ _) = ''KernelArgs''"
| "method_name (M_RefreshMd _) = ''RefreshMd''"
| "method_name (M_ModifyYumRepo _ _) = ''ModifyYumRepo''"
| "method_name (M_Rollback _) = ''Rollback''"
| "method_name (M_InitramfsEtc _ _ _ _ _) = ''InitramfsEtc''"
| "method_name (M_SetInitramfsState _ _ _) = ''SetInitramfsState''"
| "method_name (M_UpdateDeployment _ _) = ''UpdateDeployment''"
| "method_name (M_FinalizeDeployment _) = ''FinalizeDeployment''"
| "method_name (M_ClearRollbackTarget _) = ''ClearRollbackTarget''"
| "method_name (M_Upgrade _) = ''Upgrade''"
| "method_name (M_Rebase _ _ _) = ''Rebase''"
| "method_name (M_Deploy _ _) = ''Deploy''"
| "method_name (M_PkgChange _ _ _) = ''PkgChange''"
| "method_name M_DownloadUpdateRpmDiff = ''DownloadUpdateRpmDiff''"
| "method_name (M_DownloadRebaseRpmDiff _ _) = ''DownloadRebaseRpmDiff''"
| "method_name (M_DownloadDeployRpmDiff _ _) = ''DownloadDeployRpmDiff''"

fun rpmostreed_os_iface :: "os_call \<Rightarrow> string \<Rightarrow> OstreeSysroot \<Rightarrow> int list option \<Rightarrow> os_method \<Rightarrow> daemon \<Rightarrow> daemon result" where
  "rpmostreed_os_iface c osname sr fds (M_AutomaticUpdateTrigger options) = os_handle_automatic_update_trigger c osname sr options"
| "rpmostreed_os_iface c osname sr fds (M_Cleanup types) = os_handle_cleanup c types"
| "rpmostreed_os_iface c osname sr fds (M_KernelArgs existing added replaced deleted options) =
     os_handle_kernel_args c existing added replaced deleted options"
| "rpmostreed_os_iface c osname sr fds (M_RefreshMd options) = os_handle_refresh_md c options"
| "rpmostreed_os_iface c osname sr fds (M_ModifyYumRepo repo_id settings) = os_handle_modify_yum_repo c repo_id settings"
| "rpmostreed_os_iface c osname sr fds (M_Rollback options) = os_handle_rollback c options"
| "rpmostreed_os_iface c osname sr fds (M_InitramfsEtc track untrack untrack_all force_sync options) =
     os_handle_initramfs_etc c track untrack untrack_all force_sync options"
| "rpmostreed_os_iface c osname sr fds (M_SetInitramfsState regenerate initramfs_args options) =
     os_handle_set_initramfs_state c regenerate initramfs_args options"
| "rpmostreed_os_iface c osname sr fds (M_UpdateDeployment modifiers options) = os_handle_update_deployment c fds modifiers options"
| "rpmostreed_os_iface c osname sr fds (M_FinalizeDeployment options) = os_handle_finalize_deployment c options"
| "rpmostreed_os_iface c osname sr fds (M_ClearRollbackTarget options) = os_handle_clear_rollback_target c options"
| "rpmostreed_os_iface c osname sr fds (M_Upgrade options) = os_handle_upgrade c fds options"
| "rpmostreed_os_iface c osname sr fds (M_Rebase options refspec pkgs) = os_handle_rebase c fds options refspec pkgs"
| "rpmostreed_os_iface c osname sr fds (M_Deploy revision options) = os_handle_deploy c fds revision options"
| "rpmostreed_os_iface c osname sr fds (M_PkgChange options added removed) = os_handle_pkg_change c fds options added removed"
| "rpmostreed_os_iface c osname sr fds M_DownloadUpdateRpmDiff = os_handle_download_update_rpm_diff c"
| "rpmostreed_os_iface c osname sr fds (M_DownloadRebaseRpmDiff refspec pkgs) = os_handle_download_rebase_rpm_diff c refspec pkgs"
| "rpmostreed_os_iface c osname sr fds (M_DownloadDeployRpmDiff revision pkgs) = os_handle_download_deploy_rpm_diff c revision pkgs"

text \<open>
  GDBus asks \<open>os_authorize_method\<close> first and runs the handler only if the call is let through; a refused call was
  answered there. The dictionaries matter only for \<open>UpdateDeployment\<close>.
\<close>

fun method_dicts :: "os_method \<Rightarrow> vardict \<times> vardict" where
  "method_dicts (M_UpdateDeployment modifiers options) = (modifiers, options)"
| "method_dicts _ = (Map.empty, Map.empty)"

definition os_method_call ::
  "auth_env \<Rightarrow> os_call \<Rightarrow> string \<Rightarrow> OstreeSysroot \<Rightarrow> int list option \<Rightarrow> os_method \<Rightarrow> daemon \<Rightarrow> daemon result" where
  "os_method_call auth c osname sr fds m d =
     (case os_authorize_method auth (inv_method (oc_invocation c)) (inv_sender (oc_invocation c)) (fst (method_dicts m)) (snd (method_dicts m)) of
        Inl e \<Rightarrow> Inr (emit (Method_reply (Inl e)) d)
      | Inr _ \<Rightarrow> rpmostreed_os_iface c osname sr fds m d)"

section \<open>Every call is answered\<close>

lemmas os_handler_defs = os_handle_deploy_def os_handle_upgrade_def os_handle_rebase_def os_handle_pkg_change_def
  os_handle_update_deployment_def os_handle_download_update_rpm_diff_def os_handle_download_rebase_rpm_diff_def
  os_handle_download_deploy_rpm_diff_def os_handle_rollback_def os_handle_refresh_md_def os_handle_modify_yum_repo_def
  os_handle_finalize_deployment_def os_handle_clear_rollback_target_def os_handle_initramfs_etc_def
  os_handle_set_initramfs_state_def os_handle_kernel_args_def os_handle_cleanup_def

text \<open>A handler is a step of the daemon: it goes through \<open>merge_or_start_txn\<close> or only answers.\<close>

lemma os_iface_step:
  obtains kind title joined new where
    "rpmostreed_os_iface c osname sr fds m d =
       step (Method_call (oc_bus c) (oc_io c) (oc_load c) kind title joined new (oc_invocation c)) d"
  | r where "rpmostreed_os_iface c osname sr fds m d = step (Answered_call r) d" "isl r \<or> r = Inr []"
proof (cases m)
  case (M_AutomaticUpdateTrigger options)
  show thesis
  proof (cases "case sr_booted sr of Some booted \<Rightarrow> osname = d_osname booted | None \<Rightarrow> False")
    case True
    show thesis
    proof (cases "auto_update_policy_for options d")
      case (Inr policy)
      then show thesis using that True M_AutomaticUpdateTrigger
        by (cases policy) (auto simp: os_handle_automatic_update_trigger_def os_merge_or_start_deployment_txn_def start_or_join_def Let_def
            split del: if_split)
    qed (use that True M_AutomaticUpdateTrigger in \<open>auto simp: os_handle_automatic_update_trigger_def\<close>)
  qed (use that M_AutomaticUpdateTrigger in \<open>auto simp: os_handle_automatic_update_trigger_def\<close>)
qed (use that in \<open>auto simp: os_handler_defs start_or_join_def os_merge_or_start_deployment_txn_def Let_def\<close>)

lemma method_name_nonempty [simp]: "method_name m \<noteq> []"
  by (cases m) simp_all


section \<open>Authorization of transactions\<close>

text \<open>
  The actions that a transaction of a kind must have been granted. For a deployment they depend on the modifiers, as in the
  table of \<open>UpdateDeployment\<close>; the older methods give rise to some of these modifiers.
\<close>

definition deploy_granted :: "(string \<Rightarrow> bool) \<Rightarrow> vardict \<Rightarrow> bool" where
  "deploy_granted granted modifiers \<longleftrightarrow>
     (lookup_s modifiers ''set-refspec'' = None \<or> granted ''rebase'') \<and>
     (lookup_s modifiers ''set-revision'' = None \<or> granted ''deploy'' \<or> lookup_s modifiers ''set-refspec'' \<noteq> None) \<and>
     (vardict_lookup_strv modifiers ''install-packages'' = None \<or> granted ''install-uninstall-packages'') \<and>
     (vardict_lookup_strv modifiers ''uninstall-packages'' = None \<or> granted ''install-uninstall-packages'') \<and>
     (nonempty_ah modifiers ''install-local-packages'' \<longrightarrow> granted ''install-local-packages'') \<and>
     (vardict_lookup_strv modifiers ''override-replace-packages'' = None \<or> granted ''override'') \<and>
     (vardict_lookup_strv modifiers ''override-remove-packages'' = None \<or> granted ''override'') \<and>
     (vardict_lookup_strv modifiers ''override-reset-packages'' = None \<or> granted ''override'') \<and>
     (nonempty_ah modifiers ''override-replace-local-packages'' \<longrightarrow> granted ''override'')"

fun kind_granted :: "(string \<Rightarrow> bool) \<Rightarrow> txn_kind \<Rightarrow> bool" where
  "kind_granted granted (PackageDiff _ _) = granted ''repo-refresh''"
| "kind_granted granted (Rollback _) = granted ''rollback''"
| "kind_granted granted (Deploy flags options modifiers fds) = deploy_granted granted modifiers"
| "kind_granted granted (InitramfsEtc _ _ _ _ _) = granted ''bootconfig''"
| "kind_granted granted (InitramfsState _ _ _) = granted ''bootconfig''"
| "kind_granted granted (Cleanup flags) = (granted ''cleanup'' \<or> flags = CLEANUP_ROLLBACK_DEPLOY \<and> granted ''rollback'')"
| "kind_granted granted (RefreshMd _) = granted ''repo-refresh''"
| "kind_granted granted (ModifyYumRepo _ _) = granted ''repo-modify''"
| "kind_granted granted (FinalizeDeployment _) = granted ''finalize-deployment''"
| "kind_granted granted (KernelArg _ _ _ _ _) = granted ''bootconfig''"
| "kind_granted granted (ApplyLive _) = False"

lemma start_or_join_kind:
  assumes "invariant d" "inv_method (oc_invocation c) \<noteq> []" "start_or_join c kind title joined new d = Inr d'"
    and "txn d = None" "txn d' = Some t"
  shows "kind = Inr (t_kind t)"
proof -
  obtain r where "reply_ok kind (oc_invocation c) d d' r"
    using method_call_reply [OF assms(1,2), of "oc_bus c" "oc_io c" "oc_load c" kind title joined new] assms(3)
    by (auto simp: start_or_join_def)
  then show ?thesis using assms(4,5) by (cases r) (auto simp: reply_ok_def)
qed

text \<open>A transaction for automatic updates has the flags of the policy.\<close>

lemma automatic_update_txn:
  assumes "invariant d" "inv_method (oc_invocation c) \<noteq> []" "os_handle_automatic_update_trigger c osname sr options d = Inr d'"
    and "txn d = None" "txn d' = Some t"
  obtains policy dfault options' where "auto_update_policy_for options d = Inr policy"
    "auto_update_flags policy (if ''output-to-self'' \<in> dom options then options else options(''output-to-self'' \<mapsto> GV_b True)) = Some (dfault, options')"
    "t_kind t = rpmostreed_transaction_new_deploy dfault options' None None"
proof -
  have ne: "Inr (emit x d) \<noteq> (Inr d' :: daemon result)" for x using assms(4,5) by auto
  obtain policy where policy: "auto_update_policy_for options d = Inr policy"
    using assms(3) ne by (auto simp: os_handle_automatic_update_trigger_def simp del: sum.inject split: if_splits sum.splits)
  let ?o = "if ''output-to-self'' \<in> dom options then options else options(''output-to-self'' \<mapsto> GV_b True)"
  obtain dfault options' where flags: "auto_update_flags policy ?o = Some (dfault, options')"
    using assms(3) ne policy
    by (auto simp: os_handle_automatic_update_trigger_def Let_def simp del: sum.inject split: if_splits option.splits)
  have "os_merge_or_start_deployment_txn c dfault options' None None d = Inr d'"
    using assms(3) ne policy flags
    by (auto simp: os_handle_automatic_update_trigger_def Let_def simp del: sum.inject split: if_splits option.splits)
  from start_or_join_kind [OF assms(1,2) this [unfolded os_merge_or_start_deployment_txn_def] assms(4,5)]
  show thesis using that policy flags by simp
qed

text \<open>The kind of transaction that a method starts, as far as the authorization is concerned.\<close>

lemma started_kind:
  assumes "invariant d" "inv_method (oc_invocation c) = method_name m" "rpmostreed_os_iface c osname sr fds m d = Inr d'"
    and "txn d = None" "txn d' = Some t"
    and "\<And>a. a \<in> set (case m of M_UpdateDeployment modifiers options \<Rightarrow> [] | _ \<Rightarrow> the (os_method_actions (method_name m) Map.empty Map.empty)) \<Longrightarrow> granted a"
    and "\<And>modifiers options. m = M_UpdateDeployment modifiers options \<Longrightarrow> deploy_granted (\<lambda>a. granted (polkit_action a)) modifiers"
  shows "kind_granted (\<lambda>a. granted (polkit_action a)) (t_kind t)"
proof -
  have ne: "inv_method (oc_invocation c) \<noteq> []" using assms(2) by simp
  have kind: "start_or_join c (Inr k) title joined new d = Inr d' \<Longrightarrow> t_kind t = k" for k title joined new
    using start_or_join_kind [OF assms(1) ne _ assms(4,5), of "Inr k" title joined new] by simp
  note defs = os_handler_defs os_merge_or_start_deployment_txn_def rpmostreed_transaction_new_deploy_def
    rpmostreed_transaction_new_kernel_arg_def Let_def
  note lookups = deploy_granted_def lookup_s_def vardict_lookup_strv_def nonempty_ah_def lookup_ah_def
  have actions: "granted a" if "os_method_actions (method_name m) Map.empty Map.empty = Some as" "a \<in> set as" "\<And>x y. m \<noteq> M_UpdateDeployment x y" for a as
    using assms(6) [of a] that by (cases m) auto
  show ?thesis
  proof (cases m)
    case (M_AutomaticUpdateTrigger options)
    with assms(3) have "os_handle_automatic_update_trigger c osname sr options d = Inr d'" by simp
    then obtain dfault options' where "t_kind t = rpmostreed_transaction_new_deploy dfault options' None None"
      by (rule automatic_update_txn [OF assms(1) ne _ assms(4,5)])
    then have "\<exists>flags options'. t_kind t = Deploy flags options' Map.empty None" by (simp add: rpmostreed_transaction_new_deploy_def)
    then show ?thesis by (auto simp: lookups)
  next
    case (M_UpdateDeployment modifiers options)
    with assms(3) have "t_kind t = Deploy (deploy_flags_from_options options 0) options modifiers fds" by (auto simp: defs dest!: kind)
    then show ?thesis using assms(7) [OF M_UpdateDeployment] by simp
  next
    case (M_Cleanup types)
    with assms(3) have "bindR (cleanup_flags 0 types) (\<lambda>flags. Inr (Cleanup flags)) = Inr (t_kind t)"
      by (intro start_or_join_kind [OF assms(1) ne _ assms(4,5)]) (simp add: defs)
    then obtain flags where "t_kind t = Cleanup flags" unfolding bindR_Inr_iff by (metis sum.inject(2))
    then show ?thesis using actions M_Cleanup by (simp add: os_method_actions_def)
  next
    case (M_Rebase options refspec pkgs)
    with assms(3) have "t_kind t = Deploy (deploy_flags_from_options options 4) options
        (case lookup_s options ''revision'' of Some r \<Rightarrow> [''set-refspec'' \<mapsto> GV_s refspec, ''set-revision'' \<mapsto> GV_s r]
         | None \<Rightarrow> [''set-refspec'' \<mapsto> GV_s refspec]) fds"
      by (auto simp: defs dest!: kind)
    then show ?thesis using actions M_Rebase by (auto simp: os_method_actions_def lookups split: option.split)
  qed (use assms(3) actions in \<open>auto simp: defs os_method_actions_def lookups dest!: kind\<close>)
qed

lemma update_deployment_granted:
  assumes "\<And>a. a \<in> set (update_deployment_actions modifiers options) \<Longrightarrow> granted a"
  shows "deploy_granted (\<lambda>a. granted (polkit_action a)) modifiers"
proof -
  note granted = assms [OF known_changes_required]
  have "granted (polkit_action ''rebase'')" if "lookup_s modifiers ''set-refspec'' \<noteq> None"
    using that by (intro granted) (simp add: known_changes_def)
  moreover have "granted (polkit_action ''deploy'')" if "lookup_s modifiers ''set-revision'' \<noteq> None" "lookup_s modifiers ''set-refspec'' = None"
    using that by (intro granted) (simp add: known_changes_def)
  moreover have "granted (polkit_action ''install-uninstall-packages'')"
    if "has_strv modifiers ''install-packages'' \<or> has_strv modifiers ''uninstall-packages''"
    using that by (intro granted) (auto simp: known_changes_def set_if_single simp del: if_split)
  moreover have "granted (polkit_action ''install-local-packages'')" if "nonempty_ah modifiers ''install-local-packages''"
    using that by (intro granted) (simp add: known_changes_def)
  moreover have "granted (polkit_action ''override'')"
    if "has_strv modifiers ''override-replace-packages'' \<or> has_strv modifiers ''override-remove-packages'' \<or>
        has_strv modifiers ''override-reset-packages'' \<or> nonempty_ah modifiers ''override-replace-local-packages''"
    using that by (intro granted) (auto simp: known_changes_def set_if_single simp del: if_split)
  ultimately show ?thesis unfolding deploy_granted_def by blast
qed


text \<open>
  The older method \<open>Upgrade\<close> is the method \<open>UpdateDeployment\<close> without modifiers, but it is checked less. With the option
  to drop all layered packages both start the same transaction, and a user who was granted only upgrades is refused by
  \<open>UpdateDeployment\<close> and let through by \<open>Upgrade\<close>.
\<close>

theorem upgrade_checks_less:
  assumes "\<And>a. polkit_check auth sender a True = Inr (a = polkit_action ''upgrade'')"
    and "get_connection_unix_user auth sender = Inr uid" "uid \<noteq> 0" "\<not> on_session_bus auth" "polkit_authority_get auth = None"
  shows "rpmostreed_os_iface c osname sr fds (M_Upgrade options) = rpmostreed_os_iface c osname sr fds (M_UpdateDeployment Map.empty options) \<and>
    os_authorize_method auth ''Upgrade'' sender Map.empty Map.empty = Inr () \<and>
    os_authorize_method auth ''UpdateDeployment'' sender Map.empty [''no-layering'' \<mapsto> GV_b True] \<noteq> Inr ()"
proof -
  have "\<not> directly_authorized auth sender" using assms by (simp add: directly_authorized_def)
  then show ?thesis unfolding os_authorize_method_iff
    by (simp add: assms os_handler_defs os_method_actions_def update_deployment_actions_def known_changes_def polkit_action_def
        vardict_lookup_bool_def lookup_b_def lookup_s_def vardict_lookup_strv_def nonempty_ah_def lookup_ah_def Let_def)
qed

section \<open>The experimental method\<close>

text \<open>
  C37: a call of \<open>LiveFs\<close> that meets a compatible transaction, that is a second equal call while the first one is not closed,
  stops the daemon at the assertion of \<open>rpmostreed_sysroot_set_txn\<close>. Every other call is answered and keeps the invariant
  of the daemon.
\<close>

theorem live_fs_joined_aborts:
  assumes "reachable d" "inv_method (oc_invocation c) \<noteq> []"
  shows "if \<not> rebooting d \<and> (case txn d of Some t \<Rightarrow> rpmostreed_transaction_is_compatible t (oc_invocation c) | None \<Rightarrow> False)
    then osexperimental_handle_live_fs c options d = Inl (Abort ''self->transaction == NULL'')
    else \<exists>d' r. osexperimental_handle_live_fs c options d = Inr d' \<and> invariant d' \<and> signals d' = signals d @ [Method_reply r]"
proof -
  note inv = machine.reach_invariant [OF assms(1)]
  note defs = osexperimental_handle_live_fs_def prepare_live_fs_txn_def Let_def rpmostreed_sysroot_prep_for_txn_def
  show ?thesis
  proof (cases "txn d")
    case (Some t)
    then show ?thesis using inv
      by (cases "rebooting d") (auto simp: defs rpmostreed_sysroot_set_txn_def clear_close_timer_def source_remove_def source_destroy_def emit_def)
  next
    case None
    note no = invariant_no_txn [OF inv None]
    show ?thesis
    proof (cases "rebooting d \<or> isl (oc_load c)")
      case True
      then show ?thesis using inv None by (cases "oc_load c") (auto simp: defs emit_def)
    next
      case False
      then have start: "\<not> rebooting d" "oc_load c = Inr ()" by (cases "oc_load c"; simp)+
      obtain r d1 where r: "rpmostreed_transaction_new (oc_bus c) (oc_io c) (ApplyLive options) (oc_invocation c) d = Inr (r, d1)"
        and c: "case r of Inl e \<Rightarrow> d1 = d\<lparr>next_id := next_id d + 2\<rparr>
          | Inr t \<Rightarrow> d1 = d\<lparr>next_id := next_id d + 2, sysroot_lock := True\<rparr> \<and> txn_ok t \<and> \<not> t_executed t \<and>
              t_invocation t = oc_invocation c \<and> t_kind t = ApplyLive options"
        using transaction_new_ok [OF None no(1,2), of "oc_bus c" "oc_io c" "ApplyLive options" "oc_invocation c"] by (elim exE conjE)
      show ?thesis
      proof (cases r)
        case (Inl e)
        then show ?thesis using start r c None invariant_next_id [OF inv, of "next_id d + 2"] by (auto simp: defs emit_def)
      next
        case (Inr t)
        have "t\<lparr>t_title := t_title t\<rparr> = t" by simp
        with Inr show ?thesis
          using new_transaction_reply [OF inv assms(2) None start(1), of t "ApplyLive options" "oc_bus c" "t_title t" False] start r c None
          by (auto simp: defs)
      qed
    qed
  qed
qed

section \<open>Examples\<close>

definition demo_call :: "string \<Rightarrow> os_call" where
  "demo_call method = \<lparr>oc_bus = quiet_env, oc_io = demo_io, oc_load = Inr (),
     oc_invocation = demo_invocation\<lparr>inv_method := method\<rparr>\<rparr>"


definition cleanup_polkit :: auth_env where
  "cleanup_polkit = lenient_polkit\<lparr>polkit_check := (\<lambda>sender action interactive. Inr (action = polkit_action ''cleanup''))\<rparr>"


definition upgrade_only :: auth_env where
  "upgrade_only = lenient_polkit\<lparr>polkit_check := (\<lambda>sender action interactive. Inr (action = polkit_action ''upgrade''))\<rparr>"

theorem upgrade_checks_less_witness:
  "os_authorize_method upgrade_only ''Upgrade'' '':1.7'' Map.empty Map.empty = Inr () \<and>
   os_authorize_method upgrade_only ''UpdateDeployment'' '':1.7'' Map.empty [''no-layering'' \<mapsto> GV_b True] \<noteq> Inr ()"
  using upgrade_checks_less [of upgrade_only "'':1.7''" 1000] by (simp add: upgrade_only_def lenient_polkit_def)

definition demo_live :: daemon where
  "demo_live = (case run [Method_call quiet_env demo_io (Inr ()) (Inr (ApplyLive Map.empty)) [] False False (oc_invocation (demo_call ''LiveFs''))]
       demo_start of Inr d \<Rightarrow> d | Inl _ \<Rightarrow> demo_start)"

theorem live_fs_joined_aborts_witness:
  "osexperimental_handle_live_fs (demo_call ''LiveFs'') Map.empty demo_live = Inl (Abort ''self->transaction == NULL'')"
proof -
  obtain st where st: "demo_start = fresh_daemon\<lparr>running := True, idle_exit_source := Some 1, rerender_status_id := 2,
     sources := [(2, Rerender_Status), (1, Idle_Exit 60)], next_id := 3, status := st\<rparr>"
    using demo_start_run(2) by blast
  have run: "run [Method_call quiet_env demo_io (Inr ()) (Inr (ApplyLive Map.empty)) [] False False (oc_invocation (demo_call ''LiveFs''))]
       demo_start = Inr demo_live"
    and "\<exists>t. txn demo_live = Some t \<and> t_invocation t = oc_invocation (demo_call ''LiveFs'')" "\<not> rebooting demo_live"
    unfolding demo_live_def st by (simp_all add: demo_call_def machine_evals)
  moreover have "reachable demo_live" by (rule run_reachable [OF demo_start_reachable run])
  ultimately show ?thesis
    using live_fs_joined_aborts [of demo_live "demo_call ''LiveFs''" Map.empty]
    by (auto simp: demo_call_def rpmostreed_transaction_is_compatible_def)
qed

end
