(* ===== verification/Sysroot_State.thy ===== *)
theory Sysroot_State
  imports Status_Variants Os_Interface
begin

text \<open>
  The state that the daemon publishes: the sysroot object with its list of deployments and its OS objects, and how a reload
  brings it up to date (\<^verbatim>\<open>src/src/daemon/rpmostreed-sysroot.cxx\<close>), with the properties of an OS object and the cached
  update (\<^verbatim>\<open>src/src/daemon/rpmostreed-os.cxx\<close>). An operation that fails may have changed the state before: it returns its
  outcome together with the state.
\<close>

section \<open>OS objects\<close>

record 'v os_object =
  os_booted_deployment :: "'v status_dict"
  os_default_deployment :: "'v status_dict"
  os_rollback_deployment :: "'v status_dict"
  os_cached_update :: "'v status_dict option"
  os_has_cached_update_rpm_diff :: bool

text \<open>
  What a reload reads. \<open>load_if_changed\<close> is libostree's: a new state of the sysroot if it has changed since the last load.
  The file with the cached update can be missing; its size, its contents and its removal can fail.
\<close>

record ('c, 'v) reload_env =
  re_status :: "('c, 'v) status_env"
  load_if_changed :: "OstreeSysroot option result"
  repo_mtime :: "(int \<times> int) result"
  repo_reload_config :: "unit result"
  is_object_path :: "string \<Rightarrow> bool"
  query_deployments_for :: "OstreeSysroot \<Rightarrow> string \<Rightarrow> OstreeDeployment option \<times> OstreeDeployment option"
  open_cache_file :: "file_error option"
  cache_file_size :: "u64 result"
  cache_file_data :: "'v status_dict result"
  unlink_cache_file :: "unit result"
  max_metadata_size :: u64
  format_size :: "u64 \<Rightarrow> string"

definition booted_into :: "OstreeSysroot \<Rightarrow> string \<Rightarrow> OstreeDeployment option" where
  "booted_into sr osname = (case sr_booted sr of Some b \<Rightarrow> if osname = d_osname b then Some b else None | None \<Rightarrow> None)"

text \<open>The cached update and whether its file has been deleted.\<close>

definition refresh_cached_update_impl ::
  "('c, 'v) reload_env \<Rightarrow> OstreeSysroot \<Rightarrow> string \<Rightarrow> ('v status_dict option \<times> bool) result" where
  "refresh_cached_update_impl env sr osname =
     (case booted_into sr osname of
        None \<Rightarrow> Inr (None, False)
      | Some booted \<Rightarrow>
          (case open_cache_file env of
             Some NOENT \<Rightarrow> Inr (None, False)
           | Some (OTHER_FILE_ERROR e) \<Rightarrow> Inl (External e)
           | None \<Rightarrow>
               bindR (cache_file_size env) (\<lambda>size.
               bindR (rpmostree_check_size_within_limit (format_size env) size (max_metadata_size env)
                   ''/var/cache/rpm-ostree/cached-update.gv'') (\<lambda>_.
               bindR (cache_file_data env) (\<lambda>cached_update.
                 if (case cached_update ''update-sha256'' of Some (S_s update_sha256) \<Rightarrow> update_sha256 = d_csum booted | _ \<Rightarrow> False)
                 then Inr (Some cached_update, False)
                 else bindR (unlink_cache_file env) (\<lambda>_. Inr (None, True)))))))"

definition refresh_cached_update ::
  "('c, 'v) reload_env \<Rightarrow> OstreeSysroot \<Rightarrow> string \<Rightarrow> 'v os_object \<Rightarrow> unit result \<times> 'v os_object" where
  "refresh_cached_update env sr osname os =
     (case refresh_cached_update_impl env sr osname of
        Inl e \<Rightarrow> (Inl e, os)
      | Inr (cached_update, _) \<Rightarrow>
          (Inr (), os\<lparr>os_cached_update := cached_update, os_has_cached_update_rpm_diff := cached_update \<noteq> None\<rparr>))"

definition rpmostreed_deployment_generate_blank_variant :: "'v status_dict" where
  "rpmostreed_deployment_generate_blank_variant = Map.empty"

definition rpmostreed_os_load_internals ::
  "('c, 'v) reload_env \<Rightarrow> OstreeSysroot \<Rightarrow> string \<Rightarrow> 'v os_object \<Rightarrow> unit result \<times> 'v os_object" where
  "rpmostreed_os_load_internals env sr name os =
     (let generate = (\<lambda>d. rpmostreed_deployment_generate_variant (re_status env) sr d True)
      in case (case booted_into sr name of Some booted \<Rightarrow> generate booted | None \<Rightarrow> Inr rpmostreed_deployment_generate_blank_variant) of
           Inl e \<Rightarrow> (Inl e, os)
         | Inr booted_variant \<Rightarrow>
             (let os = os\<lparr>os_booted_deployment := booted_variant\<rparr>
              in case query_deployments_for env sr name of (pending_deployment, rollback_deployment) \<Rightarrow>
                   (case (case pending_deployment of Some d \<Rightarrow> generate d | None \<Rightarrow> Inr booted_variant) of
                      Inl e \<Rightarrow> (Inl e, os)
                    | Inr default_variant \<Rightarrow>
                        (let os = os\<lparr>os_default_deployment := default_variant\<rparr>
                         in case (case rollback_deployment of Some d \<Rightarrow> generate d | None \<Rightarrow> Inr rpmostreed_deployment_generate_blank_variant) of
                              Inl e \<Rightarrow> (Inl e, os)
                            | Inr rollback_variant \<Rightarrow>
                                refresh_cached_update env sr name (os\<lparr>os_rollback_deployment := rollback_variant\<rparr>)))))"

definition fresh_os :: "'v os_object" where
  "fresh_os = \<lparr>os_booted_deployment = Map.empty, os_default_deployment = Map.empty, os_rollback_deployment = Map.empty,
     os_cached_update = None, os_has_cached_update_rpm_diff = False\<rparr>"

abbreviation BASE_DBUS_PATH :: string where "BASE_DBUS_PATH \<equiv> ''/org/projectatomic/rpmostree1''"

text \<open>A failure to load the properties is only logged.\<close>

definition rpmostreed_os_new :: "('c, 'v) reload_env \<Rightarrow> OstreeSysroot \<Rightarrow> string \<Rightarrow> 'v os_object result" where
  "rpmostreed_os_new env sr name =
     bindR (generate_object_path (is_object_path env) BASE_DBUS_PATH name) (\<lambda>_.
       Inr (snd (rpmostreed_os_load_internals env sr name fresh_os)))"

definition rpmostreed_osexperimental_new :: "('c, 'v) reload_env \<Rightarrow> string \<Rightarrow> unit result" where
  "rpmostreed_osexperimental_new env name =
     bindR (generate_object_path (is_object_path env) BASE_DBUS_PATH name) (\<lambda>_. Inr ())"

section \<open>The sysroot object\<close>

text \<open>The hash tables of the OS objects are association lists; the OS names of the second one suffice.\<close>

record 'v sysroot_object =
  ss_repo_last_stat :: "int \<times> int"
  ss_ot_sysroot :: OstreeSysroot
  ss_booted :: string
  ss_deployments :: "'v status_dict list"
  ss_os_interfaces :: "(string \<times> 'v os_object) list"
  ss_osexperimental_interfaces :: "string list"
  ss_automatic_update_policy :: string
  ss_updated_signals :: nat

definition add_os_interface ::
  "('c, 'v) reload_env \<Rightarrow> string \<Rightarrow> 'v sysroot_object \<Rightarrow> unit result \<times> 'v sysroot_object" where
  "add_os_interface env deployment_os ss =
     (if deployment_os \<in> fst ` set (ss_os_interfaces ss) then (Inr (), ss)
      else case rpmostreed_os_new env (ss_ot_sysroot ss) deployment_os of
             Inl e \<Rightarrow> (Inl e, ss)
           | Inr obj \<Rightarrow>
               (let ss = ss\<lparr>ss_os_interfaces := (deployment_os, obj) # ss_os_interfaces ss\<rparr>
                in case rpmostreed_osexperimental_new env deployment_os of
                     Inl e \<Rightarrow> (Inl e, ss)
                   | Inr _ \<Rightarrow> (Inr (), ss\<lparr>ss_osexperimental_interfaces := List.insert deployment_os (ss_osexperimental_interfaces ss)\<rparr>)))"

fun populate_loop ::
  "('c, 'v) reload_env \<Rightarrow> nat \<Rightarrow> OstreeDeployment list \<Rightarrow> 'v status_dict list \<Rightarrow> 'v sysroot_object \<Rightarrow>
   'v status_dict list result \<times> 'v sysroot_object" where
  "populate_loop env i [] builder ss = (Inr builder, ss)"
| "populate_loop env i (deployment # deployments) builder ss =
     (case rpmostreed_deployment_generate_variant (re_status env) (ss_ot_sysroot ss) deployment True of
        Inl e \<Rightarrow> (Inl (Prefixed ''Reading deployment %u'' e), ss)
      | Inr variant \<Rightarrow>
          (case add_os_interface env (d_osname deployment) ss of
             (Inl e, ss) \<Rightarrow> (Inl e, ss)
           | (Inr _, ss) \<Rightarrow> populate_loop env (Suc i) deployments (builder @ [variant]) ss))"

definition remove_dead_os :: "string set \<Rightarrow> 'v sysroot_object \<Rightarrow> 'v sysroot_object" where
  "remove_dead_os seen_osnames ss =
     (let dead = fst ` set (ss_os_interfaces ss) - seen_osnames
      in ss\<lparr>ss_os_interfaces := filter (\<lambda>(k, _). k \<in> seen_osnames) (ss_os_interfaces ss),
            ss_osexperimental_interfaces := filter (\<lambda>k. k \<notin> dead) (ss_osexperimental_interfaces ss)\<rparr>)"

definition sysroot_populate_deployments_unlocked ::
  "('c, 'v) reload_env \<Rightarrow> 'v sysroot_object \<Rightarrow> bool result \<times> 'v sysroot_object" where
  "sysroot_populate_deployments_unlocked env ss =
     (case load_if_changed env of
        Inl e \<Rightarrow> (Inl e, ss)
      | Inr loaded \<Rightarrow>
          (let sysroot_changed = loaded \<noteq> None;
               ss = (case loaded of Some sr \<Rightarrow> ss\<lparr>ss_ot_sysroot := sr\<rparr> | None \<Rightarrow> ss)
           in case repo_mtime env of
                Inl e \<Rightarrow> (Inl e, ss)
              | Inr repo_new_stat \<Rightarrow>
                  (let repo_changed = ss_repo_last_stat ss \<noteq> repo_new_stat;
                       ss = (if repo_changed then ss\<lparr>ss_repo_last_stat := repo_new_stat\<rparr> else ss)
                   in if \<not> (sysroot_changed \<or> repo_changed) then (Inr False, ss)
                      else case (case sr_booted (ss_ot_sysroot ss) of
                                   Some booted \<Rightarrow> generate_object_path (is_object_path env) BASE_DBUS_PATH (d_osname booted)
                                 | None \<Rightarrow> Inr ''/'') of
                             Inl e \<Rightarrow> (Inl e, ss)
                           | Inr path \<Rightarrow>
                               (let deployments = sr_deployments (ss_ot_sysroot ss)
                                in case populate_loop env 0 deployments [] (ss\<lparr>ss_booted := path\<rparr>) of
                                     (Inl e, ss) \<Rightarrow> (Inl e, ss)
                                   | (Inr variants, ss) \<Rightarrow>
                                       (Inr True, (remove_dead_os (d_osname ` set deployments) ss)\<lparr>ss_deployments := variants\<rparr>)))))"

section \<open>Reloading\<close>

text \<open>The signal \<open>updated\<close>, handled by \<open>sysroot_changed\<close> of each OS object; failures there are only logged.\<close>

definition sysroot_changed :: "('c, 'v) reload_env \<Rightarrow> OstreeSysroot \<Rightarrow> string \<times> 'v os_object \<Rightarrow> string \<times> 'v os_object" where
  "sysroot_changed env sr = (\<lambda>(name, os). (name, snd (rpmostreed_os_load_internals env sr name os)))"

definition emit_updated :: "('c, 'v) reload_env \<Rightarrow> 'v sysroot_object \<Rightarrow> 'v sysroot_object" where
  "emit_updated env ss =
     ss\<lparr>ss_os_interfaces := map (sysroot_changed env (ss_ot_sysroot ss)) (ss_os_interfaces ss),
        ss_updated_signals := ss_updated_signals ss + 1\<rparr>"

definition sysroot_reload_ostree_configs_and_deployments ::
  "('c, 'v) reload_env \<Rightarrow> 'v sysroot_object \<Rightarrow> bool result \<times> 'v sysroot_object" where
  "sysroot_reload_ostree_configs_and_deployments env ss =
     (case repo_reload_config env of
        Inl e \<Rightarrow> (Inl e, ss)
      | Inr _ \<Rightarrow>
          (case sysroot_populate_deployments_unlocked env ss of
             (Inl e, ss) \<Rightarrow> (Inl e, ss)
           | (Inr did_change, ss) \<Rightarrow> (Inr did_change, if did_change then emit_updated env ss else ss)))"

definition rpmostreed_sysroot_reload :: "('c, 'v) reload_env \<Rightarrow> 'v sysroot_object \<Rightarrow> unit result \<times> 'v sysroot_object" where
  "rpmostreed_sysroot_reload env ss =
     (case sysroot_reload_ostree_configs_and_deployments env ss of
        (r, ss) \<Rightarrow> (prefix_error ''Sysroot reload'' (bindR r (\<lambda>_. Inr ())), ss))"

definition rpmostreed_sysroot_load_state :: "('c, 'v) reload_env \<Rightarrow> 'v sysroot_object \<Rightarrow> OstreeSysroot result \<times> 'v sysroot_object" where
  "rpmostreed_sysroot_load_state env ss =
     (case rpmostreed_sysroot_reload env ss of
        (Inl e, ss) \<Rightarrow> (Inl e, ss)
      | (Inr _, ss) \<Rightarrow> (Inr (ss_ot_sysroot ss), ss))"

definition on_deploy_changed :: "('c, 'v) reload_env \<Rightarrow> bool \<Rightarrow> 'v sysroot_object \<Rightarrow> 'v sysroot_object" where
  "on_deploy_changed env attribute_changed ss =
     (if attribute_changed then snd (rpmostreed_sysroot_reload env ss) else ss)"

definition handle_reload_via_idle :: "('c, 'v) reload_env \<Rightarrow> 'v sysroot_object \<Rightarrow> unit result \<times> 'v sysroot_object" where
  "handle_reload_via_idle env ss =
     (case sysroot_populate_deployments_unlocked env ss of
        (Inl e, ss) \<Rightarrow> (Inl (Prefixed ''Handling reload: '' e), ss)
      | (Inr _, ss) \<Rightarrow> (Inr (), emit_updated env ss))"

definition reset_config_properties :: "daemon \<Rightarrow> 'v sysroot_object \<Rightarrow> 'v sysroot_object" where
  "reset_config_properties d ss =
     ss\<lparr>ss_automatic_update_policy := rpmostree_auto_update_policy_to_str (auto_update_policy d)\<rparr>"

definition reload_config ::
  "('c, 'v) reload_env \<Rightarrow> file_error + key_file \<Rightarrow> daemon \<Rightarrow> 'v sysroot_object \<Rightarrow> unit result \<times> daemon \<times> 'v sysroot_object" where
  "reload_config env loaded d ss =
     (case rpmostreed_daemon_reload_config loaded d of
        Inl e \<Rightarrow> (Inl (Prefixed ''Reloading daemon configuration'' e), d, ss)
      | Inr (d, config_changed) \<Rightarrow>
          (let ss = (if config_changed then reset_config_properties d ss else ss)
           in case sysroot_reload_ostree_configs_and_deployments env ss of
                (Inl e, ss) \<Rightarrow> (Inl (Prefixed ''Reloading ostree details'' e), d, ss)
              | (Inr did_change, ss) \<Rightarrow>
                  (Inr (), d, if config_changed \<and> \<not> did_change then emit_updated env ss else ss)))"

definition handle_reload_config ::
  "('c, 'v) reload_env \<Rightarrow> file_error + key_file \<Rightarrow> daemon \<Rightarrow> 'v sysroot_object \<Rightarrow> unit result \<times> daemon \<times> 'v sysroot_object" where
  "handle_reload_config env loaded d ss =
     (case reload_config env loaded d ss of
        (Inl e, d, ss) \<Rightarrow> (Inl (Prefixed ''Handling config reload: '' e), d, ss)
      | (Inr _, d, ss) \<Rightarrow> (Inr (), d, ss))"

definition handle_get_os :: "('c, 'v) reload_env \<Rightarrow> string \<Rightarrow> 'v sysroot_object \<Rightarrow> string result" where
  "handle_get_os env arg_name ss =
     (if arg_name = [] then Inr (ss_booted ss)
      else if arg_name \<in> fst ` set (ss_os_interfaces ss)
      then generate_object_path (is_object_path env) BASE_DBUS_PATH arg_name
      else Inl (Throw (''OS name '' @ [CHR 0x22] @ ''%s'' @ [CHR 0x22] @ '' not found'') [arg_name]))"

section \<open>The cached update\<close>

text \<open>
  C25: the cached update that an OS object publishes is always one that was computed for the booted deployment of this OS. An update
  that \<open>rpmostreed_update_generate_variant\<close> wrote is found again as long as the same deployment is booted; after booting
  into another one it is dropped and its file deleted.
\<close>

theorem cached_update_for_booted:
  assumes "rpmostreed_update_generate_variant (re_status env) booted staged sack = Inr (Some update)"
    and "cache_file_data env = Inr update" "open_cache_file env = None" "unlink_cache_file env = Inr ()"
    and "cache_file_size env = Inr n" "n \<le> max_metadata_size env"
  shows "refresh_cached_update_impl env sr osname =
    Inr (case booted_into sr osname of
           None \<Rightarrow> (None, False)
         | Some now_booted \<Rightarrow> if d_csum now_booted = d_csum booted then (Some update, False) else (None, True))"
  using assms update_for_booted [OF assms(1)]
  by (auto simp: refresh_cached_update_impl_def rpmostree_check_size_within_limit_def split: option.splits)

lemma cached_update_booted:
  assumes "refresh_cached_update_impl env sr osname = Inr (Some update, deleted)"
  obtains b where "sr_booted sr = Some b" "d_osname b = osname" "update ''update-sha256'' = Some (S_s (d_csum b))" "\<not> deleted"
  using assms by (auto simp: refresh_cached_update_impl_def booted_into_def bindR_Inr_iff split: option.splits if_splits file_error.splits status_value.splits)

section \<open>Reloading keeps the objects in step\<close>

definition os_objects_ok :: "'v sysroot_object \<Rightarrow> bool" where
  "os_objects_ok ss \<longleftrightarrow> distinct (map fst (ss_os_interfaces ss)) \<and> set (ss_osexperimental_interfaces ss) = fst ` set (ss_os_interfaces ss)"

text \<open>Both objects of an OS get the same path, so that one of them is never created without the other.\<close>

lemma add_os_interface_cases:
  assumes "add_os_interface env name ss = (r, ss')"
  obtains (present) "name \<in> fst ` set (ss_os_interfaces ss)" "r = Inr ()" "ss' = ss"
  | (failed) e where "r = Inl e" "ss' = ss"
  | (added) obj where "name \<notin> fst ` set (ss_os_interfaces ss)" "r = Inr ()"
      "ss' = ss\<lparr>ss_os_interfaces := (name, obj) # ss_os_interfaces ss, ss_osexperimental_interfaces := List.insert name (ss_osexperimental_interfaces ss)\<rparr>"
proof (cases "name \<in> fst ` set (ss_os_interfaces ss)")
  case False
  note defs = add_os_interface_def rpmostreed_os_new_def rpmostreed_osexperimental_new_def Let_def
  show thesis
  proof (cases "generate_object_path (is_object_path env) BASE_DBUS_PATH name")
    case (Inl e)
    show thesis by (rule failed [of e]) (use assms False Inl in \<open>auto simp: defs\<close>)
  next
    case (Inr path)
    show thesis by (rule added [OF False, of "snd (rpmostreed_os_load_internals env (ss_ot_sysroot ss) name fresh_os)"])
        (use assms False Inr in \<open>auto simp: defs\<close>)
  qed
next
  case True
  show thesis by (rule present [OF True]) (use assms True in \<open>simp_all add: add_os_interface_def\<close>)
qed

lemma add_os_interface_ok:
  assumes "add_os_interface env name ss = (r, ss')" "os_objects_ok ss"
  shows "os_objects_ok ss'" "r = Inr () \<Longrightarrow> fst ` set (ss_os_interfaces ss') = Set.insert name (fst ` set (ss_os_interfaces ss))"
    "ss_ot_sysroot ss' = ss_ot_sysroot ss" "ss_deployments ss' = ss_deployments ss" "ss_repo_last_stat ss' = ss_repo_last_stat ss"
    "ss_booted ss' = ss_booted ss"
  using assms(2) by (cases rule: add_os_interface_cases [OF assms(1)]; auto simp: os_objects_ok_def)+

lemma populate_loop_ok:
  assumes "populate_loop env i ds builder ss = (r, ss')" "os_objects_ok ss"
  shows "os_objects_ok ss' \<and> ss_ot_sysroot ss' = ss_ot_sysroot ss \<and> ss_deployments ss' = ss_deployments ss \<and>
    ss_repo_last_stat ss' = ss_repo_last_stat ss \<and> ss_booted ss' = ss_booted ss \<and>
    (case r of Inl _ \<Rightarrow> True
     | Inr variants \<Rightarrow> fst ` set (ss_os_interfaces ss') = fst ` set (ss_os_interfaces ss) \<union> d_osname ` set ds \<and>
         (\<exists>vs. variants = builder @ vs \<and>
           list_all2 (\<lambda>d v. rpmostreed_deployment_generate_variant (re_status env) (ss_ot_sysroot ss) d True = Inr v) ds vs))"
  using assms
proof (induction env i ds builder ss rule: populate_loop.induct)
  case (2 env i d ds builder ss)
  show ?case
  proof (cases "rpmostreed_deployment_generate_variant (re_status env) (ss_ot_sysroot ss) d True")
    case (Inl e)
    then show ?thesis using 2(2,3) by auto
  next
    case (Inr v)
    obtain r1 ss1 where add: "add_os_interface env (d_osname d) ss = (r1, ss1)" by fastforce
    note ok = add_os_interface_ok [OF add 2(3)]
    show ?thesis
    proof (cases r1)
      case (Inl e)
      then show ?thesis using 2(2) ok add Inr by auto
    next
      case Done: (Inr u)
      then have "populate_loop env (Suc i) ds (builder @ [v]) ss1 = (r, ss')" using 2(2) add Inr by simp
      from 2(1) [OF Inr add [symmetric] Done this ok(1)] ok(2-) Done Inr show ?thesis
        by (auto split: sum.splits)
    qed
  qed
qed auto

lemma remove_dead_os_ok:
  assumes "os_objects_ok ss" "seen \<subseteq> fst ` set (ss_os_interfaces ss)"
  shows "os_objects_ok ((remove_dead_os seen ss)\<lparr>ss_deployments := vs\<rparr>)"
    "fst ` set (ss_os_interfaces (remove_dead_os seen ss)) = seen"
proof -
  have keys: "fst ` {x \<in> set xs. case x of (k, _) \<Rightarrow> k \<in> seen} = fst ` set xs \<inter> seen" for xs :: "(string \<times> 'a os_object) list" by force
  show "fst ` set (ss_os_interfaces (remove_dead_os seen ss)) = seen"
    using assms(2) by (simp add: remove_dead_os_def Let_def keys Int_absorb1)
  show "os_objects_ok ((remove_dead_os seen ss)\<lparr>ss_deployments := vs\<rparr>)"
    using assms by (auto simp: os_objects_ok_def remove_dead_os_def Let_def keys distinct_map_filter)
qed

text \<open>A reload starts by recording what it found on disk; the rest of it is the same whatever the check for changes has seen.\<close>

definition recorded :: "OstreeSysroot option \<Rightarrow> int \<times> int \<Rightarrow> 'v sysroot_object \<Rightarrow> 'v sysroot_object" where
  "recorded loaded m ss =
     ss\<lparr>ss_ot_sysroot := (case loaded of Some sr \<Rightarrow> sr | None \<Rightarrow> ss_ot_sysroot ss), ss_repo_last_stat := m\<rparr>"

lemma recorded_simps [simp]:
  "ss_ot_sysroot (recorded loaded m ss) = (case loaded of Some sr \<Rightarrow> sr | None \<Rightarrow> ss_ot_sysroot ss)"
  "ss_repo_last_stat (recorded loaded m ss) = m" "ss_deployments (recorded loaded m ss) = ss_deployments ss"
  "os_objects_ok (recorded loaded m ss) = os_objects_ok ss" "os_objects_ok (ss\<lparr>ss_booted := path\<rparr>) = os_objects_ok ss"
  by (simp_all add: recorded_def os_objects_ok_def)

lemma populate_changed:
  assumes "sysroot_populate_deployments_unlocked env ss = (r, ss')" "r \<noteq> Inr False" "load_if_changed env = Inr loaded" "repo_mtime env = Inr m"
  obtains (path) e where "r = Inl e" "ss' = recorded loaded m ss"
  | (loop) path s e where "populate_loop env 0 (sr_deployments (ss_ot_sysroot s)) [] s = (Inl e, ss')" "r = Inl e"
      "s = (recorded loaded m ss)\<lparr>ss_booted := path\<rparr>"
  | (finished) path s variants s1 where "populate_loop env 0 (sr_deployments (ss_ot_sysroot s)) [] s = (Inr variants, s1)" "r = Inr True"
      "s = (recorded loaded m ss)\<lparr>ss_booted := path\<rparr>"
      "ss' = (remove_dead_os (d_osname ` set (sr_deployments (ss_ot_sysroot s))) s1)\<lparr>ss_deployments := variants\<rparr>"
proof -
  let ?s = "recorded loaded m ss"
  let ?path = "case sr_booted (ss_ot_sysroot ?s) of
    Some booted \<Rightarrow> generate_object_path (is_object_path env) BASE_DBUS_PATH (d_osname booted) | None \<Rightarrow> Inr ''/''"
  have run: "sysroot_populate_deployments_unlocked env ss =
    (case ?path of Inl e \<Rightarrow> (Inl e, ?s)
     | Inr path \<Rightarrow> (case populate_loop env 0 (sr_deployments (ss_ot_sysroot ?s)) [] (?s\<lparr>ss_booted := path\<rparr>) of
         (Inl e, ss) \<Rightarrow> (Inl e, ss)
       | (Inr variants, ss) \<Rightarrow> (Inr True, (remove_dead_os (d_osname ` set (sr_deployments (ss_ot_sysroot ?s))) ss)\<lparr>ss_deployments := variants\<rparr>)))"
    using assms by (cases loaded; cases "ss_repo_last_stat ss = m")
      (auto simp: sysroot_populate_deployments_unlocked_def recorded_def Let_def split: if_splits cong: sum.case_cong)
  show thesis
  proof (cases ?path)
    case (Inl e)
    then show thesis using run assms(1) by (intro path [of e]) auto
  next
    case (Inr p)
    let ?t = "?s\<lparr>ss_booted := p\<rparr>"
    obtain r1 s1 where l: "populate_loop env 0 (sr_deployments (ss_ot_sysroot ?s)) [] ?t = (r1, s1)" by fastforce
    show thesis
    proof (cases r1)
      case Failed: (Inl e)
      show thesis by (rule loop [of ?t e p]) (use run assms(1) Inr l Failed in auto)
    next
      case Done: (Inr variants)
      show thesis by (rule finished [of ?t variants s1 p]) (use run assms(1) Inr l Done in auto)
    qed
  qed
qed

lemma populate_unchanged:
  assumes "sysroot_populate_deployments_unlocked env ss = (r, ss')" "r = Inr False \<or> isl (load_if_changed env) \<or> isl (repo_mtime env)"
  shows "\<exists>sr. ss' = ss\<lparr>ss_ot_sysroot := sr\<rparr>" "r \<noteq> Inr True"
  using assms by (auto simp: sysroot_populate_deployments_unlocked_def Let_def split: sum.splits option.splits if_splits prod.splits
      intro: exI [of _ "ss_ot_sysroot ss"])

text \<open>
  C13: a reload that reports a change publishes one entry for each deployment of the loaded sysroot, in order, and has exactly one OS
  object for each OS with a deployment; in all cases the two kinds of OS objects exist for the same names.
\<close>

theorem populate_publishes:
  assumes "sysroot_populate_deployments_unlocked env ss = (r, ss')" "os_objects_ok ss"
  shows "os_objects_ok ss' \<and>
    (if r = Inr True
     then list_all2 (\<lambda>d v. rpmostreed_deployment_generate_variant (re_status env) (ss_ot_sysroot ss') d True = Inr v)
            (sr_deployments (ss_ot_sysroot ss')) (ss_deployments ss') \<and>
          fst ` set (ss_os_interfaces ss') = d_osname ` set (sr_deployments (ss_ot_sysroot ss'))
     else ss_deployments ss' = ss_deployments ss)"
proof (cases "r = Inr False \<or> isl (load_if_changed env) \<or> isl (repo_mtime env)")
  case True
  from populate_unchanged [OF assms(1) this] obtain sr where "ss' = ss\<lparr>ss_ot_sysroot := sr\<rparr>" "r \<noteq> Inr True" by blast
  then show ?thesis using assms(2) by (simp add: os_objects_ok_def)
next
  case False
  then obtain loaded m where ok: "load_if_changed env = Inr loaded" "repo_mtime env = Inr m"
    by (cases "load_if_changed env"; cases "repo_mtime env") auto
  have ne: "r \<noteq> Inr False" using False by blast
  show ?thesis
  proof (cases rule: populate_changed [OF assms(1) ne ok])
    case (1 e)
    then show ?thesis using assms(2) by simp
  next
    case (2 path s e)
    have "os_objects_ok s" "ss_deployments s = ss_deployments ss" using assms(2) by (simp_all add: 2(3))
    then show ?thesis using populate_loop_ok [OF 2(1)] 2(2) by simp
  next
    case (3 path s variants s1)
    have "os_objects_ok s" using assms(2) by (simp add: 3(3))
    note l = populate_loop_ok [OF 3(1) this]
    then have "d_osname ` set (sr_deployments (ss_ot_sysroot s)) \<subseteq> fst ` set (ss_os_interfaces s1)" by simp
    note r = remove_dead_os_ok [OF _ this]
    have "ss_ot_sysroot ss' = ss_ot_sysroot s" "ss_os_interfaces ss' = ss_os_interfaces (remove_dead_os (d_osname ` set (sr_deployments (ss_ot_sysroot s))) s1)"
      "ss_deployments ss' = variants"
      using l by (simp_all add: 3(4) remove_dead_os_def Let_def)
    then show ?thesis using l r(1) [of variants] r(2) 3(2,4) by simp
  qed
qed

text \<open>
  C36: a reload that fails is not repeated. After it, as long as nothing changes on disk, the next reload succeeds without having
  done anything: the published deployments stay those of before, although the sysroot has been loaded.
\<close>

theorem populate_failure_forgotten:
  assumes "sysroot_populate_deployments_unlocked env ss = (Inl e, ss')" "os_objects_ok ss"
    and "load_if_changed env = Inr loaded" "repo_mtime env = Inr m"
  shows "sysroot_populate_deployments_unlocked (env\<lparr>load_if_changed := Inr None\<rparr>) ss' = (Inr False, ss') \<and>
    ss_deployments ss' = ss_deployments ss \<and> ss_ot_sysroot ss' = (case loaded of Some sr \<Rightarrow> sr | None \<Rightarrow> ss_ot_sysroot ss)"
proof -
  have "ss_repo_last_stat ss' = m \<and> ss_deployments ss' = ss_deployments ss \<and> ss_ot_sysroot ss' = ss_ot_sysroot (recorded loaded m ss)"
  proof (cases rule: populate_changed [OF assms(1) _ assms(3,4)])
    case (3 path s e)
    have "os_objects_ok s" using assms(2) by (simp add: 3(3))
    from populate_loop_ok [OF 3(1) this] show ?thesis by (simp add: 3(3))
  qed simp_all
  then show ?thesis using assms(4) by (auto simp: sysroot_populate_deployments_unlocked_def)
qed

section \<open>Examples\<close>

text \<open>A reload that finds \<open>demo_sysroot\<close>, and a daemon that has not loaded anything yet.\<close>

definition demo_reload :: "unit status_dict \<Rightarrow> (string, unit) reload_env" where
  "demo_reload update = \<lparr>re_status = demo_status, load_if_changed = Inr (Some demo_sysroot), repo_mtime = Inr (1, 0),
     repo_reload_config = Inr (), is_object_path = (\<lambda>_. True), query_deployments_for = (\<lambda>_ _. (None, None)),
     open_cache_file = None, cache_file_size = Inr 100, cache_file_data = Inr update, unlink_cache_file = Inr (),
     max_metadata_size = 1000, format_size = (\<lambda>_. [])\<rparr>"

definition unloaded :: "unit sysroot_object" where
  "unloaded = \<lparr>ss_repo_last_stat = (0, 0), ss_ot_sysroot = \<lparr>sr_deployments = [], sr_booted = None\<rparr>, ss_booted = ''/'', ss_deployments = [],
     ss_os_interfaces = [], ss_osexperimental_interfaces = [], ss_automatic_update_policy = ''none'', ss_updated_signals = 0\<rparr>"

theorem cached_update_for_booted_witness:
  "\<exists>update. refresh_cached_update_impl (demo_reload update) \<lparr>sr_deployments = [], sr_booted = Some (mk_deployment ''fedora'' ''c'' False)\<rparr> ''fedora'' =
     Inr (Some update, False) \<and>
   refresh_cached_update_impl (demo_reload update) demo_sysroot ''fedora'' = Inr (None, True)"
proof -
  obtain update where "rpmostreed_update_generate_variant demo_status (mk_deployment ''fedora'' ''c'' False) None None = Inr (Some update)"
    using demo_update by blast
  then have "refresh_cached_update_impl (demo_reload update) sr osname =
      Inr (case booted_into sr osname of None \<Rightarrow> (None, False)
           | Some now_booted \<Rightarrow> if d_csum now_booted = d_csum (mk_deployment ''fedora'' ''c'' False) then (Some update, False) else (None, True))"
    for sr osname
    by (intro cached_update_for_booted [where staged = None and sack = None and n = 100]) (simp_all add: demo_reload_def word_le_nat_alt)
  then show ?thesis by (intro exI [of _ update]) (simp add: booted_into_def mk_deployment_def demo_sysroot_def)
qed

theorem populate_publishes_witness:
  "\<exists>ss'. sysroot_populate_deployments_unlocked (demo_reload Map.empty) unloaded = (Inr True, ss') \<and>
     length (ss_deployments ss') = 4 \<and> fst ` set (ss_os_interfaces ss') = {''fedora'', ''centos''}"
proof -
  obtain r ss' where run: "sysroot_populate_deployments_unlocked (demo_reload Map.empty) unloaded = (r, ss')" by fastforce
  have "case sysroot_populate_deployments_unlocked (demo_reload Map.empty) unloaded of (Inr True, ss') \<Rightarrow>
      map d_osname (sr_deployments (ss_ot_sysroot ss')) = [''fedora'', ''fedora'', ''fedora'', ''centos''] | _ \<Rightarrow> False"
    by code_simp
  then have ok: "r = Inr True" and names: "map d_osname (sr_deployments (ss_ot_sysroot ss')) = [''fedora'', ''fedora'', ''fedora'', ''centos'']"
    using run by (auto split: sum.splits bool.splits)
  have "os_objects_ok unloaded" by (simp add: os_objects_ok_def unloaded_def)
  from populate_publishes [OF run this] ok
  have "length (ss_deployments ss') = length (sr_deployments (ss_ot_sysroot ss'))" "fst ` set (ss_os_interfaces ss') = set (map d_osname (sr_deployments (ss_ot_sysroot ss')))"
    by (auto dest: list_all2_lengthD)
  moreover have "length (sr_deployments (ss_ot_sysroot ss')) = 4"
    using arg_cong [OF names, of length] unfolding length_map by simp
  ultimately show ?thesis using run ok names
    by (intro exI [of _ ss']) (simp add: Set.insert_commute)
qed

theorem populate_failure_forgotten_witness:
  "\<exists>e ss'. sysroot_populate_deployments_unlocked ((demo_reload Map.empty)\<lparr>is_object_path := \<lambda>_. False\<rparr>) unloaded = (Inl e, ss') \<and>
     sysroot_populate_deployments_unlocked ((demo_reload Map.empty)\<lparr>is_object_path := \<lambda>_. False, load_if_changed := Inr None\<rparr>) ss' = (Inr False, ss') \<and>
     ss_deployments ss' = [] \<and> ss_ot_sysroot ss' = demo_sysroot"
proof -
  let ?env = "(demo_reload Map.empty)\<lparr>is_object_path := \<lambda>_. False\<rparr>"
  obtain r ss' where run: "sysroot_populate_deployments_unlocked ?env unloaded = (r, ss')" by fastforce
  have "case sysroot_populate_deployments_unlocked ?env unloaded of (Inl _, _) \<Rightarrow> True | _ \<Rightarrow> False" by code_simp
  then obtain e where "sysroot_populate_deployments_unlocked ?env unloaded = (Inl e, ss')" using run by (auto split: sum.splits)
  moreover have "os_objects_ok unloaded" by (simp add: os_objects_ok_def unloaded_def)
  moreover have "load_if_changed ?env = Inr (Some demo_sysroot)" "repo_mtime ?env = Inr (1, 0)" "ss_deployments unloaded = []"
    by (simp_all add: demo_reload_def unloaded_def)
  moreover note populate_failure_forgotten [OF calculation(1-4)]
  ultimately show ?thesis by (intro exI [of _ e] exI [of _ ss']) simp
qed

end
