(* ===== verification/Effects.thy ===== *)
theory Effects
  imports Deployments Origin
begin

text \<open>
  Running a transaction: programs that call libostree, libdnf, the file system and the rest of the system. A
  program takes the state of the worker to a result and a new state. Every outside call is an event of the
  history; its answer comes from a \<open>world\<close>, which may depend on everything that happened before. So a statement
  about all worlds covers every failure of every call. The rules at the end compose statements about programs.
\<close>

section \<open>Calls\<close>

record pull_options =
  po_remote :: string
  po_refs :: "string list"
  po_subdir :: "string option"
  po_commit_only :: bool
  po_timestamp_check :: bool
  po_override :: "string option"
  po_depth :: "int option"

record deploy_options =
  do_locked :: bool
  do_kargs :: "string list"
  do_overlay_initrds :: "string list"

text \<open>
  An event is the function called, with its arguments. \<open>Call\<close> is any function on strings, \<open>On_deployment\<close> one on a
  deployment; the calls that change the boot configuration have an event of their own.
\<close>

datatype io =
    Call string "string list"
  | On_deployment string OstreeDeployment
  | Pull pull_options
  | Set_treefile treefile bool
  | Stage_tree string string treefile OstreeDeployment deploy_options
  | Deploy_tree string string treefile OstreeDeployment deploy_options
  | Simple_write string OstreeDeployment "OstreeDeployment option" "write_flag list"
  | Write_deployments "OstreeDeployment list" bool
  | Syscore_cleanup
  | Reboot

abbreviation Message :: "string \<Rightarrow> string list \<Rightarrow> io" where
  "Message fmt values \<equiv> Call ''rpmostree_output_message'' (fmt # values)"

text \<open>The events after which the deployments of the sysroot may be other ones.\<close>

fun writes_deployments :: "io \<Rightarrow> bool" where
  "writes_deployments (Stage_tree _ _ _ _ _) = True"
| "writes_deployments (Deploy_tree _ _ _ _ _) = True"
| "writes_deployments (Simple_write _ _ _ _) = True"
| "writes_deployments (Write_deployments _ _) = True"
| "writes_deployments _ = False"

section \<open>Answers\<close>

text \<open>
  What the last call of a history returns. A call either fails with a message or returns the value of its
  type. \<open>w_sysroot\<close> and \<open>w_refs\<close> are the deployments and refs after a libostree call that may change them.
\<close>

record commit =
  c_version :: "string option"
  c_parent :: "string option"
  c_state_sha512 :: "string option"
  c_initramfs_args :: "string list option"

record RpmKernel =
  k_kver :: string
  k_bootdir :: string
  k_path :: string
  k_initramfs :: "string option"

record sack_package = DnfPackage +
  dnf_reponame :: string

record 'v world =
  w_fails :: "io list \<Rightarrow> string option"
  w_bool :: "io list \<Rightarrow> bool"
  w_str :: "io list \<Rightarrow> string"
  w_opt_str :: "io list \<Rightarrow> string option"
  w_strs :: "io list \<Rightarrow> string list"
  w_origin :: "io list \<Rightarrow> treefile"
  w_sack :: "io list \<Rightarrow> sack_package list"
  w_opt_sack :: "io list \<Rightarrow> sack_package list option"
  w_layered :: "io list \<Rightarrow> layeredmeta \<times> 'v commit_dict"
  w_commit :: "io list \<Rightarrow> commit"
  w_kernel :: "io list \<Rightarrow> RpmKernel"
  w_deployment :: "io list \<Rightarrow> OstreeDeployment"
  w_inhibitors :: "io list \<Rightarrow> (string \<times> string \<times> string \<times> string) list"
  w_sysroot :: "io list \<Rightarrow> OstreeSysroot"
  w_refs :: "io list \<Rightarrow> refs"
  w_syscore :: "io list \<Rightarrow> 'v syscore_env"
  w_lock_layering :: "io list \<Rightarrow> bool"
  w_disable_recommends :: "io list \<Rightarrow> bool"
  w_selector :: "sack_package list \<Rightarrow> string \<Rightarrow> sack_package list"
  w_is_digest_reference :: "string \<Rightarrow> bool"
  w_parse_refspec :: "string \<Rightarrow> (string option \<times> string) option"
  w_origin_env :: origin_env
  w_merge_deployment :: "OstreeSysroot \<Rightarrow> string \<Rightarrow> OstreeDeployment option"
  w_kargs_from_string :: "string \<Rightarrow> string list"
  w_query_deployments :: "OstreeSysroot \<Rightarrow> string \<Rightarrow> OstreeDeployment option \<times> OstreeDeployment option"

section \<open>Programs\<close>

record worker =
  history :: "io list"
  sysroot :: OstreeSysroot
  repo_refs_of :: refs

type_synonym 'a program = "worker \<Rightarrow> 'a result \<times> worker"

definition return :: "'a \<Rightarrow> 'a program" where
  "return a s = (Inr a, s)"

definition throw :: "gerror \<Rightarrow> 'a program" where
  "throw e s = (Inl e, s)"

definition bindP :: "'a program \<Rightarrow> ('a \<Rightarrow> 'b program) \<Rightarrow> 'b program" where
  "bindP m f s = (case m s of (Inl e, s') \<Rightarrow> (Inl e, s') | (Inr a, s') \<Rightarrow> f a s')"

definition lift :: "'a result \<Rightarrow> 'a program" where
  "lift r s = (r, s)"

definition prefixP :: "string \<Rightarrow> 'a program \<Rightarrow> 'a program" where
  "prefixP msg m s = (case m s of (r, s') \<Rightarrow> (prefix_error msg r, s'))"

text \<open>\<open>g_assert\<close>.\<close>

definition assertP :: "string \<Rightarrow> bool \<Rightarrow> unit program" where
  "assertP what b = (if b then return () else throw (Abort what))"

definition whenP :: "bool \<Rightarrow> unit program \<Rightarrow> unit program" where
  "whenP b m = (if b then m else return ())"

fun foldP :: "('a \<Rightarrow> 'b \<Rightarrow> 'a program) \<Rightarrow> 'a \<Rightarrow> 'b list \<Rightarrow> 'a program" where
  "foldP f a [] = return a"
| "foldP f a (x # xs) = bindP (f a x) (\<lambda>a. foldP f a xs)"

text \<open>A call that cannot fail, a fallible call with an answer, one without, and one that may change the sysroot or the refs.\<close>

definition tell :: "io \<Rightarrow> unit program" where
  "tell e s = (Inr (), s\<lparr>history := history s @ [e]\<rparr>)"

definition ask :: "'v world \<Rightarrow> io \<Rightarrow> (io list \<Rightarrow> 'a) \<Rightarrow> 'a program" where
  "ask w e f s =
     (let h = history s @ [e]; s = s\<lparr>history := h\<rparr>
      in case w_fails w h of Some m \<Rightarrow> (Inl (External m), s) | None \<Rightarrow> (Inr (f h), s))"

definition perform :: "'v world \<Rightarrow> io \<Rightarrow> unit program" where
  "perform w e = ask w e (\<lambda>_. ())"

text \<open>Values that change without a call of the transaction, like the configuration of the daemon.\<close>

definition look :: "(io list \<Rightarrow> 'a) \<Rightarrow> 'a program" where
  "look f s = (Inr (f (history s)), s)"

definition get_sysroot :: "OstreeSysroot program" where
  "get_sysroot s = (Inr (sysroot s), s)"

definition ask_sysroot :: "'v world \<Rightarrow> io \<Rightarrow> (io list \<Rightarrow> 'a) \<Rightarrow> 'a program" where
  "ask_sysroot w e f = bindP (ask w e f) (\<lambda>a s. (Inr a, s\<lparr>sysroot := w_sysroot w (history s)\<rparr>))"

definition perform_refs :: "'v world \<Rightarrow> io \<Rightarrow> unit program" where
  "perform_refs w e s =
     (case perform w e s of (r, s') \<Rightarrow> (r, s'\<lparr>repo_refs_of := w_refs w (history s')\<rparr>))"

text \<open>\<open>ostree_repo_set_ref_immediate\<close>: a remote ref is stored under \<open>remote:ref\<close>.\<close>

definition set_ref_immediate :: "'v world \<Rightarrow> string option \<Rightarrow> string \<Rightarrow> string \<Rightarrow> unit program" where
  "set_ref_immediate w remote ref rev1 =
     bindP (perform w (Call ''ostree_repo_set_ref_immediate'' [case remote of None \<Rightarrow> [] | Some r \<Rightarrow> r, ref, rev1])) (\<lambda>_ s.
       let name = (case remote of None \<Rightarrow> ref | Some r \<Rightarrow> r @ '':'' @ ref)
       in (Inr (), s\<lparr>repo_refs_of := set_ref (repo_refs_of s) (name, Some rev1)\<rparr>))"

text \<open>The cleanup of \<open>Deployments\<close> on the current sysroot and refs.\<close>

definition syscore_cleanup :: "'v world \<Rightarrow> unit program" where
  "syscore_cleanup w s =
     (let h = history s @ [Syscore_cleanup]; s = s\<lparr>history := h\<rparr>
      in case rpmostree_syscore_cleanup (w_syscore w h) (sysroot s) (repo_refs_of s) of
           Inl e \<Rightarrow> (Inl e, s\<lparr>repo_refs_of := w_refs w h\<rparr>)
         | Inr (msgs, refs) \<Rightarrow> (Inr (), s\<lparr>repo_refs_of := refs\<rparr>))"

section \<open>Rules\<close>

lemma bindP_cong [fundef_cong]:
  "m = m' \<Longrightarrow> (\<And>a. f a = g a) \<Longrightarrow> bindP m f = bindP m' g"
  by presburger

lemma bindP_Inr: "m s = (Inr a, s') \<Longrightarrow> bindP m f s = f a s'"
  by (simp add: bindP_def)

lemma bindP_Inl: "m s = (Inl e, s') \<Longrightarrow> bindP m f s = (Inl e, s')"
  by (simp add: bindP_def)

lemma bindP_eq_Inr: "bindP m f s = (Inr b, s'') \<longleftrightarrow> (\<exists>a s'. m s = (Inr a, s') \<and> f a s' = (Inr b, s''))"
  by (auto simp: bindP_def split: prod.splits sum.splits)

lemma program_simps [simp]:
  "bindP (return a) f = f a" "bindP (throw e) f1 = throw e" "bindP (tell ev) f2 s = f2 () (s\<lparr>history := history s @ [ev]\<rparr>)"
  "bindP (lift (Inr a)) f = f a" "bindP (lift (Inl e)) f1 = throw e" "bindP get_sysroot f3 s = f3 (sysroot s) s"
  "bindP (look g) f4 s = f4 (g (history s)) s" "return a s = (Inr a, s)" "throw e s = (Inl e, s)"
  by (simp_all add: bindP_def return_def throw_def tell_def lift_def get_sysroot_def look_def fun_eq_iff)

lemma bindP_assoc [simp]: "bindP (bindP m f) g = bindP m (\<lambda>a. bindP (f a) g)"
  by (auto simp: bindP_def fun_eq_iff split: prod.splits sum.splits)

lemma ask_simps:
  "w_fails w (history s @ [e]) = None \<Longrightarrow>
   ask w e f s = (Inr (f (history s @ [e])), s\<lparr>history := history s @ [e]\<rparr>)"
  "w_fails w (history s @ [e]) = Some m \<Longrightarrow> ask w e f s = (Inl (External m), s\<lparr>history := history s @ [e]\<rparr>)"
  by (simp_all add: ask_def Let_def)

text \<open>
  A judgement on programs: every run relates the states before and after by \<open>R\<close>, does not stop the process if
  \<open>strict\<close>, and returns a value with the property \<open>Q\<close> if it returns one. The relation is reflexive and transitive, so the
  judgement composes.
\<close>

locale program_logic =
  fixes R :: "worker \<Rightarrow> worker \<Rightarrow> bool" and strict :: bool
  assumes refl: "R s s"
    and trans: "R s s' \<Longrightarrow> R s' s'' \<Longrightarrow> R s s''"
begin

definition does :: "'a program \<Rightarrow> ('a \<Rightarrow> bool) \<Rightarrow> bool" where
  "does m Q \<longleftrightarrow> (\<forall>s. R s (snd (m s)) \<and> (strict \<longrightarrow> safe (fst (m s))) \<and> (\<forall>a. fst (m s) = Inr a \<longrightarrow> Q a))"

lemma doesI:
  assumes "\<And>s r s'. m s = (r, s') \<Longrightarrow> R s s' \<and> (strict \<longrightarrow> safe r) \<and> (\<forall>a. r = Inr a \<longrightarrow> Q a)"
  shows "does m Q"
  unfolding does_def using assms by (metis prod.collapse)

lemma doesD:
  assumes "does m Q" "m s = (r, s')"
  shows "R s s'" "strict \<Longrightarrow> safe r" "r = Inr a \<Longrightarrow> Q a"
  using assms unfolding does_def by (metis fst_conv snd_conv)+

lemma does_mono: "does m Q' \<Longrightarrow> (\<And>a. Q' a \<Longrightarrow> Q a) \<Longrightarrow> does m Q"
  by (auto simp: does_def)

lemma does_bind:
  assumes m: "does m Q'" and f: "\<And>a. Q' a \<Longrightarrow> does (f a) Q"
  shows "does (bindP m f) Q"
proof (rule doesI)
  fix s r s'
  assume run: "bindP m f s = (r, s')"
  obtain r1 s1 where ms: "m s = (r1, s1)" by fastforce
  show "R s s' \<and> (strict \<longrightarrow> safe r) \<and> (\<forall>a. r = Inr a \<longrightarrow> Q a)"
  proof (cases r1)
    case (Inl e)
    then show ?thesis using run ms doesD(1,2) [OF m ms] by (cases e) (auto simp: bindP_def)
  next
    case (Inr a)
    with run ms have "f a s1 = (r, s')" by (simp add: bindP_def)
    from doesD [OF f [OF doesD(3) [OF m ms Inr]] this] doesD(1) [OF m ms] trans show ?thesis by blast
  qed
qed

lemma does_return: "Q a \<Longrightarrow> does (return a) Q"
  by (simp add: does_def refl)

lemma does_throw: "(strict \<Longrightarrow> safe (Inl e :: 'a result)) \<Longrightarrow> does (throw e :: 'a program) Q"
  by (simp add: does_def refl)

lemma does_lift: "(strict \<Longrightarrow> safe r) \<Longrightarrow> (\<And>a. r = Inr a \<Longrightarrow> Q a) \<Longrightarrow> does (lift r) Q"
  by (simp add: does_def lift_def refl)

lemma does_look: "(\<And>h. Q (f h)) \<Longrightarrow> does (look f) Q"
  by (simp add: does_def look_def refl)

lemma does_sysroot: "(\<And>sr. Q sr) \<Longrightarrow> does get_sysroot Q"
  by (simp add: does_def get_sysroot_def refl)

lemma does_assert: "(strict \<Longrightarrow> b) \<Longrightarrow> (b \<Longrightarrow> Q ()) \<Longrightarrow> does (assertP what b) Q"
  by (auto simp: assertP_def intro!: does_return does_throw)

lemma does_when: "(b \<Longrightarrow> does m Q) \<Longrightarrow> (\<not> b \<Longrightarrow> Q ()) \<Longrightarrow> does (whenP b m) Q"
  by (simp add: whenP_def does_return)

lemma does_if: "(b \<Longrightarrow> does m Q) \<Longrightarrow> (\<not> b \<Longrightarrow> does m' Q) \<Longrightarrow> does (if b then m else m') Q"
  by simp

lemma does_option: "(x = None \<Longrightarrow> does m Q) \<Longrightarrow> (\<And>a. x = Some a \<Longrightarrow> does (f a) Q) \<Longrightarrow> does (case x of None \<Rightarrow> m | Some a \<Rightarrow> f a) Q"
  by (cases x) simp_all

lemma does_prod: "(\<And>a b. x = (a, b) \<Longrightarrow> does (f a b) Q) \<Longrightarrow> does (case x of (a, b) \<Rightarrow> f a b) Q"
  by (cases x) simp

lemma does_sum: "(\<And>a. x = Inl a \<Longrightarrow> does (f a) Q) \<Longrightarrow> (\<And>b. x = Inr b \<Longrightarrow> does (g b) Q) \<Longrightarrow> does (case x of Inl a \<Rightarrow> f a | Inr b \<Rightarrow> g b) Q"
  by (cases x) simp_all

lemma does_prefix: "does m Q \<Longrightarrow> does (prefixP msg m) Q"
  unfolding does_def prefixP_def by (simp add: case_prod_beta)

lemma does_fold:
  assumes "\<And>a x. x \<in> set xs \<Longrightarrow> I a \<Longrightarrow> does (f a x) I" "I a"
  shows "does (foldP f a xs) I"
  using assms by (induction xs arbitrary: a) (auto intro!: does_bind does_return)

text \<open>The common case of a judgement on the states only.\<close>

abbreviation keeps :: "'a program \<Rightarrow> bool" where
  "keeps m \<equiv> does m (\<lambda>_. True)"

lemma keeps_bind: "keeps m \<Longrightarrow> (\<And>a. does (f a) Q) \<Longrightarrow> does (bindP m f) Q"
  by (rule does_bind)

lemmas does_control = does_return does_throw does_look does_sysroot does_assert does_when does_if does_option does_prod
  does_sum does_prefix

end

text \<open>
  The history only grows, by events of a given kind, and the deployments of the sysroot are the same unless one of
  the events wrote them.
\<close>

definition extends :: "(io \<Rightarrow> bool) \<Rightarrow> worker \<Rightarrow> worker \<Rightarrow> bool" where
  "extends P s s' \<longleftrightarrow>
     (\<exists>es. history s' = history s @ es \<and> list_all P es \<and> (sysroot s' = sysroot s \<or> list_ex writes_deployments es))"

interpretation quiet: program_logic "extends P" False for P
proof
  show "extends P s s''" if st: "extends P s s'" "extends P s' s''" for s s' s''
  proof -
    from st obtain es fs where "history s' = history s @ es" "list_all P es" "sysroot s' = sysroot s \<or> list_ex writes_deployments es"
      "history s'' = history s' @ fs" "list_all P fs" "sysroot s'' = sysroot s' \<or> list_ex writes_deployments fs"
      unfolding extends_def by blast
    then have "history s'' = history s @ (es @ fs) \<and> list_all P (es @ fs) \<and>
      (sysroot s'' = sysroot s \<or> list_ex writes_deployments (es @ fs))" by auto
    then show ?thesis unfolding extends_def by blast
  qed
qed (simp add: extends_def)

text \<open>No assertion fails, and what the value is like.\<close>

interpretation safely: program_logic "\<lambda>_ _. True" True
  by unfold_locales simp_all

interpretation yields: program_logic "\<lambda>_ _. True" False
  by unfold_locales simp_all

lemmas call_defs = tell_def ask_def perform_def ask_sysroot_def perform_refs_def set_ref_immediate_def bindP_def Let_def

lemma quiet_calls:
  "P e \<Longrightarrow> (\<And>h. Q (f h)) \<Longrightarrow> quiet.does P (ask w e f) Q"
  "P e \<Longrightarrow> writes_deployments e \<Longrightarrow> (\<And>h. Q (f h)) \<Longrightarrow> quiet.does P (ask_sysroot w e f) Q"
  "P e \<Longrightarrow> Q1 () \<Longrightarrow> quiet.does P (tell e) Q1"
  "P e \<Longrightarrow> Q1 () \<Longrightarrow> quiet.does P (perform w e) Q1"
  "P e \<Longrightarrow> Q1 () \<Longrightarrow> quiet.does P (perform_refs w e) Q1"
  "P (Call ''ostree_repo_set_ref_immediate'' [case remote of None \<Rightarrow> [] | Some r \<Rightarrow> r, ref, rev1]) \<Longrightarrow> Q1 () \<Longrightarrow>
   quiet.does P (set_ref_immediate w remote ref rev1) Q1"
  "P Syscore_cleanup \<Longrightarrow> Q1 () \<Longrightarrow> quiet.does P (syscore_cleanup w) Q1"
  by (auto simp: quiet.does_def extends_def call_defs syscore_cleanup_def split: option.splits sum.splits prod.splits)

lemma safely_calls:
  "(\<And>h. Q (f h)) \<Longrightarrow> safely.does (ask w e f) Q" "(\<And>h. Q (f h)) \<Longrightarrow> safely.does (ask_sysroot w e f) Q"
  "Q1 () \<Longrightarrow> safely.does (tell e) Q1" "Q1 () \<Longrightarrow> safely.does (perform w e) Q1" "Q1 () \<Longrightarrow> safely.does (perform_refs w e) Q1"
  "Q1 () \<Longrightarrow> safely.does (set_ref_immediate w remote ref rev1) Q1"
  by (auto simp: safely.does_def call_defs split: option.splits sum.splits prod.splits)

lemma yields_calls:
  "(\<And>h. Q (f h)) \<Longrightarrow> yields.does (ask w e f) Q" "(\<And>h. Q (f h)) \<Longrightarrow> yields.does (ask_sysroot w e f) Q"
  "Q1 () \<Longrightarrow> yields.does (tell e) Q1" "Q1 () \<Longrightarrow> yields.does (perform w e) Q1" "Q1 () \<Longrightarrow> yields.does (perform_refs w e) Q1"
  "Q1 () \<Longrightarrow> yields.does (set_ref_immediate w remote ref rev1) Q1" "Q1 () \<Longrightarrow> yields.does (syscore_cleanup w) Q1"
  by (auto simp: yields.does_def call_defs syscore_cleanup_def split: option.splits sum.splits prod.splits)

text \<open>What is known of the value carries over to the other judgements.\<close>

lemma quiet_value: "quiet.does P m (\<lambda>_. True) \<Longrightarrow> yields.does m Q \<Longrightarrow> quiet.does P m Q"
  by (simp add: quiet.does_def yields.does_def)

lemma safely_value: "safely.does m (\<lambda>_. True) \<Longrightarrow> yields.does m Q \<Longrightarrow> safely.does m Q"
  by (simp add: safely.does_def yields.does_def)

lemmas quiet_rules = quiet.does_control quiet_calls quiet.keeps_bind
lemmas safely_rules = safely.does_control safely_calls safely.keeps_bind
lemmas yields_rules = yields.does_control yields_calls yields.keeps_bind

section \<open>A world in which nothing fails\<close>

definition demo_worker :: worker where
  "demo_worker = \<lparr>history = [], sysroot = demo_sysroot, repo_refs_of = demo_refs\<rparr>"

text \<open>The pending and the rollback deployment of an OS: the first ones before and after the booted deployment.\<close>

fun pending_and_rollback ::
  "OstreeDeployment option \<Rightarrow> string \<Rightarrow> OstreeDeployment list \<Rightarrow> bool \<Rightarrow> OstreeDeployment option \<times> OstreeDeployment option" where
  "pending_and_rollback booted osname [] found = (None, None)"
| "pending_and_rollback booted osname (d # ds) found =
     (if d_osname d \<noteq> osname then pending_and_rollback booted osname ds found
      else if (case booted of Some b \<Rightarrow> ostree_deployment_equal d b | None \<Rightarrow> False) then pending_and_rollback booted osname ds True
      else let (p, r) = pending_and_rollback booted osname ds found
           in if found then (p, Some d) else (Some d, r))"

definition calm_world :: "'v world" where
  "calm_world = \<lparr>w_fails = (\<lambda>_. None), w_bool = (\<lambda>_. False), w_str = (\<lambda>_. ''rev''), w_opt_str = (\<lambda>_. None),
     w_strs = (\<lambda>_. []), w_origin = (\<lambda>_. demo_origin), w_sack = (\<lambda>_. []), w_opt_sack = (\<lambda>_. None),
     w_layered = (\<lambda>_. (\<lparr>is_layered = False, clientlayer_version = 0, base_commit = []\<rparr>,
       \<lparr>cd_packages = None, cd_spec_packages = None, cd_removed_base_packages = None, cd_replaced_base_packages = None,
        cd_replaced_base_remote_packages = None\<rparr>)),
     w_commit = (\<lambda>_. \<lparr>c_version = None, c_parent = None, c_state_sha512 = None, c_initramfs_args = None\<rparr>),
     w_kernel = (\<lambda>_. \<lparr>k_kver = ''6.1'', k_bootdir = ''usr/lib/modules'', k_path = ''vmlinuz'', k_initramfs = None\<rparr>),
     w_deployment = (\<lambda>_. mk_deployment ''fedora'' ''new'' False), w_inhibitors = (\<lambda>_. []), w_sysroot = (\<lambda>_. demo_sysroot),
     w_refs = (\<lambda>_. demo_refs), w_syscore = (\<lambda>_. demo_env), w_lock_layering = (\<lambda>_. False),
     w_disable_recommends = (\<lambda>_. False), w_selector = (\<lambda>_ _. []), w_is_digest_reference = (\<lambda>_. False),
     w_parse_refspec = (\<lambda>r. Some (None, r)), w_origin_env = demo_origin_env,
     w_merge_deployment = (\<lambda>sr os. rpmostree_syscore_get_origin_merge_deployment (sr_deployments sr) os),
     w_kargs_from_string = (\<lambda>k. [k]),
     w_query_deployments = (\<lambda>sr os. pending_and_rollback (sr_booted sr) os (sr_deployments sr) False)\<rparr>"

abbreviation quiet_world :: "unit world" where
  "quiet_world \<equiv> calm_world"

end
