(* ===== verification/Repo_Utils.thy ===== *)
theory Repo_Utils
  imports Effects Requests
begin

text \<open>
  Refspecs, revisions and the ancestry of a branch: \<^verbatim>\<open>src/src/daemon/rpmostreed-utils.cxx\<close>, with the two functions
  of \<^verbatim>\<open>src/src/daemon/rpmostreed-transaction-types.cxx\<close> that change what an origin follows. The batches of the
  ancestry walk double in size; the walk stops the process when the batch size leaves the range of \<open>int\<close>.
\<close>

section \<open>Refspecs\<close>

definition has_suffix :: "string \<Rightarrow> char \<Rightarrow> bool" where
  "has_suffix s c \<longleftrightarrow> s \<noteq> [] \<and> last s = c"

definition invalid_refspec :: "'a result" where
  "invalid_refspec = Inl (Throw ''RPM_OSTREED_ERROR_INVALID_REFSPEC'' [])"

definition rpmostreed_refspec_parse_partial ::
  "(string \<Rightarrow> (string option \<times> string) option) \<Rightarrow> string \<Rightarrow> string option \<Rightarrow> string result" where
  "rpmostreed_refspec_parse_partial ostree_parse_refspec new_provided_refspec base_spec =
     bindR (if has_suffix new_provided_refspec CHR '':''
            then Inr (Some (butlast new_provided_refspec), None, True)
            else if has_prefix new_provided_refspec '':''
            then Inr (None, Some (drop 1 new_provided_refspec), False)
            else case ostree_parse_refspec new_provided_refspec of
                   None \<Rightarrow> invalid_refspec
                 | Some (remote, ref) \<Rightarrow> Inr (remote, Some ref, True))
       (\<lambda>(remote, ref, infer_remote).
     bindR (case base_spec of
              None \<Rightarrow> Inr (None, None)
            | Some base \<Rightarrow>
                (case ostree_parse_refspec base of
                   None \<Rightarrow> invalid_refspec
                 | Some (origin_remote, origin_ref) \<Rightarrow> Inr (origin_remote, Some origin_ref)))
       (\<lambda>(origin_remote, origin_ref).
     bindR (case ref of
              None \<Rightarrow>
                (case origin_ref of
                   Some r \<Rightarrow> Inr (remote, r)
                 | None \<Rightarrow> Inl (Throw ''Could not determine default ref to pull.'' []))
            | Some r \<Rightarrow> Inr (if infer_remote \<and> remote = None then origin_remote else remote, r))
       (\<lambda>(remote, ref).
       Inr (case remote of None \<Rightarrow> ref | Some remote \<Rightarrow> remote @ '':'' @ ref))))"

datatype ParsedRevisionKind = Version_kind | Checksum_kind

definition parse_revision :: "(string \<Rightarrow> gerror option) \<Rightarrow> string \<Rightarrow> (ParsedRevisionKind \<times> string) result" where
  "parse_revision validate_checksum rev1 =
     prefix_error ''Parsing revision''
     (let key = takeWhile (\<lambda>c. c \<noteq> CHR ''='') rev1;
          rest = dropWhile (\<lambda>c. c \<noteq> CHR ''='') rev1;
          key_lower = map ascii_lower key
      in if rest \<noteq> [] \<and> key_lower = ''revision''
         then (case validate_checksum (tl rest) of Some e \<Rightarrow> Inl e | None \<Rightarrow> Inr (Checksum_kind, tl rest))
         else if rest \<noteq> [] \<and> key_lower = ''version'' then Inr (Version_kind, tl rest)
         else if validate_checksum rev1 = None then Inr (Checksum_kind, rev1)
         else Inr (Version_kind, rev1))"

section \<open>The ancestry of a branch\<close>

text \<open>A visitor updates its closure at each commit and tells whether to stop.\<close>

type_synonym 'c visitor = "string \<Rightarrow> commit \<Rightarrow> 'c \<Rightarrow> 'c \<times> bool"

definition load_commit :: "'v world \<Rightarrow> string \<Rightarrow> commit program" where
  "load_commit w checksum = ask w (Call ''ostree_repo_load_commit'' [checksum]) (w_commit w)"

definition resolve_rev :: "'v world \<Rightarrow> string \<Rightarrow> string program" where
  "resolve_rev w refspec = ask w (Call ''ostree_repo_resolve_rev'' [refspec]) (w_str w)"

fun visit_batch :: "'v world \<Rightarrow> 'c visitor \<Rightarrow> nat \<Rightarrow> string option \<Rightarrow> 'c \<Rightarrow> (string option \<times> 'c) program" where
  "visit_batch w visitor (Suc n) (Some checksum) closure =
     bindP (load_commit w checksum) (\<lambda>commit.
       let (closure, stop) = visitor checksum commit closure
       in visit_batch w visitor n (if stop then None else c_parent commit) closure)"
| "visit_batch w visitor _ checksum closure = return (checksum, closure)"

text \<open>The size of the batch of a pass. The first pass, number zero, fetches the head only.\<close>

definition depth_of :: "nat \<Rightarrow> nat" where
  "depth_of pass = 10 * 2 ^ (pass - 1)"

definition pull_ancestry_options :: "string \<Rightarrow> string \<Rightarrow> nat \<Rightarrow> pull_options" where
  "pull_ancestry_options remote ref pass =
     \<lparr>po_remote = remote, po_refs = [ref], po_subdir = None, po_commit_only = True, po_timestamp_check = False,
      po_override = None, po_depth = (if pass = 0 then None else Some (int (depth_of pass)))\<rparr>"

function pull_passes ::
  "'v world \<Rightarrow> string option \<Rightarrow> string \<Rightarrow> 'c visitor \<Rightarrow> nat \<Rightarrow> string \<Rightarrow> string option \<Rightarrow> 'c \<Rightarrow> 'c program" where
  "pull_passes w remote refspec visitor pass ref checksum closure =
     bindP (case remote of
              None \<Rightarrow> return ()
            | Some remote \<Rightarrow> perform_refs w (Pull (pull_ancestry_options remote ref pass))) (\<lambda>_.
     bindP (case checksum of None \<Rightarrow> resolve_rev w refspec | Some c \<Rightarrow> return c) (\<lambda>checksum.
     bindP (visit_batch w visitor (if pass = 0 then 1 else depth_of pass) (Some checksum) closure) (\<lambda>(checksum, closure).
       case checksum of
         None \<Rightarrow> return closure
       | Some c \<Rightarrow>
           if pass \<noteq> 0 \<and> depth_of pass * 2 > 2147483647 then throw (Abort ''signed integer overflow'')
           else pull_passes w remote refspec visitor (pass + 1) c (Some c) closure)))"
  by pat_completeness auto
termination
proof (relation "measure (\<lambda>(w, remote, refspec, visitor, pass, _). 29 - pass)", goal_cases)
  case (2 w remote refspec visitor pass ref checksum closure u a x aa ba c)
  then have "pass = 0 \<or> 10 * 2 ^ (pass - 1) * 2 \<le> (2147483647 :: nat)" by (simp add: depth_of_def not_less)
  moreover have "pass < 29" if "10 * 2 ^ (pass - 1) * 2 \<le> (2147483647 :: nat)"
  proof (rule ccontr)
    assume "\<not> pass < 29"
    then have "(2 :: nat) ^ 28 \<le> 2 ^ (pass - 1)" by (intro power_increasing) auto
    with that show False by simp
  qed
  ultimately show ?case by auto
qed simp

definition rpmostreed_repo_pull_ancestry :: "'v world \<Rightarrow> string \<Rightarrow> 'c visitor \<Rightarrow> 'c \<Rightarrow> 'c program" where
  "rpmostreed_repo_pull_ancestry w refspec visitor closure =
     (case w_parse_refspec w refspec of
        None \<Rightarrow> throw (External ''ostree_parse_refspec'')
      | Some (remote, ref) \<Rightarrow> pull_passes w remote refspec visitor 0 ref None closure)"

definition version_visitor :: "string \<Rightarrow> string option visitor" where
  "version_visitor version checksum commit closure =
     (if c_version commit = Some version then (Some checksum, True) else (closure, False))"

definition rpmostreed_repo_lookup_version :: "'v world \<Rightarrow> string \<Rightarrow> string \<Rightarrow> string program" where
  "rpmostreed_repo_lookup_version w refspec version =
     bindP (rpmostreed_repo_pull_ancestry w refspec (version_visitor version) None) (\<lambda>checksum.
       case checksum of
         None \<Rightarrow> throw (Throw ''Version %s not found in %s'' [version, refspec])
       | Some c \<Rightarrow> return c)"

definition checksum_visitor :: "string \<Rightarrow> bool visitor" where
  "checksum_visitor wanted_checksum checksum commit found = (checksum = wanted_checksum, checksum = wanted_checksum)"

definition rpmostreed_repo_lookup_checksum :: "'v world \<Rightarrow> string \<Rightarrow> string \<Rightarrow> unit program" where
  "rpmostreed_repo_lookup_checksum w refspec checksum =
     bindP (rpmostreed_repo_pull_ancestry w refspec (checksum_visitor checksum) False) (\<lambda>found.
       if \<not> found then throw (Throw ''Checksum %s not found in %s'' [checksum, refspec]) else return ())"

text \<open>
  The walk over what is cached has no bound; \<open>None\<close> stands for a walk that never ends.
\<close>

partial_function (option) cached_walk ::
  "'v world \<Rightarrow> string \<Rightarrow> string \<Rightarrow> worker \<Rightarrow> (string option result \<times> worker) option" where
  "cached_walk w version checksum s =
     (case load_commit w checksum s of
        (Inl e, s) \<Rightarrow> Some (Inl e, s)
      | (Inr commit, s) \<Rightarrow>
          (case version_visitor version checksum commit None of
             (closure, stop) \<Rightarrow>
               if stop then Some (Inr closure, s)
               else (case c_parent commit of
                  None \<Rightarrow> Some (Inr closure, s)
                | Some p \<Rightarrow> cached_walk w version p s)))"

definition rpmostreed_repo_lookup_cached_version ::
  "'v world \<Rightarrow> string \<Rightarrow> string \<Rightarrow> worker \<Rightarrow> (string result \<times> worker) option" where
  "rpmostreed_repo_lookup_cached_version w refspec version s =
     (case resolve_rev w refspec s of
        (Inl e, s) \<Rightarrow> Some (Inl e, s)
      | (Inr checksum, s) \<Rightarrow>
          map_option (\<lambda>(r, s).
            (bindR r (\<lambda>c. case c of None \<Rightarrow> Inl (Throw ''Version %s not cached in %s'' [version, refspec]) | Some c \<Rightarrow> Inr c), s))
            (cached_walk w version checksum s))"

section \<open>Inhibitors of a reboot\<close>

fun strstr :: "string \<Rightarrow> string \<Rightarrow> bool" where
  "strstr [] needle = (needle = [])"
| "strstr (c # s) needle = (has_prefix (c # s) needle \<or> strstr s needle)"

definition check_sd_inhibitor_locks :: "'v world \<Rightarrow> unit program" where
  "check_sd_inhibitor_locks w =
     bindP (prefixP ''Checking systemd inhibitor locks'' (ask w (Call ''ListInhibitors'' []) (w_inhibitors w))) (\<lambda>inhibitors.
       case filter (\<lambda>(what, who, why, mode). strstr what ''shutdown'' \<and> mode = ''block'') inhibitors of
         [] \<Rightarrow> return ()
       | (what, who, why, mode) # others \<Rightarrow>
           let nl = [CHR 0x0A];
               msg = ''Reboot blocked by a systemd inhibitor lock in `block` mode'' @ nl @ ''Held by: %s'' @ nl @ ''Reason: %s''
           in if others = [] then throw (Throw msg [who, why])
              else throw (Throw (msg @ nl @ ''and %d other blocking inhibitor lock(s)'' @ nl @
                     ''Use `systemd-inhibit --list` to see details'') [who, why, show_nat (length others)]))"

section \<open>Changing what an origin follows\<close>

definition custom_origin :: "vardict \<Rightarrow> (string option \<times> string option) result" where
  "custom_origin options =
     (case lookup_ss options ''custom-origin'' of
        None \<Rightarrow> Inr (None, None)
      | Some (url, description) \<Rightarrow>
          if url \<noteq> [] \<and> description = [] then Inl (Throw ''Invalid custom-origin'' []) else Inr (Some url, Some description))"

text \<open>The result is the new origin, the old refspec (\<open>NULL\<close> for a container image) and the new one.\<close>

definition change_origin_refspec ::
  "'v world \<Rightarrow> vardict \<Rightarrow> treefile \<Rightarrow> string \<Rightarrow> (treefile \<times> string option \<times> string) program" where
  "change_origin_refspec w options origin refspec =
     (let refspec = (if has_prefix refspec ''ostree://'' then drop 9 refspec else refspec);
          env = w_origin_env w
      in bindP (lift (rpmostree_origin_get_refspec env origin)) (\<lambda>(current_kind, current_refspec).
         bindP (lift (custom_origin options)) (\<lambda>(url, description).
           case refspec_classify env refspec of
             Container \<Rightarrow>
               let (url, description) = (if w_is_digest_reference w refspec then (url, description) else (None, None));
                   origin = rpmostree_origin_set_rebase_custom env origin refspec url description
               in if current_kind = Container \<and> current_refspec = refspec
                  then throw (Throw ''Old and new refs are equal: %s'' [refspec])
                  else return (origin, Some current_refspec, refspec)
           | _ \<Rightarrow>
               let prev_ostree_refspec = (if current_kind = Container then None else Some current_refspec)
               in bindP (lift (rpmostreed_refspec_parse_partial (w_parse_refspec w) refspec prev_ostree_refspec)) (\<lambda>new_refspec.
                  bindP (if refspec_classify env new_refspec = Checksum
                         then return (rpmostree_origin_set_rebase_custom env origin new_refspec url description)
                         else if current_refspec = new_refspec
                         then throw (Throw ''Old and new refs are equal: %s'' [new_refspec])
                         else return (rpmostree_origin_set_rebase env origin new_refspec)) (\<lambda>origin.
                  bindP (case prev_ostree_refspec of
                           None \<Rightarrow> return (None, None)
                         | Some p \<Rightarrow>
                             (case w_parse_refspec w p of
                                None \<Rightarrow> throw (Abort ''g_assert (ostree_parse_refspec (prev_ostree_refspec))'')
                              | Some (remote, branch) \<Rightarrow> return (remote, Some branch)))
                    (\<lambda>(current_remote, current_branch).
                    case w_parse_refspec w new_refspec of
                      None \<Rightarrow> throw (Abort ''g_assert (ostree_parse_refspec (new_refspec))'')
                    | Some (new_remote, new_branch) \<Rightarrow>
                        bindP (whenP (new_remote \<noteq> current_remote \<and> Some new_branch = current_branch \<and> new_remote \<noteq> None)
                          (tell (Message ''Rebasing to %s:%s'' [unwrap new_remote, new_branch]))) (\<lambda>_.
                          return (origin, prev_ostree_refspec, new_refspec))))))))"

definition apply_revision_override ::
  "'v world \<Rightarrow> treefile \<Rightarrow> bool \<Rightarrow> string option \<Rightarrow> treefile program" where
  "apply_revision_override w origin skip_branch_check rev1 =
     bindP (lift (rpmostree_origin_get_refspec (w_origin_env w) origin)) (\<lambda>(kind, refspec).
       case rev1 of
         None \<Rightarrow> throw (Throw ''Missing revision'' [])
       | Some rev1 \<Rightarrow>
           (case kind of
              Checksum \<Rightarrow> throw (Throw ''Cannot look up version while pinned to commit'' [])
            | Container \<Rightarrow> return (rpmostree_origin_set_override_commit origin (Some rev1))
            | Ostree \<Rightarrow>
                bindP (lift (parse_revision (validate_checksum_string (w_origin_env w)) rev1)) (\<lambda>(kind, val).
                  case kind of
                    Version_kind \<Rightarrow>
                      bindP (tell (Message (''Resolving version '%s'' @ [CHR 0x27]) [val])) (\<lambda>_.
                      bindP (rpmostreed_repo_lookup_version w refspec val) (\<lambda>checksum.
                        return (rpmostree_origin_set_override_commit origin (Some checksum))))
                  | Checksum_kind \<Rightarrow>
                      bindP (whenP (\<not> skip_branch_check)
                        (bindP (tell (Message (''Validating checksum '%s'' @ [CHR 0x27]) [val])) (\<lambda>_.
                          rpmostreed_repo_lookup_checksum w refspec val))) (\<lambda>_.
                        return (rpmostree_origin_set_override_commit origin (Some val))))))"

section \<open>The walk finds the nearest commit\<close>

text \<open>
  What is assumed of libostree here: a commit object has the content its checksum names, and no call
  fails. The ancestry of a commit is the list of checksums up to the root.
\<close>

definition content_addressed :: "'v world \<Rightarrow> (string \<Rightarrow> commit) \<Rightarrow> bool" where
  "content_addressed w content \<longleftrightarrow> (\<forall>h c. w_commit w (h @ [Call ''ostree_repo_load_commit'' [c]]) = content c)"

definition reliable :: "'v world \<Rightarrow> bool" where
  "reliable w \<longleftrightarrow> (\<forall>h. w_fails w h = None)"

inductive ancestry :: "(string \<Rightarrow> commit) \<Rightarrow> string \<Rightarrow> string list \<Rightarrow> bool" for content where
  root: "c_parent (content c) = None \<Longrightarrow> ancestry content c [c]"
| child: "c_parent (content c) = Some p \<Longrightarrow> ancestry content p cs \<Longrightarrow> ancestry content c (c # cs)"

inductive_cases ancestry_E: "ancestry content c cs"

abbreviation nearest :: "(string \<Rightarrow> commit) \<Rightarrow> string \<Rightarrow> string list \<Rightarrow> string option" where
  "nearest content version cs \<equiv> find (\<lambda>c. c_version (content c) = Some version) cs"

lemma find_append: "find P (xs @ ys) = (case find P xs of None \<Rightarrow> find P ys | Some x \<Rightarrow> Some x)"
  by (induction xs) auto

lemma ancestry_nonempty: "ancestry content c cs \<Longrightarrow> cs \<noteq> [] \<and> hd cs = c"
  by (erule ancestry_E) auto

lemma ancestry_drop: "ancestry content c cs \<Longrightarrow> n < length cs \<Longrightarrow> ancestry content (cs ! n) (drop n cs)"
proof (induction arbitrary: n rule: ancestry.induct)
  case (root c)
  then show ?case by (simp add: ancestry.root)
next
  case (child c p cs)
  then show ?case by (cases n) (auto intro: ancestry.child)
qed

lemma load_commit_ok:
  assumes "reliable w" "content_addressed w content"
  obtains s' where "load_commit w c s = (Inr (content c), s')"
  using assms by (auto simp: load_commit_def ask_def reliable_def content_addressed_def Let_def)

lemma visit_batch_chain:
  assumes w: "reliable w" "content_addressed w content"
  shows "ancestry content c cs \<Longrightarrow>
    \<exists>s'. visit_batch w (version_visitor version) n (Some c) None s =
      (Inr (case nearest content version (take n cs) of
              Some x \<Rightarrow> (None, Some x)
            | None \<Rightarrow> (if n < length cs then Some (cs ! n) else None, None)), s')"
proof (induction n arbitrary: c cs s)
  case 0
  then show ?case using ancestry_nonempty [OF 0] by (auto simp: hd_conv_nth)
next
  case (Suc n)
  obtain s1 where load: "load_commit w c s = (Inr (content c), s1)" by (rule load_commit_ok [OF w])
  show ?case
  proof (cases "c_version (content c) = Some version")
    case True
    obtain cs' where "cs = c # cs'" using ancestry_nonempty [OF Suc.prems] by (cases cs) auto
    with True show ?thesis by (simp add: bindP_def load version_visitor_def)
  next
    case False
    from Suc.prems show ?thesis
    proof cases
      case root
      then show ?thesis using False by (simp add: bindP_def load version_visitor_def)
    next
      case (child p cs')
      from Suc.IH [OF child(3), of s1] show ?thesis
        using child False by (auto simp: bindP_def load version_visitor_def cong: option.case_cong)
    qed
  qed
qed

lemma perform_refs_ok: "reliable w \<Longrightarrow> \<exists>s'. perform_refs w e s = (Inr (), s')"
  by (simp add: perform_refs_def perform_def ask_def reliable_def Let_def)

declare pull_passes.simps [simp del]

lemma pull_passes_step:
  assumes w: "reliable w" "content_addressed w content" and c: "ancestry content c cs"
    and start: "checksum = Some c \<or> checksum = None \<and> (\<forall>h. w_str w (h @ [Call ''ostree_repo_resolve_rev'' [refspec]]) = c)"
  shows "\<exists>s'. pull_passes w remote refspec (version_visitor version) pass ref checksum None s =
     (let n = (if pass = 0 then 1 else depth_of pass) in
      case nearest content version (take n cs) of
        Some x \<Rightarrow> (Inr (Some x), s')
      | None \<Rightarrow>
          if n < length cs
          then if pass \<noteq> 0 \<and> depth_of pass * 2 > 2147483647 then (Inl (Abort ''signed integer overflow''), s')
               else pull_passes w remote refspec (version_visitor version) (pass + 1) (cs ! n) (Some (cs ! n)) None s'
          else (Inr None, s'))"
proof -
  obtain s1 where 1: "(case remote of None \<Rightarrow> return ()
      | Some remote \<Rightarrow> perform_refs w (Pull (pull_ancestry_options remote ref pass))) s = (Inr (), s1)"
    using perform_refs_ok [OF w(1)] by (cases remote) auto
  obtain s2 where 2: "(case checksum of None \<Rightarrow> resolve_rev w refspec | Some c \<Rightarrow> return c) s1 = (Inr c, s2)"
    using start w(1) by (auto simp: resolve_rev_def ask_def reliable_def Let_def)
  obtain s3 where 3: "visit_batch w (version_visitor version) (if pass = 0 then 1 else depth_of pass) (Some c) None s2 =
      (Inr (case nearest content version (take (if pass = 0 then 1 else depth_of pass) cs) of
              Some x \<Rightarrow> (None, Some x)
            | None \<Rightarrow> (if (if pass = 0 then 1 else depth_of pass) < length cs
                       then Some (cs ! (if pass = 0 then 1 else depth_of pass)) else None, None)), s3)"
    using visit_batch_chain [OF w c] by blast
  let ?n = "if pass = 0 then 1 else depth_of pass"
  have run: "pull_passes w remote refspec (version_visitor version) pass ref checksum None s =
      (case (case nearest content version (take ?n cs) of
              Some x \<Rightarrow> (None, Some x) | None \<Rightarrow> (if ?n < length cs then Some (cs ! ?n) else None, None)) of
         (checksum, closure) \<Rightarrow>
           (case checksum of
              None \<Rightarrow> return closure
            | Some c \<Rightarrow>
                if pass \<noteq> 0 \<and> depth_of pass * 2 > 2147483647 then throw (Abort ''signed integer overflow'')
                else pull_passes w remote refspec (version_visitor version) (pass + 1) c (Some c) closure)) s3"
    by (subst pull_passes.simps, subst bindP_def, subst 1, simp only: prod.case sum.case, subst bindP_def, subst 2,
        simp only: prod.case sum.case, subst bindP_def, subst 3, simp only: prod.case sum.case)
  show ?thesis
    unfolding run Let_def
    by (rule exI [of _ s3], cases "nearest content version (take ?n cs)"; cases "?n < length cs") (simp_all del: One_nat_def)
qed

lemma pull_passes_chain:
  assumes w: "reliable w" "content_addressed w content"
  shows "ancestry content c cs \<Longrightarrow> 0 < pass \<Longrightarrow> length cs + depth_of pass \<le> 10 * 2 ^ 28 \<Longrightarrow>
    \<exists>s'. pull_passes w remote refspec (version_visitor version) pass ref (Some c) None s =
      (Inr (nearest content version cs), s')"
proof (induction "29 - pass" arbitrary: pass c cs ref s rule: less_induct)
  case less
  let ?n = "depth_of pass"
  obtain s' where raw: "pull_passes w remote refspec (version_visitor version) pass ref (Some c) None s =
     (let n = (if pass = 0 then 1 else ?n) in
      case nearest content version (take n cs) of
        Some x \<Rightarrow> (Inr (Some x), s')
      | None \<Rightarrow>
          if n < length cs
          then if pass \<noteq> 0 \<and> ?n * 2 > 2147483647 then (Inl (Abort ''signed integer overflow''), s')
               else pull_passes w remote refspec (version_visitor version) (pass + 1) (cs ! n) (Some (cs ! n)) None s'
          else (Inr None, s'))"
    using pull_passes_step [OF w less.prems(1), of "Some c" refspec remote version pass ref s] by blast
  have step: "pull_passes w remote refspec (version_visitor version) pass ref (Some c) None s =
     (case nearest content version (take ?n cs) of
        Some x \<Rightarrow> (Inr (Some x), s')
      | None \<Rightarrow>
          if ?n < length cs
          then if ?n * 2 > 2147483647 then (Inl (Abort ''signed integer overflow''), s')
               else pull_passes w remote refspec (version_visitor version) (pass + 1) (cs ! ?n) (Some (cs ! ?n)) None s'
          else (Inr None, s'))"
    unfolding raw using less.prems(2) by (cases "nearest content version (take ?n cs)") (simp_all add: Let_def)
  have split: "nearest content version cs =
      (case nearest content version (take ?n cs) of None \<Rightarrow> nearest content version (drop ?n cs) | Some x \<Rightarrow> Some x)"
    using find_append [of _ "take ?n cs" "drop ?n cs"] by simp
  show ?case
  proof (cases "nearest content version (take ?n cs) = None \<and> ?n < length cs")
    case True
    have double: "depth_of (pass + 1) = 2 * ?n"
      using less.prems(2) by (cases pass) (auto simp: depth_of_def)
    have "pass < 28"
    proof (rule ccontr)
      assume "\<not> pass < 28"
      then have "(2 :: nat) ^ 27 \<le> 2 ^ (pass - 1)" by (intro power_increasing) auto
      with True less.prems(3) show False by (simp add: depth_of_def)
    qed
    then have "pass - 1 \<le> 26" by simp
    from power_increasing [OF this, of "2 :: nat"] have small: "\<not> ?n * 2 > 2147483647"
      by (simp add: depth_of_def)
    have "29 - (pass + 1) < 29 - pass" using \<open>pass < 28\<close> by simp
    from less.hyps [OF this ancestry_drop [OF less.prems(1)], of ?n "cs ! ?n" s'] True less.prems(3) double
    show ?thesis using True small split by (auto simp: step)
  next
    case False
    then show ?thesis using split by (auto simp: step split: option.splits)
  qed
qed

text \<open>
  C28: looking up a version finds the nearest commit of the branch that carries it, however the history is cut into
  batches, and reports that there is none exactly if no ancestor of the head carries it. For histories of up to
  \<open>2 ^ 31\<close> commits the doubling batch size never overflows.
\<close>

theorem lookup_version_correct:
  assumes "reliable w" "content_addressed w content" "w_parse_refspec w refspec = Some (remote, ref)"
    and "\<And>h. w_str w (h @ [Call ''ostree_repo_resolve_rev'' [refspec]]) = c"
    and "ancestry content c cs" "length cs \<le> 2 ^ 31"
  shows "fst (rpmostreed_repo_lookup_version w refspec version s) =
    (case nearest content version cs of
       Some x \<Rightarrow> Inr x
     | None \<Rightarrow> Inl (Throw ''Version %s not found in %s'' [version, refspec]))"
proof -
  have split: "nearest content version cs =
      (case nearest content version (take 1 cs) of None \<Rightarrow> nearest content version (drop 1 cs) | Some x \<Rightarrow> Some x)"
    using find_append [of _ "take 1 cs" "drop 1 cs"] by simp
  obtain s1 where raw: "pull_passes w remote refspec (version_visitor version) 0 ref None None s =
     (let n = (if (0 :: nat) = 0 then 1 else depth_of 0) in
      case nearest content version (take n cs) of
        Some x \<Rightarrow> (Inr (Some x), s1)
      | None \<Rightarrow>
          if n < length cs
          then if (0 :: nat) \<noteq> 0 \<and> depth_of 0 * 2 > 2147483647 then (Inl (Abort ''signed integer overflow''), s1)
               else pull_passes w remote refspec (version_visitor version) (0 + 1) (cs ! n) (Some (cs ! n)) None s1
          else (Inr None, s1))"
    using pull_passes_step [OF assms(1,2,5), of None refspec remote version 0 ref s] assms(4) by blast
  have step: "pull_passes w remote refspec (version_visitor version) 0 ref None None s =
     (case nearest content version (take 1 cs) of
        Some x \<Rightarrow> (Inr (Some x), s1)
      | None \<Rightarrow> if 1 < length cs then pull_passes w remote refspec (version_visitor version) 1 (cs ! 1) (Some (cs ! 1)) None s1
                else (Inr None, s1))"
    unfolding raw by (cases "nearest content version (take 1 cs)") (simp_all add: Let_def)
  have "\<exists>s'. pull_passes w remote refspec (version_visitor version) 0 ref None None s = (Inr (nearest content version cs), s')"
  proof (cases "nearest content version (take 1 cs) = None \<and> 1 < length cs")
    case True
    then have "ancestry content (cs ! 1) (drop 1 cs)" using ancestry_drop [OF assms(5)] by blast
    from pull_passes_chain [OF assms(1,2) this, of 1 remote refspec version "cs ! 1" s1] assms(6) True
    show ?thesis using split by (auto simp: step depth_of_def)
  next
    case False
    then show ?thesis using split by (auto simp: step split: option.splits)
  qed
  then show ?thesis
    by (auto simp: rpmostreed_repo_lookup_version_def rpmostreed_repo_pull_ancestry_def assms(3) bindP_def split: option.splits)
qed

lemma cached_walk_chain:
  assumes "ancestry content c cs" and w: "reliable w" "content_addressed w content"
  shows "\<exists>s'. cached_walk w version c s = Some (Inr (nearest content version cs), s')"
  using assms(1)
proof (induction arbitrary: s rule: ancestry.induct)
  case (root c)
  obtain s1 where load: "load_commit w c s = (Inr (content c), s1)" by (rule load_commit_ok [OF w])
  show ?case by (subst cached_walk.simps) (simp add: load version_visitor_def root)
next
  case (child c p cs)
  obtain s1 where load: "load_commit w c s = (Inr (content c), s1)" by (rule load_commit_ok [OF w])
  from child.IH [of s1] show ?case by (subst cached_walk.simps) (auto simp: load version_visitor_def child.hyps)
qed

text \<open>
  C40: the walk over the cached commits, a loop without a bound, ends on every finite history, and finds the commit that
  the batched walk over the remote finds.
\<close>

theorem lookup_cached_version_terminates:
  assumes "reliable w" "content_addressed w content"
    and "\<And>h. w_str w (h @ [Call ''ostree_repo_resolve_rev'' [refspec]]) = c" "ancestry content c cs"
  shows "\<exists>s'. rpmostreed_repo_lookup_cached_version w refspec version s =
    Some (case nearest content version cs of
            Some x \<Rightarrow> Inr x
          | None \<Rightarrow> Inl (Throw ''Version %s not cached in %s'' [version, refspec]), s')"
proof -
  obtain s1 where "resolve_rev w refspec s = (Inr c, s1)"
    using assms(1,3) by (simp add: resolve_rev_def ask_def reliable_def Let_def)
  moreover obtain s2 where "cached_walk w version c s1 = Some (Inr (nearest content version cs), s2)"
    using cached_walk_chain [OF assms(4,1,2)] by blast
  ultimately show ?thesis
    by (auto simp: rpmostreed_repo_lookup_cached_version_def split: option.splits)
qed

text \<open>
  A client that asks to rebase to a local branch with a name that is not a valid refspec stops the daemon: the part
  after the colon is not checked before the assertion that it parses.
\<close>

theorem change_origin_refspec_aborts:
  assumes "container_image_reference origin = None" "base_refspec origin = Some current"
    and "w_parse_refspec w current = Some p" "lookup_ss options ''custom-origin'' = None"
    and "rest \<noteq> []" "last rest \<noteq> CHR '':''" "w_parse_refspec w rest = None"
    and "refspec_classify (w_origin_env w) (CHR '':'' # rest) \<noteq> Container" "refspec_classify (w_origin_env w) rest \<noteq> Checksum"
    and "current \<noteq> rest"
  shows "fst (change_origin_refspec w options origin (CHR '':'' # rest) s) =
    Inl (Abort ''g_assert (ostree_parse_refspec (new_refspec))'')"
proof -
  obtain remote branch where p: "p = (remote, branch)" by fastforce
  have "rpmostreed_refspec_parse_partial (w_parse_refspec w) (CHR '':'' # rest) (Some current) = Inr rest"
    using assms(3,5,6) p by (simp add: rpmostreed_refspec_parse_partial_def has_suffix_def)
  with assms p show ?thesis
    by (cases "refspec_classify (w_origin_env w) (CHR '':'' # rest)")
      (simp_all add: change_origin_refspec_def rpmostree_origin_get_refspec_def custom_origin_def Let_def)
qed

section \<open>Witnesses\<close>

definition demo_content :: "string \<Rightarrow> commit" where
  "demo_content c =
     (if c = ''c2'' then \<lparr>c_version = Some ''2'', c_parent = Some ''c1'', c_state_sha512 = None, c_initramfs_args = None\<rparr>
      else \<lparr>c_version = Some ''1'', c_parent = None, c_state_sha512 = None, c_initramfs_args = None\<rparr>)"

definition history_world :: "unit world" where
  "history_world = quiet_world\<lparr>
     w_str := (\<lambda>h. ''c2''),
     w_commit := (\<lambda>h. case last h of Call f [c] \<Rightarrow> demo_content c | _ \<Rightarrow> demo_content []),
     w_parse_refspec := (\<lambda>r. if strstr r '' '' then None else Some (Some ''fedora'', ''stable''))\<rparr>"

lemma history_world_facts:
  "reliable history_world" "content_addressed history_world demo_content"
  "w_str history_world (h @ [Call ''ostree_repo_resolve_rev'' [''fedora:stable'']]) = ''c2''"
  "w_parse_refspec history_world ''fedora:stable'' = Some (Some ''fedora'', ''stable'')"
  "ancestry demo_content ''c2'' [''c2'', ''c1'']"
  by (auto simp: history_world_def calm_world_def reliable_def content_addressed_def demo_content_def intro!: ancestry.intros)

theorem lookup_version_correct_witness:
  "fst (rpmostreed_repo_lookup_version history_world ''fedora:stable'' ''1'' demo_worker) = Inr ''c1''"
  by (subst lookup_version_correct [OF history_world_facts(1,2,4,3,5)]) (simp_all add: demo_content_def)

theorem lookup_cached_version_terminates_witness:
  "\<exists>s'. rpmostreed_repo_lookup_cached_version history_world ''fedora:stable'' ''1'' demo_worker = Some (Inr ''c1'', s')"
  using lookup_cached_version_terminates [OF history_world_facts(1,2,3,5), of "''1''" demo_worker]
  by (simp add: demo_content_def)

theorem change_origin_refspec_aborts_witness:
  "fst (change_origin_refspec history_world (\<lambda>_. None) demo_origin '':not a branch'' demo_worker) =
    Inl (Abort ''g_assert (ostree_parse_refspec (new_refspec))'')"
  by (rule change_origin_refspec_aborts [where rest = "''not a branch''" and current = "''fedora:stable''"])
    (simp_all add: demo_origin_def history_world_def calm_world_def lookup_ss_def refspec_classify_def demo_origin_env_def)

end
