(* ===== verification/Upgrader.thy ===== *)
theory Upgrader
  imports Repo_Utils
begin

text \<open>
  The upgrader, \<^verbatim>\<open>src/src/daemon/rpmostree-sysroot-upgrader.cxx\<close>: from the origin of the merge deployment to a new
  deployment. It pulls the base commit, finds out which requests and overrides the base already satisfies, lets
  the core assemble the rest, and stages or writes the result. The queries on a package sack are from
  \<^verbatim>\<open>src/src/libpriv/rpmostree-rpm-util.cxx\<close>. Calls of the core (\<open>rpmostree_context_*\<close>), libostree and the file system are
  events; descriptors and caches are the flags that say whether they are there.
\<close>

section \<open>State\<close>

abbreviation (input) RPMOSTREE_SYSROOT_UPGRADER_FLAGS_IGNORE_UNCONFIGURED :: u32 where
  "RPMOSTREE_SYSROOT_UPGRADER_FLAGS_IGNORE_UNCONFIGURED \<equiv> 2"

abbreviation (input) RPMOSTREE_SYSROOT_UPGRADER_FLAGS_ALLOW_OLDER :: u32 where
  "RPMOSTREE_SYSROOT_UPGRADER_FLAGS_ALLOW_OLDER \<equiv> 4"

abbreviation (input) RPMOSTREE_SYSROOT_UPGRADER_FLAGS_DRY_RUN :: u32 where
  "RPMOSTREE_SYSROOT_UPGRADER_FLAGS_DRY_RUN \<equiv> 8"

abbreviation (input) RPMOSTREE_SYSROOT_UPGRADER_FLAGS_PKGCACHE_ONLY :: u32 where
  "RPMOSTREE_SYSROOT_UPGRADER_FLAGS_PKGCACHE_ONLY \<equiv> 16"

abbreviation (input) RPMOSTREE_SYSROOT_UPGRADER_FLAGS_SYNTHETIC_PULL :: u32 where
  "RPMOSTREE_SYSROOT_UPGRADER_FLAGS_SYNTHETIC_PULL \<equiv> 32"

abbreviation (input) RPMOSTREE_SYSROOT_UPGRADER_FLAGS_LOCK_FINALIZATION :: u32 where
  "RPMOSTREE_SYSROOT_UPGRADER_FLAGS_LOCK_FINALIZATION \<equiv> 64"

datatype LayeringType = LAYERING_NONE | LAYERING_LOCAL | LAYERING_RPMMD_REPOS

record RpmOstreeSysrootUpgrader =
  u_osname :: string
  u_flags :: u32
  u_command_line :: "string option"
  u_agent :: "string option"
  u_sd_unit :: "string option"
  u_cfg_merge_deployment :: OstreeDeployment
  u_origin_merge_deployment :: OstreeDeployment
  u_original_origin :: treefile
  u_computed_origin :: treefile
  u_tmprootfs :: bool
  u_rsack :: "sack_package list option"
  u_metatmpdir :: bool
  u_ctx :: bool
  u_rpmmd_sack :: bool
  u_layering_initialized :: bool
  u_layering_type :: LayeringType
  u_layering_changed :: bool
  u_allow_empty_transaction :: bool
  u_pkgs_imported :: bool
  u_base_revision :: string
  u_final_revision :: "string option"
  u_kargs_strv :: "string list option"

definition parse_origin_deployment :: "'v world \<Rightarrow> u32 \<Rightarrow> OstreeDeployment \<Rightarrow> treefile program" where
  "parse_origin_deployment w flags deployment =
     bindP (ask w (On_deployment ''rpmostree_origin_parse_deployment'' deployment) (w_origin w)) (\<lambda>origin.
       let origin = rpmostree_origin_set_override_commit origin None;
           unconfigured = rpmostree_origin_get_unconfigured_state origin
       in if unconfigured \<noteq> [] \<and> \<not> has_flag flags RPMOSTREE_SYSROOT_UPGRADER_FLAGS_IGNORE_UNCONFIGURED
          then throw (Throw ''origin unconfigured-state: %s'' [unconfigured])
          else return origin)"

definition rpmostree_sysroot_upgrader_new ::
  "'v world \<Rightarrow> string option \<Rightarrow> u32 \<Rightarrow> RpmOstreeSysrootUpgrader program" where
  "rpmostree_sysroot_upgrader_new w osname flags =
     bindP get_sysroot (\<lambda>sysroot.
     bindP (case osname of
              None \<Rightarrow>
                (case sr_booted sysroot of
                   None \<Rightarrow> throw (Throw ''Not currently booted into an OSTree system and no OS specified'' [])
                 | Some booted \<Rightarrow> return (d_osname booted))
            | Some name \<Rightarrow> if name = [] then throw (Throw ''Invalid empty osname'' []) else return name) (\<lambda>osname.
     bindP (perform w (Call ''ostree_sysroot_get_repo'' [])) (\<lambda>_.
       case (w_merge_deployment w sysroot osname, rpmostree_syscore_get_origin_merge_deployment (sr_deployments sysroot) osname) of
         (Some cfg_merge, Some origin_merge) \<Rightarrow>
           bindP (parse_origin_deployment w flags origin_merge) (\<lambda>origin.
           bindP (ask w (On_deployment ''deployment_layeredmeta_load'' origin_merge) (w_layered w)) (\<lambda>meta.
           bindP (lift (rpmostree_deployment_get_base_layer (\<lambda>_. Inr meta) (d_csum origin_merge))) (\<lambda>base.
             return \<lparr>u_osname = osname, u_flags = flags, u_command_line = None, u_agent = None, u_sd_unit = None,
                u_cfg_merge_deployment = cfg_merge, u_origin_merge_deployment = origin_merge,
                u_original_origin = origin, u_computed_origin = origin, u_tmprootfs = False, u_rsack = None,
                u_metatmpdir = False, u_ctx = False, u_rpmmd_sack = False, u_layering_initialized = False,
                u_layering_type = LAYERING_NONE, u_layering_changed = False, u_allow_empty_transaction = False,
                u_pkgs_imported = False,
                u_base_revision = (case base of Some b \<Rightarrow> b | None \<Rightarrow> d_csum origin_merge),
                u_final_revision = (case base of Some b \<Rightarrow> Some (d_csum origin_merge) | None \<Rightarrow> None),
                u_kargs_strv = None\<rparr>)))
       | _ \<Rightarrow> throw (Throw (''No previous deployment for OS '%s'' @ [CHR 0x27]) [osname]))))"

definition rpmostree_sysroot_upgrader_set_caller_info ::
  "RpmOstreeSysrootUpgrader \<Rightarrow> string option \<Rightarrow> string option \<Rightarrow> string option \<Rightarrow> RpmOstreeSysrootUpgrader" where
  "rpmostree_sysroot_upgrader_set_caller_info u initiating_command_line agent sd_unit =
     u\<lparr>u_command_line := initiating_command_line, u_agent := agent, u_sd_unit := sd_unit\<rparr>"

definition rpmostree_sysroot_upgrader_dup_origin :: "RpmOstreeSysrootUpgrader \<Rightarrow> treefile" where
  "rpmostree_sysroot_upgrader_dup_origin u = u_original_origin u"

definition rpmostree_sysroot_upgrader_set_origin :: "RpmOstreeSysrootUpgrader \<Rightarrow> treefile \<Rightarrow> RpmOstreeSysrootUpgrader" where
  "rpmostree_sysroot_upgrader_set_origin u new_origin = u\<lparr>u_original_origin := new_origin, u_computed_origin := new_origin\<rparr>"

definition rpmostree_sysroot_upgrader_set_kargs :: "RpmOstreeSysrootUpgrader \<Rightarrow> string list \<Rightarrow> RpmOstreeSysrootUpgrader" where
  "rpmostree_sysroot_upgrader_set_kargs u kernel_args = u\<lparr>u_kargs_strv := Some kernel_args\<rparr>"

section \<open>Pulling the base\<close>

definition pull_from_remote ::
  "'v world \<Rightarrow> RpmOstreeSysrootUpgrader \<Rightarrow> string \<Rightarrow> string \<Rightarrow> string option \<Rightarrow> bool \<Rightarrow> string option \<Rightarrow> unit program" where
  "pull_from_remote w u origin_remote origin_ref dir_to_pull commit_only override_opt =
     (let allow_older = has_flag (u_flags u) RPMOSTREE_SYSROOT_UPGRADER_FLAGS_ALLOW_OLDER
      in bindP (whenP (\<not> allow_older \<and> override_opt \<noteq> None)
                (set_ref_immediate w (Some origin_remote) origin_ref (u_base_revision u))) (\<lambda>_.
         prefixP (''While pulling '' @ (case override_opt of Some c \<Rightarrow> c | None \<Rightarrow> origin_ref))
           (perform_refs w (Pull \<lparr>po_remote = origin_remote, po_refs = [origin_ref],
              po_subdir = (case dir_to_pull of Some d \<Rightarrow> if d = [] then None else Some d | None \<Rightarrow> None),
              po_commit_only = commit_only, po_timestamp_check = \<not> allow_older, po_override = override_opt,
              po_depth = None\<rparr>))))"

text \<open>The base revision the origin leads to, or only whether a container image changed.\<close>

definition new_base_revision ::
  "'v world \<Rightarrow> RpmOstreeSysrootUpgrader \<Rightarrow> string option \<Rightarrow> bool \<Rightarrow> (bool + string) program" where
  "new_base_revision w u dir_to_pull check =
     (let override = rpmostree_origin_get_override_commit (u_computed_origin u);
          override_opt = (if override = [] then None else Some override);
          synthetic = has_flag (u_flags u) RPMOSTREE_SYSROOT_UPGRADER_FLAGS_SYNTHETIC_PULL
      in bindP (lift (rpmostree_origin_get_refspec (w_origin_env w) (u_computed_origin u))) (\<lambda>(kind, refspec).
           case kind of
             Container \<Rightarrow>
               if check
               then bindP (ask w (Call ''check_container_update'' [refspec]) (w_bool w)) (\<lambda>changed. return (Inl changed))
               else bindP (ask w (Call ''pull_container'' [refspec, override]) (w_str w)) (\<lambda>merge_commit. return (Inr merge_commit))
           | _ \<Rightarrow>
               (case w_parse_refspec w refspec of
                  None \<Rightarrow> throw (External ''ostree_parse_refspec'')
                | Some (origin_remote, origin_ref) \<Rightarrow>
                    let is_commit = (validate_checksum_string (w_origin_env w) origin_ref = None)
                    in bindP (case origin_remote of
                                Some remote \<Rightarrow>
                                  whenP (\<not> synthetic \<and> \<not> is_commit)
                                    (pull_from_remote w u remote origin_ref dir_to_pull check override_opt)
                              | None \<Rightarrow> return ()) (\<lambda>_.
                       case override_opt of
                         Some c \<Rightarrow> return (Inr c)
                       | None \<Rightarrow> bindP (resolve_rev w refspec) (\<lambda>c. return (Inr c))))))"

definition rpmostree_sysroot_upgrader_pull_base ::
  "'v world \<Rightarrow> RpmOstreeSysrootUpgrader \<Rightarrow> string option \<Rightarrow> bool \<Rightarrow> (RpmOstreeSysrootUpgrader \<times> bool) program" where
  "rpmostree_sysroot_upgrader_pull_base w u dir_to_pull check =
     bindP (new_base_revision w u dir_to_pull check) (\<lambda>r.
       case r of
         Inl changed \<Rightarrow> return (u, changed)
       | Inr new_base_rev \<Rightarrow>
           if new_base_rev = u_base_revision u then return (u, False)
           else bindP (whenP (\<not> has_flag (u_flags u) RPMOSTREE_SYSROOT_UPGRADER_FLAGS_ALLOW_OLDER)
                  (prefixP ''While checking against deployment timestamp''
                    (perform w (Call ''ostree_sysroot_upgrader_check_timestamps'' [u_base_revision u, new_base_rev])))) (\<lambda>_.
                return (u\<lparr>u_base_revision := new_base_rev\<rparr>, True)))"

section \<open>Package sacks\<close>

definition dnf_package_get_nevra :: "sack_package \<Rightarrow> string" where
  "dnf_package_get_nevra p = dnf_name p @ ''-'' @ dnf_evr p @ ''.'' @ dnf_arch p"

definition rpmostree_get_matching_packages :: "'v world \<Rightarrow> sack_package list \<Rightarrow> string \<Rightarrow> sack_package list" where
  "rpmostree_get_matching_packages w sack pat = w_selector w sack pat"

definition rpmostree_sack_has_subject :: "'v world \<Rightarrow> sack_package list \<Rightarrow> string \<Rightarrow> bool" where
  "rpmostree_sack_has_subject w sack pat \<longleftrightarrow> length (rpmostree_get_matching_packages w sack pat) > 0"

definition rpmostree_sack_get_by_pkgname :: "sack_package list \<Rightarrow> string \<Rightarrow> sack_package option result" where
  "rpmostree_sack_get_by_pkgname sack pkgname =
     (case filter (\<lambda>p. dnf_name p = pkgname) sack of
        [] \<Rightarrow> Inr None
      | [p] \<Rightarrow> Inr (Some p)
      | _ \<Rightarrow> Inl (Throw ''Multiple packages match \"%s\"'' [pkgname]))"

definition rpmostree_sack_has_pkgname :: "sack_package list \<Rightarrow> string \<Rightarrow> bool" where
  "rpmostree_sack_has_pkgname sack pkgname =
     (case rpmostree_sack_get_by_pkgname sack pkgname of Inr (Some _) \<Rightarrow> True | _ \<Rightarrow> False)"

section \<open>The base tree\<close>

definition checkout_base_tree :: "'v world \<Rightarrow> RpmOstreeSysrootUpgrader \<Rightarrow> RpmOstreeSysrootUpgrader program" where
  "checkout_base_tree w u =
     (if u_tmprootfs u then return u
      else
        bindP (tell (Call ''progress_begin_task'' [''Checking out tree'', take 7 (u_base_revision u)])) (\<lambda>_.
        bindP (perform w (Call ''glnx_shutil_rm_rf_at'' [''RPMOSTREE_OLD_TMP_ROOTFS_DIR''])) (\<lambda>_.
        bindP (perform w (Call ''glnx_shutil_mkdir_p_at'' [''dirname RPMOSTREE_TMP_PRIVATE_DIR'', ''0755''])) (\<lambda>_.
        bindP (perform w (Call ''glnx_shutil_mkdir_p_at'' [''RPMOSTREE_TMP_PRIVATE_DIR'', ''0700''])) (\<lambda>_.
        bindP (perform w (Call ''glnx_shutil_rm_rf_at'' [''RPMOSTREE_TMP_ROOTFS_DIR''])) (\<lambda>_.
        bindP (perform w (Call ''ostree_repo_checkout_at'' [''RPMOSTREE_TMP_ROOTFS_DIR'', u_base_revision u])) (\<lambda>_.
        bindP (perform w (Call ''glnx_opendirat'' [''RPMOSTREE_TMP_ROOTFS_DIR''])) (\<lambda>_.
          return (u\<lparr>u_tmprootfs := True\<rparr>)))))))))"

definition try_load_base_rsack_from_pending ::
  "'v world \<Rightarrow> RpmOstreeSysrootUpgrader \<Rightarrow> RpmOstreeSysrootUpgrader program" where
  "try_load_base_rsack_from_pending w u =
     bindP (ask w (On_deployment ''has_live_apply_state'' (u_origin_merge_deployment u)) (w_bool w)) (\<lambda>is_live.
       if is_live then return u
       else
         bindP (ask w (On_deployment ''deployment_layeredmeta_load'' (u_origin_merge_deployment u)) (w_layered w)) (\<lambda>(meta, _).
           if is_layered meta \<and> clientlayer_version meta < 4 then return u
           else if u_base_revision u \<noteq> base_commit meta then return u
           else bindP (ask w (On_deployment ''rpmostree_get_base_refsack_for_root'' (u_origin_merge_deployment u)) (w_opt_sack w))
                  (\<lambda>rsack. return (u\<lparr>u_rsack := rsack\<rparr>))))"

definition load_base_rsack :: "'v world \<Rightarrow> RpmOstreeSysrootUpgrader \<Rightarrow> RpmOstreeSysrootUpgrader program" where
  "load_base_rsack w u =
     bindP (try_load_base_rsack_from_pending w u) (\<lambda>u.
       case u_rsack u of
         Some _ \<Rightarrow> return u
       | None \<Rightarrow>
           bindP (checkout_base_tree w u) (\<lambda>u.
           bindP (ask w (Call ''rpmostree_get_refsack_for_root'' []) (w_sack w)) (\<lambda>rsack.
             return (u\<lparr>u_rsack := Some rsack\<rparr>))))"

definition initialize_metatmpdir :: "'v world \<Rightarrow> RpmOstreeSysrootUpgrader \<Rightarrow> RpmOstreeSysrootUpgrader program" where
  "initialize_metatmpdir w u =
     (if u_metatmpdir u then return u
      else bindP (perform w (Call ''glnx_mkdtemp'' [''rpmostree-localpkgmeta-XXXXXX''])) (\<lambda>_. return (u\<lparr>u_metatmpdir := True\<rparr>)))"

section \<open>What the base already satisfies\<close>

text \<open>\<open>rsack\<close> of the asserting functions: the loaded sack of the base.\<close>

definition get_rsack :: "RpmOstreeSysrootUpgrader \<Rightarrow> sack_package list program" where
  "get_rsack u = (case u_rsack u of Some sack \<Rightarrow> return sack | None \<Rightarrow> throw (Abort ''g_assert (self->rsack)''))"

fun inactive_removals :: "sack_package list \<Rightarrow> string list \<Rightarrow> string list result" where
  "inactive_removals sack [] = Inr []"
| "inactive_removals sack (pkgname # removals) =
     bindR (rpmostree_sack_get_by_pkgname sack pkgname) (\<lambda>p.
     bindR (inactive_removals sack removals) (\<lambda>rest. Inr (if p = None then pkgname # rest else rest)))"

definition finalize_removal_overrides :: "'v world \<Rightarrow> RpmOstreeSysrootUpgrader \<Rightarrow> RpmOstreeSysrootUpgrader program" where
  "finalize_removal_overrides w u =
     bindP (get_rsack u) (\<lambda>sack.
     bindP (lift (inactive_removals sack (rpmostree_origin_get_overrides_remove (u_computed_origin u)))) (\<lambda>inactive.
     bindP (whenP (length inactive > 0) (tell (Message ''Inactive base removals:'' []))) (\<lambda>_.
       foldP (\<lambda>u item.
         bindP (tell (Message ''  %s'' [item])) (\<lambda>_.
           return (u\<lparr>u_computed_origin := fst (rpmostree_origin_remove_override_remove (u_computed_origin u) item)\<rparr>)))
         u inactive)))"

fun inactive_local_replacements :: "'v world \<Rightarrow> sack_package list \<Rightarrow> string list \<Rightarrow> string list result" where
  "inactive_local_replacements w sack [] = Inr []"
| "inactive_local_replacements w sack (nevra_v # replacements) =
     bindR (rpmostree_decompose_sha256_nevra (validate_checksum_string (w_origin_env w)) nevra_v) (\<lambda>(nevra, sha256).
     bindR (rpmostree_decompose_nevra (split_nevra (w_origin_env w)) nevra) (\<lambda>(pkgname, _).
     bindR (rpmostree_sack_get_by_pkgname sack pkgname) (\<lambda>p.
     bindR (inactive_local_replacements w sack replacements) (\<lambda>rest.
       Inr (if p = None \<or> rpmostree_sack_has_subject w sack nevra then nevra # rest else rest)))))"

definition inactive_remote_replacements :: "sack_package list \<Rightarrow> (string \<times> string list) list \<Rightarrow> string list" where
  "inactive_remote_replacements sack replacements =
     concat (map (\<lambda>(_, pkgs). filter (\<lambda>pkgname. \<not> rpmostree_sack_has_pkgname sack pkgname) pkgs) replacements)"

definition finalize_replacement_overrides :: "'v world \<Rightarrow> RpmOstreeSysrootUpgrader \<Rightarrow> RpmOstreeSysrootUpgrader program" where
  "finalize_replacement_overrides w u =
     bindP (get_rsack u) (\<lambda>sack.
     bindP (lift (inactive_local_replacements w sack (rpmostree_origin_get_overrides_local_replace (u_computed_origin u)))) (\<lambda>locals.
       let inactive = locals @ inactive_remote_replacements sack (rpmostree_origin_get_overrides_replace (u_computed_origin u))
       in bindP (whenP (length inactive > 0) (tell (Message ''Inactive base replacements:'' []))) (\<lambda>_.
          foldP (\<lambda>u item.
            bindP (tell (Message ''  %s'' [item])) (\<lambda>_.
              let origin = fst (rpmostree_origin_remove_override_replace_local (u_computed_origin u) item)
              in return (u\<lparr>u_computed_origin := fst (rpmostree_origin_remove_override_replace origin item)\<rparr>)))
            u inactive)))"

definition finalize_overrides :: "'v world \<Rightarrow> RpmOstreeSysrootUpgrader \<Rightarrow> RpmOstreeSysrootUpgrader program" where
  "finalize_overrides w u = bindP (finalize_removal_overrides w u) (finalize_replacement_overrides w)"

text \<open>The header of a local package is written out and added to the sack of the base.\<close>

definition add_local_pkg_to_sack :: "'v world \<Rightarrow> RpmOstreeSysrootUpgrader \<Rightarrow> string \<Rightarrow> RpmOstreeSysrootUpgrader program" where
  "add_local_pkg_to_sack w u nevra_v =
     bindP (lift (rpmostree_decompose_sha256_nevra (validate_checksum_string (w_origin_env w)) nevra_v)) (\<lambda>(nevra, sha256).
     bindP (perform w (Call ''rpmostree_pkgcache_find_pkg_header'' [nevra, sha256])) (\<lambda>_.
     bindP (perform w (Call ''glnx_file_replace_contents_at'' [nevra @ ''.rpm''])) (\<lambda>_.
     bindP (get_rsack u) (\<lambda>sack.
       if rpmostree_sack_has_subject w sack nevra then throw (Throw ''Package '%s' is already in the base'' [nevra])
       else bindP (tell (Call ''dnf_sack_add_cmdline_package'' [nevra @ ''.rpm''])) (\<lambda>_.
            bindP (look (w_sack w)) (\<lambda>sack. return (u\<lparr>u_rsack := Some sack\<rparr>)))))))"

definition add_local_pkgset_to_sack ::
  "'v world \<Rightarrow> RpmOstreeSysrootUpgrader \<Rightarrow> string list \<Rightarrow> RpmOstreeSysrootUpgrader program" where
  "add_local_pkgset_to_sack w u pkgset =
     (if pkgset = [] then return u
      else bindP (initialize_metatmpdir w u) (\<lambda>u. foldP (add_local_pkg_to_sack w) u pkgset))"

text \<open>
  The requests the base provides, each with the package that provides it. The table of the sources is
  iterated in an unspecified order; here it is the order of the requests.
\<close>

fun inactive_requests ::
  "'v world \<Rightarrow> sack_package list \<Rightarrow> treefile \<Rightarrow> string list \<Rightarrow> (string \<times> string) list result" where
  "inactive_requests w sack origin [] = Inr []"
| "inactive_requests w sack origin (pat # pats) =
     (case rpmostree_get_matching_packages w sack pat of
        [] \<Rightarrow> inactive_requests w sack origin pats
      | p # ps \<Rightarrow>
          (case filter (\<lambda>q. dnf_reponame q \<noteq> ''@commandline'' \<and>
                             rpmostree_origin_has_overrides_remove_name origin (dnf_name q)) (p # ps) of
             q # _ \<Rightarrow> Inl (Throw (''Cannot request '%s' provided by removed package '%s'' @ [CHR 0x27]) [pat, dnf_package_get_nevra q])
           | [] \<Rightarrow>
               bindR (inactive_requests w sack origin pats) (\<lambda>rest. Inr ((pat, dnf_package_get_nevra p) # rest))))"

definition remove_inactive_request ::
  "'v world \<Rightarrow> RpmOstreeSysrootUpgrader \<Rightarrow> string \<times> string \<Rightarrow> RpmOstreeSysrootUpgrader program" where
  "remove_inactive_request w u r =
     bindP (tell (Message ''  %s (already provided by %s)'' [fst r, snd r])) (\<lambda>_.
       case rpmostree_origin_remove_packages (w_origin_env w) (u_computed_origin u) [fst r] False False of
         Inl e \<Rightarrow> throw (Abort ''g_error'')
       | Inr (origin, changed) \<Rightarrow>
           if \<not> changed then throw (Abort ''g_assert (changed)'') else return (u\<lparr>u_computed_origin := origin\<rparr>))"

definition finalize_overlays :: "'v world \<Rightarrow> RpmOstreeSysrootUpgrader \<Rightarrow> RpmOstreeSysrootUpgrader program" where
  "finalize_overlays w u =
     bindP (get_rsack u) (\<lambda>_.
     bindP (add_local_pkgset_to_sack w u (rpmostree_origin_get_local_packages (u_computed_origin u))) (\<lambda>u.
     bindP (add_local_pkgset_to_sack w u (rpmostree_origin_get_local_fileoverride_packages (u_computed_origin u))) (\<lambda>u.
     bindP (get_rsack u) (\<lambda>sack.
     bindP (lift (inactive_requests w sack (u_computed_origin u) (rpmostree_origin_get_packages (u_computed_origin u)))) (\<lambda>inactive.
     bindP (whenP (length inactive > 0) (tell (Message ''Inactive requests:'' []))) (\<lambda>_.
       foldP (remove_inactive_request w) u inactive))))))"

section \<open>Assembly\<close>

definition prepare_context_for_assembly :: "'v world \<Rightarrow> RpmOstreeSysrootUpgrader \<Rightarrow> unit program" where
  "prepare_context_for_assembly w u =
     bindP (tell (On_deployment ''rpmostree_context_configure_from_deployment'' (u_cfg_merge_deployment u))) (\<lambda>_.
     bindP (perform w (Call ''rpmostree_prepare_rootfs_get_sepolicy'' [])) (\<lambda>_.
       whenP (has_flag (u_flags u) RPMOSTREE_SYSROOT_UPGRADER_FLAGS_PKGCACHE_ONLY)
         (tell (Call ''rpmostree_context_set_pkgcache_only'' []))))"

text \<open>Whether the depsolved state differs from that of the current layered commit.\<close>

definition layering_state_changed :: "'v world \<Rightarrow> RpmOstreeSysrootUpgrader \<Rightarrow> bool program" where
  "layering_state_changed w u =
     (case u_final_revision u of
        Some final \<Rightarrow>
          bindP (ask w (Call ''ostree_repo_load_variant'' [final]) (w_commit w)) (\<lambda>prev_commit.
            case c_state_sha512 prev_commit of
              None \<Rightarrow> throw (Throw ''Failed to find metadata key %s (signature %s)'' [''rpmostree.state-sha512'', ''s''])
            | Some previous \<Rightarrow>
                bindP (ask w (Call ''rpmostree_context_get_state_digest'' []) (w_str w)) (\<lambda>new_state.
                  return (previous \<noteq> new_state)))
      | None \<Rightarrow>
          if u_layering_type u = LAYERING_RPMMD_REPOS
          then bindP (lift (rpmostree_origin_get_refspec (w_origin_env w) (u_computed_origin u))) (\<lambda>(kind, refspec).
                 if kind = Container
                 then bindP (tell (Call ''rpmostree_dnf_context_has_empty_transaction'' [])) (\<lambda>_.
                      bindP (look (w_bool w)) (\<lambda>empty. return (\<not> empty)))
                 else return True)
          else return True)"

definition prep_local_assembly :: "'v world \<Rightarrow> RpmOstreeSysrootUpgrader \<Rightarrow> RpmOstreeSysrootUpgrader program" where
  "prep_local_assembly w u =
     bindP (assertP ''g_assert (!self->ctx)'' (\<not> u_ctx u)) (\<lambda>_.
       if rpmostree_origin_get_regenerate_initramfs (u_computed_origin u) \<and>
          rpmostree_origin_has_initramfs_etc_files (u_computed_origin u)
       then throw (Throw ''initramfs regeneration and /etc overlay not compatible; use dracut arg -I instead'' [])
       else
         bindP (checkout_base_tree w u) (\<lambda>u.
         let u = u\<lparr>u_ctx := True\<rparr> in
         bindP (prepare_context_for_assembly w u) (\<lambda>_.
         bindP (perform w (Call ''origin_to_treefile'' [])) (\<lambda>_.
         bindP (look (w_disable_recommends w)) (\<lambda>disable_recommends.
         bindP (tell (Set_treefile (u_computed_origin u) disable_recommends)) (\<lambda>_.
         bindP (perform w (Call ''rpmostree_context_setup'' [])) (\<lambda>_.
         bindP (if rpmostree_origin_has_any_packages (u_computed_origin u)
                then bindP (perform w (Call ''rpmostree_context_prepare'' [])) (\<lambda>_.
                       return (u\<lparr>u_layering_type := LAYERING_RPMMD_REPOS, u_rpmmd_sack := True\<rparr>))
                else bindP (tell (Call ''rpmostree_context_set_is_empty'' [])) (\<lambda>_.
                       return (u\<lparr>u_layering_type := LAYERING_LOCAL\<rparr>))) (\<lambda>u.
         bindP (whenP (has_flag (u_flags u) RPMOSTREE_SYSROOT_UPGRADER_FLAGS_DRY_RUN \<and>
                       rpmostree_origin_has_any_packages (u_computed_origin u))
                  (tell (Call ''rpmostree_print_transaction'' []))) (\<lambda>_.
         bindP (layering_state_changed w u) (\<lambda>changed.
           return (u\<lparr>u_layering_changed := changed\<rparr>)))))))))))"

text \<open>The arguments for dracut, and the old initramfs if there are no recorded arguments.\<close>

definition initramfs_args_of :: "RpmKernel \<Rightarrow> commit \<Rightarrow> treefile \<Rightarrow> string list \<times> string option" where
  "initramfs_args_of kstate base origin =
     (let extra = (if rpmostree_origin_get_regenerate_initramfs origin then rpmostree_origin_get_initramfs_args origin else [])
      in case c_initramfs_args base of
           Some base_args \<Rightarrow> (base_args @ extra, None)
         | None \<Rightarrow> (''--no-hostonly'' # extra, k_initramfs kstate))"

definition assemble_kernel :: "'v world \<Rightarrow> RpmOstreeSysrootUpgrader \<Rightarrow> unit program" where
  "assemble_kernel w u =
     bindP (tell (Call ''rpmostree_context_get_kernel_changed'' [])) (\<lambda>_.
     bindP (look (w_bool w)) (\<lambda>kernel_changed.
       let regenerate = rpmostree_origin_get_regenerate_initramfs (u_computed_origin u)
       in if \<not> (kernel_changed \<or> regenerate) then return ()
          else
            bindP (ask w (Call ''rpmostree_find_kernel'' []) (w_kernel w)) (\<lambda>kstate.
            bindP (ask w (Call ''ostree_repo_load_variant'' [u_base_revision u]) (w_commit w)) (\<lambda>base.
              let (dracut_args, initramfs_path) = initramfs_args_of kstate base (u_computed_origin u) in
              bindP (whenP kernel_changed (perform w (Call ''run_depmod'' [k_kver kstate]))) (\<lambda>_.
              bindP (tell (Call ''progress_begin_task'' [''Generating initramfs''])) (\<lambda>_.
              bindP (perform w (Call ''rpmostree_run_dracut''
                      ([k_kver kstate, unwrap initramfs_path, if regenerate then ''1'' else ''0''] @ dracut_args))) (\<lambda>_.
                prefixP ''Finalizing kstate''
                  (perform w (Call ''rpmostree_finalize_kernel'' [k_bootdir kstate, k_kver kstate, k_path kstate])))))))))"

definition perform_local_assembly :: "'v world \<Rightarrow> RpmOstreeSysrootUpgrader \<Rightarrow> RpmOstreeSysrootUpgrader program" where
  "perform_local_assembly w u =
     bindP (assertP ''g_assert (self->layering_initialized)'' (u_layering_initialized u)) (\<lambda>_.
     bindP (assertP ''g_assert (self->pkgs_imported)'' (u_pkgs_imported u)) (\<lambda>_.
       if u_layering_type u = LAYERING_NONE then return u
       else
         bindP (look (w_lock_layering w)) (\<lambda>lock_layering.
         bindP (assertP ''g_assert (!rpmostreed_get_lock_layering)'' (\<not> lock_layering)) (\<lambda>_.
         bindP (tell (Call ''rpmostree_context_set_allow_empty_transaction'' [if u_allow_empty_transaction u then ''1'' else ''0''])) (\<lambda>_.
         bindP (if u_layering_type u = LAYERING_RPMMD_REPOS
                then bindP (perform w (Call ''rpmostree_context_assemble'' [])) (\<lambda>_. return (u\<lparr>u_final_revision := None\<rparr>))
                else bindP (perform w (Call ''rpmostree_context_assemble_end'' [])) (\<lambda>_. return u)) (\<lambda>u.
         bindP (perform w (Call ''rpmostree_rootfs_postprocess_common'' [])) (\<lambda>_.
         bindP (assemble_kernel w u) (\<lambda>_.
         bindP (prefixP ''Committing'' (ask w (Call ''rpmostree_context_commit'' [u_base_revision u]) (w_str w))) (\<lambda>final_revision.
           return (u\<lparr>u_final_revision := Some final_revision, u_ctx := False, u_tmprootfs := False\<rparr>))))))))))"

definition rpmostree_sysroot_upgrader_prep_layering ::
  "'v world \<Rightarrow> RpmOstreeSysrootUpgrader \<Rightarrow> (RpmOstreeSysrootUpgrader \<times> LayeringType \<times> bool) program" where
  "rpmostree_sysroot_upgrader_prep_layering w u =
     (let u = u\<lparr>u_layering_initialized := True, u_layering_type := LAYERING_NONE\<rparr>
      in if \<not> rpmostree_origin_may_require_local_assembly (u_computed_origin u)
         then return (u\<lparr>u_final_revision := None\<rparr>, LAYERING_NONE, False)
         else
           bindP (look (w_lock_layering w)) (\<lambda>lock_layering.
             if lock_layering then throw (Throw ''Cannot operate; `LockLayering=true` in configuration.'' [])
             else
               bindP (load_base_rsack w u) (\<lambda>u.
               bindP (finalize_overrides w u) (\<lambda>u.
               bindP (finalize_overlays w u) (\<lambda>u.
                 if \<not> rpmostree_origin_may_require_local_assembly (u_computed_origin u)
                 then return (u\<lparr>u_final_revision := None\<rparr>, LAYERING_NONE, False)
                 else
                   bindP (prep_local_assembly w u) (\<lambda>u.
                     return (u, u_layering_type u, u_layering_changed u)))))))"

definition rpmostree_sysroot_upgrader_import_pkgs ::
  "'v world \<Rightarrow> RpmOstreeSysrootUpgrader \<Rightarrow> RpmOstreeSysrootUpgrader program" where
  "rpmostree_sysroot_upgrader_import_pkgs w u =
     bindP (assertP ''g_assert (self->layering_initialized)'' (u_layering_initialized u)) (\<lambda>_.
     bindP (assertP ''g_assert (!self->pkgs_imported)'' (\<not> u_pkgs_imported u)) (\<lambda>_.
     bindP (whenP (u_layering_type u = LAYERING_RPMMD_REPOS)
       (bindP (perform w (Call ''rpmostree_context_download'' [])) (\<lambda>_.
         perform w (Call ''rpmostree_context_import'' [])))) (\<lambda>_.
       return (u\<lparr>u_pkgs_imported := True\<rparr>))))"

section \<open>The new deployment\<close>

definition write_history :: "'v world \<Rightarrow> RpmOstreeSysrootUpgrader \<Rightarrow> OstreeDeployment \<Rightarrow> unit program" where
  "write_history w u new_deployment =
     bindP (perform w (On_deployment ''rpmostreed_deployment_generate_variant'' new_deployment)) (\<lambda>_.
     bindP (ask w (On_deployment ''glnx_fstatat'' new_deployment) (w_str w)) (\<lambda>ctime.
     bindP (perform w (Call ''glnx_shutil_mkdir_p_at'' [''RPMOSTREE_HISTORY_DIR'', ''0775''])) (\<lambda>_.
     bindP (perform w (Call ''glnx_file_replace_contents_at'' [''RPMOSTREE_HISTORY_DIR'', ctime])) (\<lambda>_.
     bindP (load_commit w (d_csum new_deployment)) (\<lambda>commit.
     bindP (lift (rpmostree_origin_get_refspec (w_origin_env w) (u_computed_origin u))) (\<lambda>(kind, refspec).
       tell (Call ''sd_journal_send'' [d_csum new_deployment, refspec, unwrap (c_version commit),
         unwrap (u_command_line u), unwrap (u_agent u), unwrap (u_sd_unit u)])))))))"

definition syscore_write_deployment ::
  "'v world \<Rightarrow> OstreeDeployment \<Rightarrow> OstreeDeployment option \<Rightarrow> bool \<Rightarrow> unit program" where
  "syscore_write_deployment w new_deployment merge_deployment pushing_rollback =
     bindP get_sysroot (\<lambda>sysroot.
     bindP (case (pushing_rollback, sr_booted sysroot) of
              (False, Some booted) \<Rightarrow> ask w (On_deployment ''has_live_apply_state'' booted) (w_bool w)
            | _ \<Rightarrow> return False) (\<lambda>is_live.
     bindP (lift (write_deployment_flags (\<lambda>_. Inr is_live) sysroot pushing_rollback)) (\<lambda>flags.
     bindP (ask_sysroot w (Simple_write (d_osname new_deployment) new_deployment merge_deployment flags) (\<lambda>_. ())) (\<lambda>_.
       syscore_cleanup w))))"

text \<open>The kernel arguments: those set by the caller, or the ones of the merge deployment.\<close>

definition kargs_to_deploy :: "'v world \<Rightarrow> RpmOstreeSysrootUpgrader \<Rightarrow> string list" where
  "kargs_to_deploy w u =
     (case u_kargs_strv u of
        Some kargs \<Rightarrow> kargs
      | None \<Rightarrow> w_kargs_from_string w (unwrap (d_bootconfig (u_origin_merge_deployment u) ''options'')))"

definition overlay_initrds :: "'v world \<Rightarrow> RpmOstreeSysrootUpgrader \<Rightarrow> string list program" where
  "overlay_initrds w u =
     (if \<not> rpmostree_origin_has_initramfs_etc_files (u_computed_origin u) then return []
      else
        bindP (look (w_lock_layering w)) (\<lambda>lock_layering.
        bindP (assertP ''g_assert (!rpmostreed_get_lock_layering)'' (\<not> lock_layering)) (\<lambda>_.
        bindP (perform w (Call ''initramfs_overlay_generate'' (rpmostree_origin_get_initramfs_etc_files (u_computed_origin u)))) (\<lambda>_.
        bindP (prefixP ''Staging initramfs overlay'' (ask w (Call ''ostree_sysroot_stage_overlay_initrd'' []) (w_str w))) (\<lambda>checksum.
          return [checksum])))))"

text \<open>Writing the deployment of a revision, with the history entry, the sanity check and the cleanup of refs.\<close>

definition deploy_revision ::
  "'v world \<Rightarrow> RpmOstreeSysrootUpgrader \<Rightarrow> string \<Rightarrow> (RpmOstreeSysrootUpgrader \<times> OstreeDeployment option) program" where
  "deploy_revision w u target_revision =
     bindP get_sysroot (\<lambda>sysroot.
       let use_staging = (sr_booted sysroot \<noteq> None);
           u = u\<lparr>u_kargs_strv := Some (kargs_to_deploy w u)\<rparr>
       in bindP (overlay_initrds w u) (\<lambda>overlays.
            let opts = \<lparr>do_locked = has_flag (u_flags u) RPMOSTREE_SYSROOT_UPGRADER_FLAGS_LOCK_FINALIZATION,
                        do_kargs = unwrap (u_kargs_strv u), do_overlay_initrds = overlays\<rparr>
            in bindP (if use_staging
                      then bindP (tell (Call ''progress_begin_task'' [''Staging deployment''])) (\<lambda>_.
                           ask_sysroot w (Stage_tree (u_osname u) target_revision (u_original_origin u)
                             (u_cfg_merge_deployment u) opts) (w_deployment w))
                      else ask w (Deploy_tree (u_osname u) target_revision (u_original_origin u)
                             (u_cfg_merge_deployment u) opts) (w_deployment w)) (\<lambda>new_deployment.
               bindP (write_history w u new_deployment) (\<lambda>_.
               bindP (case u_final_revision u of
                        None \<Rightarrow>
                          bindP (perform w (On_deployment ''glnx_opendirat'' new_deployment)) (\<lambda>_.
                            perform w (On_deployment ''rpmostree_deployment_sanitycheck_true'' new_deployment))
                      | Some _ \<Rightarrow> set_ref_immediate w None RPMOSTREE_TMP_BASE_REF (u_base_revision u)) (\<lambda>_.
               bindP (if use_staging then syscore_cleanup w
                      else syscore_write_deployment w new_deployment (Some (u_cfg_merge_deployment u)) False) (\<lambda>_.
                 return (u, Some new_deployment)))))))"

definition rpmostree_sysroot_upgrader_deploy ::
  "'v world \<Rightarrow> RpmOstreeSysrootUpgrader \<Rightarrow> (RpmOstreeSysrootUpgrader \<times> OstreeDeployment option) program" where
  "rpmostree_sysroot_upgrader_deploy w u =
     (if has_flag (u_flags u) RPMOSTREE_SYSROOT_UPGRADER_FLAGS_DRY_RUN then return (u, None)
      else
        bindP (if u_layering_initialized u then return u
               else bindP (rpmostree_sysroot_upgrader_prep_layering w u) (\<lambda>(u, _). return u)) (\<lambda>u.
        bindP (if u_pkgs_imported u then return u else rpmostree_sysroot_upgrader_import_pkgs w u) (\<lambda>u.
        bindP (perform_local_assembly w u) (\<lambda>u.
          deploy_revision w u (case u_final_revision u of Some r \<Rightarrow> r | None \<Rightarrow> u_base_revision u)))))"

section \<open>What the steps do to the upgrader\<close>

text \<open>The computed origin only loses requests and overrides.\<close>

definition trimmed :: "treefile \<Rightarrow> treefile \<Rightarrow> bool" where
  "trimmed a b \<longleftrightarrow> (origin_ok a \<longrightarrow> origin_ok b) \<and> base_refspec b = base_refspec a \<and>
     container_image_reference b = container_image_reference a \<and> initramfs b = initramfs a"

lemma trimmed_refl: "trimmed a a"
  by (simp add: trimmed_def)

lemma trimmed_trans: "trimmed a b \<Longrightarrow> trimmed b c \<Longrightarrow> trimmed a c"
  unfolding trimmed_def by auto

lemma trimmed_step: "origin_step env a b \<Longrightarrow> base_refspec b = base_refspec a \<Longrightarrow>
    container_image_reference b = container_image_reference a \<Longrightarrow> initramfs b = initramfs a \<Longrightarrow> trimmed a b"
  using one_step_ok by (auto simp: trimmed_def)

lemma trimmed_filter: "trimmed a (a\<lparr>packages := map_option (filter P) (packages a)\<rparr>)"
proof -
  have "origin_ok (a\<lparr>packages := map_option (filter P) (packages a)\<rparr>)" if "origin_ok a"
    by (rule origin_ok_shrink [OF that]; use origin_ok_parts [OF that] in \<open>cases "packages a"\<close>)
      (auto simp: ascending_def sorted_wrt_filter)
  then show ?thesis by (simp add: trimmed_def)
qed

text \<open>The fields that the steps before the assembly leave alone.\<close>

definition core :: "RpmOstreeSysrootUpgrader \<Rightarrow> RpmOstreeSysrootUpgrader" where
  "core u = u\<lparr>u_tmprootfs := False, u_rsack := None, u_metatmpdir := False, u_computed_origin := u_original_origin u\<rparr>"

lemma core_updates [simp]:
  "core (u\<lparr>u_tmprootfs := b\<rparr>) = core u" "core (u\<lparr>u_rsack := r\<rparr>) = core u" "core (u\<lparr>u_metatmpdir := b\<rparr>) = core u"
  "core (u\<lparr>u_computed_origin := origin\<rparr>) = core u"
  by (simp_all add: core_def)

lemma core_fields:
  assumes "core u' = core u"
  shows "u_osname u' = u_osname u" "u_flags u' = u_flags u" "u_cfg_merge_deployment u' = u_cfg_merge_deployment u"
    "u_origin_merge_deployment u' = u_origin_merge_deployment u" "u_original_origin u' = u_original_origin u"
    "u_ctx u' = u_ctx u" "u_layering_initialized u' = u_layering_initialized u" "u_layering_type u' = u_layering_type u"
    "u_pkgs_imported u' = u_pkgs_imported u" "u_base_revision u' = u_base_revision u"
    "u_final_revision u' = u_final_revision u" "u_kargs_strv u' = u_kargs_strv u"
  by (use arg_cong [OF assms, of u_osname]
    arg_cong [OF assms, of u_flags]
    arg_cong [OF assms, of u_cfg_merge_deployment]
    arg_cong [OF assms, of u_origin_merge_deployment]
    arg_cong [OF assms, of u_original_origin]
    arg_cong [OF assms, of u_ctx]
    arg_cong [OF assms, of u_layering_initialized]
    arg_cong [OF assms, of u_layering_type]
    arg_cong [OF assms, of u_pkgs_imported]
    arg_cong [OF assms, of u_base_revision]
    arg_cong [OF assms, of u_final_revision]
    arg_cong [OF assms, of u_kargs_strv]
    in \<open>simp_all add: core_def\<close>)

lemma checkout_base_tree_value: "yields.does (checkout_base_tree w u) (\<lambda>u'. u' = u\<lparr>u_tmprootfs := True\<rparr>)"
  unfolding checkout_base_tree_def by (intro yields_rules) simp_all

lemma load_base_rsack_value:
  "yields.does (load_base_rsack w u) (\<lambda>u'. core u' = core u \<and> u_computed_origin u' = u_computed_origin u \<and> u_rsack u' \<noteq> None)"
proof -
  have pending: "yields.does (try_load_base_rsack_from_pending w u)
      (\<lambda>u'. core u' = core u \<and> u_computed_origin u' = u_computed_origin u)"
    unfolding try_load_base_rsack_from_pending_def by (intro yields_rules) simp_all
  show ?thesis
    unfolding load_base_rsack_def
    by (rule yields.does_bind [OF pending], intro yields.does_option yields.does_return yields.does_bind [OF checkout_base_tree_value])
      (auto intro!: yields_rules)
qed

lemma origin_step_removals:
  "trimmed a (fst (rpmostree_origin_remove_override_remove a p))"
  "trimmed a (fst (rpmostree_origin_remove_override_replace_local a p))"
  "trimmed a (fst (rpmostree_origin_remove_override_replace a p))"
  by (rule trimmed_step, rule origin_step.intros(8), simp_all add: rpmostree_origin_remove_override_remove_def)
    (rule trimmed_step, rule origin_step.intros(9), simp_all add: rpmostree_origin_remove_override_replace_local_def,
     rule trimmed_step, rule origin_step.intros(10), simp_all add: rpmostree_origin_remove_override_replace_def split: option.splits)

lemma origin_step_replacements:
  "trimmed a (fst (rpmostree_origin_remove_override_replace (fst (rpmostree_origin_remove_override_replace_local a p)) p))"
  by (rule trimmed_trans [OF origin_step_removals(2) origin_step_removals(3)])

definition trims :: "'v world \<Rightarrow> RpmOstreeSysrootUpgrader \<Rightarrow> RpmOstreeSysrootUpgrader \<Rightarrow> bool" where
  "trims w u u' \<longleftrightarrow> core u' = core u \<and> u_rsack u' = u_rsack u \<and>
     trimmed (u_computed_origin u) (u_computed_origin u')"

lemma trims_refl: "trims w u u"
  by (simp add: trims_def trimmed_refl)

lemma trims_trans: "trims w u u' \<Longrightarrow> trims w u' u'' \<Longrightarrow> trims w u u''"
  by (auto simp: trims_def intro: trimmed_trans)

lemma trims_origin: "trimmed (u_computed_origin u) origin \<Longrightarrow> trims w u (u\<lparr>u_computed_origin := origin\<rparr>)"
  by (simp add: trims_def)

lemma get_rsack_value: "yields.does (get_rsack u) (\<lambda>sack. u_rsack u = Some sack)"
  unfolding get_rsack_def by (intro yields_rules) simp_all

lemma finalize_overrides_value: "yields.does (finalize_overrides w u) (trims w u)"
proof -
  have 1: "yields.does (finalize_removal_overrides w u) (trims w u)" for u
    unfolding finalize_removal_overrides_def
    by (intro yields_rules yields.does_lift yields.does_fold yields.does_mono [OF get_rsack_value])
      (auto intro: trims_refl trims_trans trims_origin origin_step_removals)
  have 2: "yields.does (finalize_replacement_overrides w u) (trims w u)" for u
    unfolding finalize_replacement_overrides_def Let_def
    by (intro yields_rules yields.does_lift yields.does_fold yields.does_mono [OF get_rsack_value])
      (auto intro: trims_refl trims_trans trims_origin origin_step_replacements)
  show ?thesis
    unfolding finalize_overrides_def
    by (rule yields.does_bind [OF 1], rule yields.does_mono [OF 2], rule trims_trans)
qed

lemma add_local_pkgset_value:
  "yields.does (add_local_pkgset_to_sack w u pkgset)
     (\<lambda>u'. core u' = core u \<and> u_computed_origin u' = u_computed_origin u \<and> (u_rsack u \<noteq> None \<longrightarrow> u_rsack u' \<noteq> None))"
  (is "yields.does _ (?Q u)")
proof -
  have meta: "yields.does (initialize_metatmpdir w u) (\<lambda>u'. core u' = core u \<and> u_computed_origin u' = u_computed_origin u \<and> u_rsack u' = u_rsack u)"
    unfolding initialize_metatmpdir_def by (intro yields_rules) simp_all
  have one: "yields.does (add_local_pkg_to_sack w v n) (?Q u)" if "?Q u v" for v n
    unfolding add_local_pkg_to_sack_def
    by (intro yields_rules yields.does_lift yields.does_mono [OF get_rsack_value]) (use that in auto)
  show ?thesis
    unfolding add_local_pkgset_to_sack_def
    by (intro yields.does_if yields.does_return yields.does_bind [OF meta] yields.does_fold one) auto
qed

lemma inactive_requests_are:
  "inactive_requests w sack origin pats = Inr r \<Longrightarrow>
   map fst r = filter (\<lambda>p. rpmostree_get_matching_packages w sack p \<noteq> []) pats"
  by (induction pats arbitrary: r) (auto simp: bindR_Inr_iff split: list.splits)

lemma remove_one_request:
  assumes "fst r \<in> set (unwrap (packages (u_computed_origin u)))"
  shows "remove_inactive_request w u r s =
    (Inr (u\<lparr>u_computed_origin := (u_computed_origin u)\<lparr>packages :=
        map_option (removeAll (fst r)) (packages (u_computed_origin u))\<rparr>\<rparr>),
     s\<lparr>history := history s @ [Message ''  %s (already provided by %s)'' [fst r, snd r]]\<rparr>)"
  using assms by (simp add: remove_inactive_request_def rpmostree_origin_remove_packages_def remove_packages_def
      has_package_def set_changed_def)

lemma remove_inactive_requests:
  "distinct (map fst rs) \<Longrightarrow> set (map fst rs) \<subseteq> set (unwrap (packages (u_computed_origin u))) \<Longrightarrow>
   \<exists>s'. foldP (remove_inactive_request w) u rs s =
     (Inr (u\<lparr>u_computed_origin := (u_computed_origin u)\<lparr>packages :=
        map_option (filter (\<lambda>p. p \<notin> set (map fst rs))) (packages (u_computed_origin u))\<rparr>\<rparr>), s')"
proof (induction rs arbitrary: u s)
  case Nil
  show ?case by (simp add: option.map_ident)
next
  case (Cons r rs)
  let ?u = "u\<lparr>u_computed_origin := (u_computed_origin u)\<lparr>packages := map_option (removeAll (fst r)) (packages (u_computed_origin u))\<rparr>\<rparr>"
  have f: "map_option (filter (\<lambda>p. p \<notin> set (map fst rs))) (map_option (removeAll (fst r)) x) =
      map_option (filter (\<lambda>p. p \<notin> set (map fst (r # rs)))) x" for x :: "string list option"
    by (cases x) (auto simp: removeAll_filter_not_eq intro: filter_cong)
  have "remove_inactive_request w u r s = (Inr ?u, s\<lparr>history := history s @ [Message ''  %s (already provided by %s)'' [fst r, snd r]]\<rparr>)"
    using Cons.prems(2) by (intro remove_one_request) simp
  moreover have "distinct (map fst rs)" "set (map fst rs) \<subseteq> set (unwrap (packages (u_computed_origin ?u)))"
    using Cons.prems by (force simp del: set_map)+
  ultimately show ?case
    using Cons.IH [of ?u] f [of "packages (u_computed_origin u)"] by (simp add: bindP_def)
qed

lemma ascending_distinct: "ascending xs \<Longrightarrow> distinct xs"
proof (induction xs)
  case (Cons x xs)
  have "\<not> strcmp x x < 0" by (metis strcmp_zero_iff less_irrefl)
  with Cons show ?case by (auto simp: ascending_def)
qed simp

lemma finalize_overlays_run:
  assumes "finalize_overlays w u s = (Inr u', s')" "origin_ok (u_computed_origin u)"
  obtains sack where "u_rsack u' = Some sack" "core u' = core u"
    "u_computed_origin u' = (u_computed_origin u)\<lparr>packages :=
       map_option (filter (\<lambda>p. w_selector w sack p = [])) (packages (u_computed_origin u))\<rparr>"
proof -
  note add = yields.doesD(3) [OF add_local_pkgset_value _ HOL.refl]
  let ?pats = "unwrap (packages (u_computed_origin u))"
  obtain u1 s1 u2 s2 sack inactive s3 where
    1: "add_local_pkgset_to_sack w u (rpmostree_origin_get_local_packages (u_computed_origin u)) s1 = (Inr u1, s2)"
    and 2: "\<exists>s4. add_local_pkgset_to_sack w u1 (rpmostree_origin_get_local_fileoverride_packages (u_computed_origin u1)) s2 = (Inr u2, s4)"
    and 3: "u_rsack u2 = Some sack"
    and 4: "inactive_requests w sack (u_computed_origin u2) (rpmostree_origin_get_packages (u_computed_origin u2)) = Inr inactive"
    and 5: "foldP (remove_inactive_request w) u2 inactive s3 = (Inr u', s')"
    using assms(1) unfolding finalize_overlays_def
    by (auto simp: bindP_eq_Inr get_rsack_def lift_def split: option.splits)
  have eq: "core u2 = core u" "u_computed_origin u2 = u_computed_origin u"
    using add [OF 1] 2 add by metis+
  have names: "map fst inactive = filter (\<lambda>p. w_selector w sack p \<noteq> []) ?pats"
    using inactive_requests_are [OF 4] eq(2) by (simp add: rpmostree_get_matching_packages_def rpmostree_origin_get_packages_def)
  have "distinct (map fst inactive)"
    unfolding names using ascending_distinct [OF origin_ok_parts(1) [OF assms(2)]] by simp
  moreover have "set (map fst inactive) \<subseteq> set (unwrap (packages (u_computed_origin u2)))"
    unfolding names eq(2) by auto
  ultimately have u': "u' = u2\<lparr>u_computed_origin := (u_computed_origin u2)\<lparr>packages :=
      map_option (filter (\<lambda>p. p \<notin> set (map fst inactive))) (packages (u_computed_origin u2))\<rparr>\<rparr>"
    using remove_inactive_requests [of inactive u2 w s3] 5 by auto
  have "map_option (filter (\<lambda>p. p \<notin> set (map fst inactive))) (packages (u_computed_origin u)) =
      map_option (filter (\<lambda>p. w_selector w sack p = [])) (packages (u_computed_origin u))"
    unfolding names by (cases "packages (u_computed_origin u)") (auto intro!: filter_cong)
  with u' eq 3 show thesis by (intro that [of sack]) simp_all
qed


section \<open>No assertion fails\<close>

text \<open>What is assumed of libraries: an error they report is an error, not a crash.\<close>

definition syscore_safe :: "'v syscore_env \<Rightarrow> bool" where
  "syscore_safe env \<longleftrightarrow>
     (\<forall>c. safe (gc_load_commit (se_gc env) c)) \<and> (\<forall>d. safe (gc_local_replace (se_gc env) d)) \<and>
     (\<forall>d. safe (gc_system_packages (se_gc env) d)) \<and> (\<forall>c x. gc_validate_checksum (se_gc env) c \<noteq> Some (Abort x)) \<and>
     (\<forall>p x. se_list_refs_error env p \<noteq> Some (Abort x)) \<and> (\<forall>r. safe (se_prune_repo env r)) \<and>
     safe (se_transaction_start env) \<and> safe (se_commit_transaction env) \<and> safe (se_prepare_cleanup env) \<and>
     safe (se_rm_rf_tmp_rootfs env) \<and> safe (se_history_prune env) \<and> safe (se_applylive_sync_ref env) \<and> safe (se_container_prune env)"

definition world_safe :: "'v world \<Rightarrow> bool" where
  "world_safe w \<longleftrightarrow> (\<forall>h. syscore_safe (w_syscore w h)) \<and>
     (\<forall>c x. validate_checksum_string (w_origin_env w) c \<noteq> Some (Abort x))"

lemma safe_Inl: "(\<And>x. e \<noteq> Abort x) \<Longrightarrow> safe (Inl e)"
  by (cases e) auto

lemma safe_InlD: "safe (Inl e) \<Longrightarrow> e \<noteq> Abort x"
  by auto

lemma decompose_safe:
  "(\<And>c x. validate c \<noteq> Some (Abort x)) \<Longrightarrow> safe (rpmostree_decompose_sha256_nevra validate v)"
  "safe (rpmostree_decompose_nevra split1 v)" "safe (nevra_to_cache_branch split1 v)"
  by (auto simp: rpmostree_decompose_sha256_nevra_def rpmostree_decompose_nevra_def nevra_to_cache_branch_def Let_def
      intro!: safe_Inl split: option.splits)

lemma base_layer_safe: "safe (load c) \<Longrightarrow> safe (rpmostree_deployment_get_base_layer load c)"
  by (cases "load c") (auto simp: rpmostree_deployment_get_base_layer_def rpmostree_deployment_get_layered_info_def
      safe_bindR Let_def dest: safe_InlD intro!: safe_Inl split: prod.splits)

lemma set_base_refs_safe: "list_all safe rs \<Longrightarrow> safe (set_base_refs n rs updates)"
  by (induction n rs updates rule: set_base_refs.induct) (auto simp: safe_bindR)

lemma base_revs_safe: "(\<And>c. safe (gc_load_commit g c)) \<Longrightarrow> list_all safe (base_revs g ds)"
proof (induction g ds rule: base_revs.induct)
  case (2 g d ds)
  then show ?case
    using 2(2) [of "d_csum d"] by (cases "gc_load_commit g (d_csum d)") (auto dest: safe_InlD intro!: safe_Inl split: prod.splits)
qed simp

lemma local_replacements_safe:
  "(\<And>c x. gc_validate_checksum g c \<noteq> Some (Abort x)) \<Longrightarrow> safe (add_local_replacements g l r)"
  by (induction g l r rule: add_local_replacements.induct) (auto simp: safe_bindR decompose_safe)

lemma deployments_refs_safe:
  assumes "\<And>c. safe (gc_load_commit g c)" "\<And>d. safe (gc_local_replace g d)" "\<And>d. safe (gc_system_packages g d)"
    "\<And>c x. gc_validate_checksum g c \<noteq> Some (Abort x)"
  shows "safe (deployments_refs g ds r)"
  using assms
  by (induction g ds r rule: deployments_refs.induct)
    (auto simp: safe_bindR add_deployment_refs_def add_package_refs_to_set_def base_layer_safe local_replacements_safe split: option.splits)

lemma cleanup_safe:
  assumes "syscore_safe env"
  shows "safe (rpmostree_syscore_cleanup env sr refs)"
proof -
  note e = assms [unfolded syscore_safe_def]
  have list: "safe (list_refs_ext env p r)" for p r
    using e by (auto simp: list_refs_ext_def intro!: safe_Inl split: option.splits)
  have "safe (generate_baselayer_refs env sr refs)"
    using e list by (auto simp: generate_baselayer_refs_def safe_bindR intro!: set_base_refs_safe base_revs_safe)
  moreover have "safe (generate_pkgcache_refs (se_gc env) (sr_deployments sr) (list_refs_ext env ''rpmostree/pkg'' refs))"
    using e list by (auto simp: generate_pkgcache_refs_def safe_bindR Let_def intro!: deployments_refs_safe)
  ultimately have "safe (syscore_regenerate_refs env sr refs)"
    using e by (auto simp: syscore_regenerate_refs_def safe_bindR)
  then show ?thesis
    using e by (auto simp: rpmostree_syscore_cleanup_def safe_bindR)
qed

lemma syscore_cleanup_safely: "world_safe w \<Longrightarrow> Q () \<Longrightarrow> safely.does (syscore_cleanup w) Q"
proof (rule safely.doesI)
  fix s r s'
  assume w: "world_safe w" and q: "Q ()" and run: "syscore_cleanup w s = (r, s')"
  let ?h = "history s @ [Syscore_cleanup]"
  have "safe (rpmostree_syscore_cleanup (w_syscore w ?h) (sysroot s) (repo_refs_of s))"
    using w by (intro cleanup_safe) (simp add: world_safe_def)
  then show "True \<and> (True \<longrightarrow> safe r) \<and> (\<forall>a. r = Inr a \<longrightarrow> Q a)"
    using run q by (cases "rpmostree_syscore_cleanup (w_syscore w ?h) (sysroot s) (repo_refs_of s)")
      (auto simp: syscore_cleanup_def Let_def dest: safe_InlD intro!: safe_Inl split: prod.splits)
qed

definition origin_based :: "treefile \<Rightarrow> bool" where
  "origin_based origin \<longleftrightarrow> container_image_reference origin \<noteq> None \<or> base_refspec origin \<noteq> None"

lemma get_refspec_safe: "origin_based origin \<Longrightarrow> safe (rpmostree_origin_get_refspec env origin)"
  by (auto simp: origin_based_def rpmostree_origin_get_refspec_def split: option.splits)

lemma trimmed_keeps:
  assumes "trimmed a b"
  shows "origin_based a \<Longrightarrow> origin_based b" "origin_ok a \<Longrightarrow> origin_ok b"
    "rpmostree_origin_has_initramfs_etc_files b = rpmostree_origin_has_initramfs_etc_files a"
proof -
  show "origin_based b" if "origin_based a" using assms that by (simp add: trimmed_def origin_based_def)
  show "rpmostree_origin_has_initramfs_etc_files b = rpmostree_origin_has_initramfs_etc_files a"
    using assms by (simp add: trimmed_def rpmostree_origin_has_initramfs_etc_files_def get_initramfs_def)
  show "origin_ok b" if "origin_ok a" using assms that by (simp add: trimmed_def)
qed

lemma get_rsack_safely: "u_rsack u \<noteq> None \<Longrightarrow> (\<And>sack. u_rsack u = Some sack \<Longrightarrow> Q sack) \<Longrightarrow> safely.does (get_rsack u) Q"
  unfolding get_rsack_def by (auto intro!: safely_rules)

lemma checkout_base_tree_safely: "safely.does (checkout_base_tree w u) (\<lambda>u'. u' = u\<lparr>u_tmprootfs := True\<rparr>)"
  unfolding checkout_base_tree_def by (intro safely_rules) simp_all

lemma load_base_rsack_safely:
  "safely.does (load_base_rsack w u) (\<lambda>u'. core u' = core u \<and> u_computed_origin u' = u_computed_origin u \<and> u_rsack u' \<noteq> None)"
proof (rule safely_value [OF _ load_base_rsack_value])
  have "safely.keeps (try_load_base_rsack_from_pending w u)"
    unfolding try_load_base_rsack_from_pending_def by (intro safely_rules) simp_all
  then show "safely.keeps (load_base_rsack w u)"
    unfolding load_base_rsack_def
    by (intro safely_rules safely.does_mono [OF checkout_base_tree_safely]) simp_all
qed

lemma inactive_safe:
  "safe (inactive_removals sack removals)" "world_safe w \<Longrightarrow> safe (inactive_local_replacements w sack replacements)"
  "safe (inactive_requests w sack origin pats)"
proof -
  have name: "safe (rpmostree_sack_get_by_pkgname sack n)" for n
    by (simp add: rpmostree_sack_get_by_pkgname_def split: list.splits)
  show "safe (inactive_removals sack removals)"
    by (induction removals) (simp_all add: safe_bindR name)
  show "safe (inactive_local_replacements w sack replacements)" if "world_safe w"
    using that by (induction replacements) (auto simp: safe_bindR name decompose_safe world_safe_def)
  show "safe (inactive_requests w sack origin pats)"
    by (induction pats) (auto simp: safe_bindR split: list.splits)
qed

lemma finalize_overrides_safely:
  assumes "world_safe w" "u_rsack u \<noteq> None"
  shows "safely.does (finalize_overrides w u) (trims w u)"
proof (rule safely_value [OF _ finalize_overrides_value])
  have "safely.does (finalize_removal_overrides w u) (\<lambda>u'. u_rsack u' \<noteq> None)"
    unfolding finalize_removal_overrides_def
    by (intro safely_rules safely.does_lift safely.does_fold get_rsack_safely inactive_safe) (use assms(2) in simp_all)
  moreover have "safely.keeps (finalize_replacement_overrides w v)" if "u_rsack v \<noteq> None" for v
    unfolding finalize_replacement_overrides_def Let_def
    by (intro safely_rules safely.does_lift safely.does_fold get_rsack_safely inactive_safe) (use that assms(1) in simp_all)
  ultimately show "safely.keeps (finalize_overrides w u)"
    unfolding finalize_overrides_def by (rule safely.does_bind)
qed

lemma add_local_pkgset_safely:
  assumes "world_safe w" "u_rsack u \<noteq> None"
  shows "safely.does (add_local_pkgset_to_sack w u pkgset)
    (\<lambda>u'. core u' = core u \<and> u_computed_origin u' = u_computed_origin u \<and> u_rsack u' \<noteq> None)"
proof -
  have "safely.does (initialize_metatmpdir w u) (\<lambda>u'. u_rsack u' \<noteq> None)"
    unfolding initialize_metatmpdir_def by (intro safely_rules) (use assms(2) in simp_all)
  moreover have "safely.does (add_local_pkg_to_sack w v n) (\<lambda>u'. u_rsack u' \<noteq> None)" if "u_rsack v \<noteq> None" for v n
    unfolding add_local_pkg_to_sack_def
    by (intro safely_rules safely.does_lift get_rsack_safely decompose_safe)
      (use that assms(1) in \<open>simp_all add: world_safe_def\<close>)
  ultimately have "safely.keeps (add_local_pkgset_to_sack w u pkgset)"
    unfolding add_local_pkgset_to_sack_def
    by (auto intro!: safely.does_return safely.does_bind [where Q' = "\<lambda>u'. u_rsack u' \<noteq> None"]
        intro: safely.does_mono [OF safely.does_fold [where I = "\<lambda>u'. u_rsack u' \<noteq> None"]])
  from safely_value [OF this add_local_pkgset_value] show ?thesis
    by (rule safely.does_mono) (use assms(2) in auto)
qed

lemma remove_requests_safely:
  assumes "distinct (map fst rs)" "set (map fst rs) \<subseteq> set (unwrap (packages (u_computed_origin u)))"
  shows "safely.keeps (foldP (remove_inactive_request w) u rs)"
proof (rule safely.doesI)
  fix s r s'
  assume "foldP (remove_inactive_request w) u rs s = (r, s')"
  with remove_inactive_requests [OF assms, of w s] show "True \<and> (True \<longrightarrow> safe r) \<and> (\<forall>a. r = Inr a \<longrightarrow> True)"
    by auto
qed

lemma finalize_overlays_safely:
  assumes "world_safe w" "u_rsack u \<noteq> None" "origin_ok (u_computed_origin u)"
  shows "safely.does (finalize_overlays w u) (\<lambda>u'. core u' = core u \<and> trimmed (u_computed_origin u) (u_computed_origin u'))"
proof -
  have inactive: "distinct (map fst r) \<and> set (map fst r) \<subseteq> set (unwrap (packages origin))"
    if "inactive_requests w sack origin (rpmostree_origin_get_packages origin) = Inr r" "origin_ok origin" for sack origin r
    using inactive_requests_are [OF that(1)] ascending_distinct [OF origin_ok_parts(1) [OF that(2)]]
    by (auto simp: rpmostree_origin_get_packages_def)
  have last: "safely.keeps (foldP (remove_inactive_request w) v r)"
    if "inactive_requests w sack (u_computed_origin v) (rpmostree_origin_get_packages (u_computed_origin v)) = Inr r"
      "u_computed_origin v = u_computed_origin u" for sack v r
    using inactive [OF that(1)] that(2) assms(3) by (intro remove_requests_safely) simp_all
  have safe: "safely.keeps (finalize_overlays w u)"
    unfolding finalize_overlays_def
  proof (rule safely.keeps_bind [OF get_rsack_safely [OF assms(2)]], simp, rule safely.does_bind [OF add_local_pkgset_safely [OF assms(1,2)]],
      rule safely.does_bind [OF add_local_pkgset_safely [OF assms(1)]], simp)
    fix u1 u2
    assume "core u1 = core u \<and> u_computed_origin u1 = u_computed_origin u \<and> u_rsack u1 \<noteq> None"
      and "core u2 = core u1 \<and> u_computed_origin u2 = u_computed_origin u1 \<and> u_rsack u2 \<noteq> None"
    then have u2: "u_computed_origin u2 = u_computed_origin u" "u_rsack u2 \<noteq> None" by simp_all
    show "safely.keeps (bindP (get_rsack u2) (\<lambda>sack. bindP (lift (inactive_requests w sack (u_computed_origin u2)
        (rpmostree_origin_get_packages (u_computed_origin u2)))) (\<lambda>inactive.
        bindP (whenP (0 < length inactive) (tell (Message ''Inactive requests:'' [])))
          (\<lambda>_. foldP (remove_inactive_request w) u2 inactive))))"
      by (intro safely.keeps_bind [OF get_rsack_safely [OF u2(2)]] safely.does_bind [OF safely.does_lift [OF inactive_safe(3)]]
          safely.keeps_bind [of "whenP b m" for b m] safely_rules last [OF _ u2(1)]) simp_all
  qed
  have "yields.does (finalize_overlays w u) (\<lambda>u'. core u' = core u \<and> trimmed (u_computed_origin u) (u_computed_origin u'))"
  proof (rule yields.doesI)
    fix s r s'
    assume run: "finalize_overlays w u s = (r, s')"
    have "core u' = core u \<and> trimmed (u_computed_origin u) (u_computed_origin u')" if "r = Inr u'" for u'
      using finalize_overlays_run [OF run [unfolded that] assms(3)] trimmed_filter by metis
    then show "True \<and> (False \<longrightarrow> safe r) \<and> (\<forall>a. r = Inr a \<longrightarrow> core a = core u \<and> trimmed (u_computed_origin u) (u_computed_origin a))"
      by blast
  qed
  with safe show ?thesis by (rule safely_value)
qed

text \<open>What the rest of a deployment needs to know of an upgrader after the layering is prepared.\<close>

definition prepared :: "bool \<Rightarrow> RpmOstreeSysrootUpgrader \<Rightarrow> RpmOstreeSysrootUpgrader \<Rightarrow> bool" where
  "prepared lock u u' \<longleftrightarrow> u_layering_initialized u' \<and> u_pkgs_imported u' = u_pkgs_imported u \<and>
     origin_based (u_computed_origin u') \<and>
     (lock \<longrightarrow> u_layering_type u' = LAYERING_NONE \<and> \<not> rpmostree_origin_has_initramfs_etc_files (u_computed_origin u'))"

lemma layering_state_changed_safely:
  "origin_based (u_computed_origin u) \<Longrightarrow> safely.keeps (layering_state_changed w u)"
  unfolding layering_state_changed_def
  by (intro safely_rules safely.does_lift get_refspec_safe) simp_all

lemma prep_local_assembly_safely:
  assumes "\<not> u_ctx u" "origin_based (u_computed_origin u)"
  shows "safely.does (prep_local_assembly w u) (\<lambda>u'. u_layering_initialized u' = u_layering_initialized u \<and>
    u_pkgs_imported u' = u_pkgs_imported u \<and> u_computed_origin u' = u_computed_origin u)"
proof -
  have ctx: "safely.keeps (prepare_context_for_assembly w v)" for v
    unfolding prepare_context_for_assembly_def by (intro safely_rules) simp_all
  let ?same = "\<lambda>v v'. u_layering_initialized v' = u_layering_initialized v \<and> u_pkgs_imported v' = u_pkgs_imported v \<and>
    u_computed_origin v' = u_computed_origin v"
  have kind: "safely.does (if rpmostree_origin_has_any_packages (u_computed_origin v)
        then bindP (perform w (Call ''rpmostree_context_prepare'' [])) (\<lambda>_.
               return (v\<lparr>u_layering_type := LAYERING_RPMMD_REPOS, u_rpmmd_sack := True\<rparr>))
        else bindP (tell (Call ''rpmostree_context_set_is_empty'' [])) (\<lambda>_.
               return (v\<lparr>u_layering_type := LAYERING_LOCAL\<rparr>))) (?same v)" for v
    by (intro safely_rules) simp_all
  show ?thesis
    unfolding prep_local_assembly_def Let_def
    by (intro safely.keeps_bind safely.does_bind [OF checkout_base_tree_safely] safely.does_bind [OF kind] safely_rules
        layering_state_changed_safely ctx) (use assms in simp_all)
qed

lemma prep_layering_safely:
  assumes w: "world_safe w" "\<And>h. w_lock_layering w h = lock"
    and u: "\<not> u_ctx u" "origin_based (u_computed_origin u)" "origin_ok (u_computed_origin u)"
  shows "safely.does (rpmostree_sysroot_upgrader_prep_layering w u) (\<lambda>(u', _). prepared lock u u')"
proof -
  let ?u = "u\<lparr>u_layering_initialized := True, u_layering_type := LAYERING_NONE\<rparr>"
  have none: "prepared lock u (v\<lparr>u_final_revision := None\<rparr>)"
    if "core v = core ?u" "origin_based (u_computed_origin v)"
      "\<not> rpmostree_origin_may_require_local_assembly (u_computed_origin v)" for v
    using core_fields [OF that(1)] that(2,3) by (simp add: prepared_def rpmostree_origin_may_require_local_assembly_def)
  have some: "prepared False u v'"
    if "core v = core ?u" "origin_based (u_computed_origin v)" "u_layering_initialized v' = u_layering_initialized v"
      "u_pkgs_imported v' = u_pkgs_imported v" "u_computed_origin v' = u_computed_origin v" for v v'
    using core_fields [OF that(1)] that(2-) by (simp add: prepared_def)
  show ?thesis
  proof (cases "rpmostree_origin_may_require_local_assembly (u_computed_origin u) \<and> \<not> lock")
    case True
    have "safely.does (bindP (load_base_rsack w ?u) (\<lambda>u. bindP (finalize_overrides w u) (\<lambda>u. bindP (finalize_overlays w u) (\<lambda>u.
        if \<not> rpmostree_origin_may_require_local_assembly (u_computed_origin u)
        then return (u\<lparr>u_final_revision := None\<rparr>, LAYERING_NONE, False)
        else bindP (prep_local_assembly w u) (\<lambda>u. return (u, u_layering_type u, u_layering_changed u))))))
        (\<lambda>(u', _). prepared lock u u')"
    proof (rule safely.does_bind [OF load_base_rsack_safely], rule safely.does_bind [OF finalize_overrides_safely [OF w(1)]],
        blast, rule safely.does_bind [OF finalize_overlays_safely [OF w(1)]])
      fix u1 u2
      assume 1: "core u1 = core ?u \<and> u_computed_origin u1 = u_computed_origin ?u \<and> u_rsack u1 \<noteq> None" and 2: "trims w u1 u2"
      then show "u_rsack u2 \<noteq> None" "origin_ok (u_computed_origin u2)"
        using trimmed_keeps(2) [of "u_computed_origin u1" "u_computed_origin u2"] u(3) by (auto simp: trims_def)
      fix u3
      assume 3: "core u3 = core u2 \<and> trimmed (u_computed_origin u2) (u_computed_origin u3)"
      have c: "core u3 = core ?u" and b: "origin_based (u_computed_origin u3)"
        using 1 2 3 trimmed_keeps(1) u(2) by (fastforce simp: trims_def)+
      then have "\<not> u_ctx u3" using core_fields(6) [OF c] u(1) by simp
      from prep_local_assembly_safely [OF this b] show "safely.does (if \<not> rpmostree_origin_may_require_local_assembly (u_computed_origin u3)
          then return (u3\<lparr>u_final_revision := None\<rparr>, LAYERING_NONE, False)
          else bindP (prep_local_assembly w u3) (\<lambda>u. return (u, u_layering_type u, u_layering_changed u)))
          (\<lambda>(u', _). prepared lock u u')"
        using none [OF c b] some [OF c b] True
        by (auto intro!: safely.does_return safely.does_bind [OF prep_local_assembly_safely [OF \<open>\<not> u_ctx u3\<close> b]])
    qed
    with True w(2) show ?thesis
      by (auto simp: rpmostree_sysroot_upgrader_prep_layering_def Let_def intro!: safely.does_bind [OF safely.does_look [where Q = "\<lambda>b. \<not> b"]])
  next
    case False
    then show ?thesis
      using none [of ?u] u(2) w(2)
      by (auto simp: rpmostree_sysroot_upgrader_prep_layering_def Let_def
          intro!: safely.does_return safely.does_throw safely.does_bind [OF safely.does_look [where Q = "\<lambda>b. b = lock"]])
  qed
qed

lemma import_pkgs_safely:
  assumes "u_layering_initialized u" "\<not> u_pkgs_imported u"
  shows "safely.does (rpmostree_sysroot_upgrader_import_pkgs w u) (\<lambda>u'. u' = u\<lparr>u_pkgs_imported := True\<rparr>)"
  unfolding rpmostree_sysroot_upgrader_import_pkgs_def
  by (intro safely_rules) (use assms in simp_all)

lemma perform_local_assembly_safely:
  assumes "\<And>h. w_lock_layering w h = lock" "u_layering_initialized u" "u_pkgs_imported u" "lock \<longrightarrow> u_layering_type u = LAYERING_NONE"
  shows "safely.does (perform_local_assembly w u) (\<lambda>u'. u_computed_origin u' = u_computed_origin u)"
proof -
  have kernel: "safely.keeps (assemble_kernel w v)" for v
    unfolding assemble_kernel_def Let_def by (intro safely_rules) simp_all
  have start: "safely.does (if u_layering_type u = LAYERING_RPMMD_REPOS
      then bindP (perform w (Call ''rpmostree_context_assemble'' [])) (\<lambda>_. return (u\<lparr>u_final_revision := None\<rparr>))
      else bindP (perform w (Call ''rpmostree_context_assemble_end'' [])) (\<lambda>_. return u))
      (\<lambda>u'. u_computed_origin u' = u_computed_origin u)"
    by (intro safely_rules) simp_all
  have lock: "safely.does (look (w_lock_layering w)) (\<lambda>b. b = lock)"
    using assms(1) by (intro safely.does_look)
  show ?thesis
  proof (cases "u_layering_type u = LAYERING_NONE")
    case True
    then show ?thesis
      unfolding perform_local_assembly_def by (intro safely_rules) (use assms in simp_all)
  next
    case False
    with assms(4) have "\<not> lock" by blast
    then show ?thesis
      unfolding perform_local_assembly_def
      by (intro safely.keeps_bind [of "assertP what b" for what b] safely.does_if safely.does_return safely.does_bind [OF lock]
          safely.does_bind [OF start] safely_rules kernel) (use assms in simp_all)
  qed
qed

lemma syscore_write_deployment_safely: "world_safe w \<Longrightarrow> safely.keeps (syscore_write_deployment w d m pushing)"
proof -
  assume w: "world_safe w"
  have flags: "safe (write_deployment_flags (\<lambda>_. Inr live) sr pushing)" for live sr
    by (auto simp: write_deployment_flags_def split: option.splits)
  show ?thesis
    unfolding syscore_write_deployment_def
    by (intro safely_rules safely.does_lift flags syscore_cleanup_safely) (auto split: bool.splits option.splits intro!: safely_rules w)
qed

lemma deploy_revision_safely:
  assumes "world_safe w" "\<And>h. w_lock_layering w h = lock" "origin_based (u_computed_origin u)"
    "lock \<longrightarrow> \<not> rpmostree_origin_has_initramfs_etc_files (u_computed_origin u)"
  shows "safely.keeps (deploy_revision w u target)"
proof -
  have lock: "safely.does (look (w_lock_layering w)) (\<lambda>b. b = lock)"
    using assms(2) by (intro safely.does_look)
  have overlay: "safely.keeps (overlay_initrds w v)" if "u_computed_origin v = u_computed_origin u" for v
    unfolding overlay_initrds_def
    by (intro safely.does_if safely.does_return safely.does_bind [OF lock] safely_rules) (use assms(4) that in auto)
  have hist: "safely.keeps (write_history w v d)" if "u_computed_origin v = u_computed_origin u" for v d
    unfolding write_history_def load_commit_def
    by (intro safely_rules safely.does_lift get_refspec_safe) (use assms(3) that in simp_all)
  show ?thesis
    unfolding deploy_revision_def Let_def
    by (intro safely.keeps_bind [of "overlay_initrds w v" for v] safely_rules overlay hist syscore_cleanup_safely
        syscore_write_deployment_safely) (use assms(1) in simp_all)
qed

text \<open>
  C21: deploying with a fresh upgrader never fails an assertion, whatever calls of the libraries fail: the packages are
  imported once, after the layering is known; the requests dropped from the computed origin were in it; and no
  layering is attempted under \<open>LockLayering\<close>. The setting is read several times and must be the same each time.
\<close>

theorem upgrader_deploy_never_aborts:
  assumes "world_safe w" "\<And>h. w_lock_layering w h = lock"
    and "\<not> u_ctx u" "\<not> u_layering_initialized u" "\<not> u_pkgs_imported u"
    and "origin_based (u_computed_origin u)" "origin_ok (u_computed_origin u)"
  shows "safe (fst (rpmostree_sysroot_upgrader_deploy w u s))"
proof -
  have prep: "safely.does (bindP (rpmostree_sysroot_upgrader_prep_layering w u) (\<lambda>(u, _). return u)) (prepared lock u)"
    by (rule safely.does_bind [OF prep_layering_safely [OF assms(1,2,3,6,7)]]) (auto intro!: safely.does_return)
  have "safely.keeps (rpmostree_sysroot_upgrader_deploy w u)"
    unfolding rpmostree_sysroot_upgrader_deploy_def
  proof (rule safely.does_if, rule safely.does_return, simp, simp only: assms(4) if_False, rule safely.does_bind [OF prep])
    fix v
    assume v: "prepared lock u v"
    then have p: "u_layering_initialized v" "\<not> u_pkgs_imported v" using assms(5) by (simp_all add: prepared_def)
    show "safely.keeps (bindP (if u_pkgs_imported v then return v else rpmostree_sysroot_upgrader_import_pkgs w v) (\<lambda>u.
        bindP (perform_local_assembly w u) (\<lambda>u.
          deploy_revision w u (case u_final_revision u of Some r \<Rightarrow> r | None \<Rightarrow> u_base_revision u))))"
      using v p
      by (auto simp: prepared_def intro!: safely.does_bind [OF import_pkgs_safely] safely.does_bind [OF perform_local_assembly_safely [OF assms(2)]]
          deploy_revision_safely [OF assms(1,2)])
  qed
  then show ?thesis by (auto simp: safely.does_def)
qed

section \<open>Witnesses\<close>

definition plain_origin :: treefile where
  "plain_origin = demo_origin\<lparr>packages := Some [''emacs'', ''vim''], packages_local := None\<rparr>"

definition demo_upgrader :: RpmOstreeSysrootUpgrader where
  "demo_upgrader = \<lparr>u_osname = ''fedora'', u_flags = 0, u_command_line = None, u_agent = None, u_sd_unit = None,
     u_cfg_merge_deployment = mk_deployment ''fedora'' ''c'' False, u_origin_merge_deployment = mk_deployment ''fedora'' ''c'' False,
     u_original_origin = plain_origin, u_computed_origin = plain_origin, u_tmprootfs = False, u_rsack = None, u_metatmpdir = False,
     u_ctx = False, u_rpmmd_sack = False, u_layering_initialized = False, u_layering_type = LAYERING_NONE,
     u_layering_changed = False, u_allow_empty_transaction = False, u_pkgs_imported = False, u_base_revision = ''c'',
     u_final_revision = None, u_kargs_strv = None\<rparr>"

text \<open>A base that has \<open>vim\<close>.\<close>

definition vim_sack :: "sack_package list" where
  "vim_sack = [\<lparr>dnf_name = ''vim'', dnf_evr = ''9-1'', dnf_arch = ''noarch'', dnf_reponame = ''@System''\<rparr>]"

definition vim_world :: "unit world" where
  "vim_world = quiet_world\<lparr>w_selector := (\<lambda>sack p. filter (\<lambda>q. dnf_name q = p) sack)\<rparr>"

lemma demo_upgrader_facts:
  "\<not> u_ctx demo_upgrader" "\<not> u_layering_initialized demo_upgrader" "\<not> u_pkgs_imported demo_upgrader"
  "origin_based (u_computed_origin demo_upgrader)" "origin_ok (u_computed_origin demo_upgrader)"
  by (simp_all add: demo_upgrader_def plain_origin_def demo_origin_def origin_based_def origin_ok_def keys_def ascending_def)


theorem upgrader_deploy_never_aborts_witness:
  "safe (fst (rpmostree_sysroot_upgrader_deploy quiet_world demo_upgrader demo_worker))"
proof (rule upgrader_deploy_never_aborts [OF _ _ demo_upgrader_facts])
  show "world_safe quiet_world"
    by (simp add: world_safe_def syscore_safe_def calm_world_def demo_env_def demo_origin_env_def)
  show "w_lock_layering quiet_world h = False" for h
    by (simp add: calm_world_def)
qed

end
