(* ===== verification/Upgrader_Trace.thy ===== *)
theory Upgrader_Trace
  imports Upgrader
begin

text \<open>
  The calls of the upgrader as a sequence of events: what it deploys, and that it never moves to an older base
  unless told so.
\<close>

section \<open>What is deployed\<close>

text \<open>The part of an upgrader that describes the deployment to make.\<close>

definition job :: "RpmOstreeSysrootUpgrader \<Rightarrow> string \<times> treefile \<times> OstreeDeployment \<times> OstreeDeployment \<times> string list option \<times> u32" where
  "job u = (u_osname u, u_original_origin u, u_cfg_merge_deployment u, u_origin_merge_deployment u, u_kargs_strv u, u_flags u)"

lemma job_core: "core u' = core u \<Longrightarrow> job u' = job u"
  using core_fields [of u' u] by (simp add: job_def)

lemma prep_local_assembly_job: "yields.does (prep_local_assembly w u) (\<lambda>u'. job u' = job u)"
proof -
  have kind: "yields.does (if rpmostree_origin_has_any_packages (u_computed_origin v)
        then bindP (perform w (Call ''rpmostree_context_prepare'' [])) (\<lambda>_.
               return (v\<lparr>u_layering_type := LAYERING_RPMMD_REPOS, u_rpmmd_sack := True\<rparr>))
        else bindP (tell (Call ''rpmostree_context_set_is_empty'' [])) (\<lambda>_.
               return (v\<lparr>u_layering_type := LAYERING_LOCAL\<rparr>))) (\<lambda>v'. job v' = job v)" for v
    by (intro yields_rules) (simp_all add: job_def)
  have any: "yields.keeps m" for m :: "'b program"
    by (simp add: yields.does_def)
  show ?thesis
    unfolding prep_local_assembly_def Let_def
    by (rule yields.keeps_bind [OF any], rule yields.does_if, rule yields.does_throw, simp,
        rule yields.does_bind [OF checkout_base_tree_value],
        (rule yields.does_bind [OF kind] yields.keeps_bind [OF any] yields.does_return)+) (simp_all add: job_def)
qed

lemma yields_any: "yields.keeps m"
  by (simp add: yields.does_def)

lemma finalize_overlays_core: "yields.does (finalize_overlays w u) (\<lambda>u'. core u' = core u)"
proof -
  have one: "yields.does (remove_inactive_request w v r) (\<lambda>u'. core u' = core u)" if "core v = core u" for v r
    unfolding remove_inactive_request_def
    by (intro yields_rules) (use that in simp_all)
  show ?thesis
    unfolding finalize_overlays_def
  proof (rule yields.keeps_bind [OF yields_any], rule yields.does_bind [OF add_local_pkgset_value],
      rule yields.does_bind [OF add_local_pkgset_value], (rule yields.keeps_bind [OF yields_any])+, rule yields.does_fold)
    show "yields.does (remove_inactive_request w v r) (\<lambda>u'. core u' = core u)" if "core v = core u" for v r
      using that by (rule one)
  qed simp
qed

lemma prep_layering_job: "yields.does (rpmostree_sysroot_upgrader_prep_layering w u) (\<lambda>(u', _). job u' = job u)"
proof -
  let ?u = "u\<lparr>u_layering_initialized := True, u_layering_type := LAYERING_NONE\<rparr>"
  have j: "job (v\<lparr>u_final_revision := None\<rparr>) = job u" "job v = job u" if "core v = core ?u" for v
    using job_core [OF that] by (simp_all add: job_def)
  show ?thesis
    unfolding rpmostree_sysroot_upgrader_prep_layering_def Let_def
  proof (rule yields.does_if, rule yields.does_return, simp add: job_def, rule yields.keeps_bind [OF yields_any],
      rule yields.does_if, rule yields.does_throw, simp, rule yields.does_bind [OF load_base_rsack_value],
      rule yields.does_bind [OF finalize_overrides_value], rule yields.does_bind [OF finalize_overlays_core], rule yields.does_if)
    fix u1 u2 u3
    assume "core u1 = core ?u \<and> u_computed_origin u1 = u_computed_origin ?u \<and> u_rsack u1 \<noteq> None"
      and "trims w u1 u2" and "core u3 = core u2"
    then have c: "core u3 = core ?u" by (simp add: trims_def)
    show "yields.does (return (u3\<lparr>u_final_revision := None\<rparr>, LAYERING_NONE, False)) (\<lambda>(u', _). job u' = job u)"
      using j [OF c] by (intro yields.does_return) simp
    show "yields.does (bindP (prep_local_assembly w u3) (\<lambda>u. return (u, u_layering_type u, u_layering_changed u)))
        (\<lambda>(u', _). job u' = job u)"
      using j [OF c] by (auto intro!: yields.does_bind [OF prep_local_assembly_job] yields.does_return)
  qed
qed

lemma import_pkgs_job: "yields.does (rpmostree_sysroot_upgrader_import_pkgs w u) (\<lambda>u'. job u' = job u)"
  unfolding rpmostree_sysroot_upgrader_import_pkgs_def
  by (intro yields_rules) (simp_all add: job_def)

lemma perform_local_assembly_job: "yields.does (perform_local_assembly w u) (\<lambda>u'. job u' = job u)"
proof -
  have start: "yields.does (if u_layering_type u = LAYERING_RPMMD_REPOS
      then bindP (perform w (Call ''rpmostree_context_assemble'' [])) (\<lambda>_. return (u\<lparr>u_final_revision := None\<rparr>))
      else bindP (perform w (Call ''rpmostree_context_assemble_end'' [])) (\<lambda>_. return u)) (\<lambda>u'. job u' = job u)"
    by (intro yields_rules) (simp_all add: job_def)
  show ?thesis
    unfolding perform_local_assembly_def
    by (rule yields.keeps_bind [OF yields_any], rule yields.keeps_bind [OF yields_any], rule yields.does_if, rule yields.does_return, simp,
        rule yields.keeps_bind [OF yields_any], rule yields.keeps_bind [OF yields_any], rule yields.keeps_bind [OF yields_any],
        rule yields.does_bind [OF start],
        (rule yields.keeps_bind [OF yields_any])+, rule yields.does_return) (simp add: job_def)
qed

section \<open>Events\<close>

text \<open>Conditions on events that say nothing about calls other than writing deployments and rebooting.\<close>

definition harmless :: "(io \<Rightarrow> bool) \<Rightarrow> bool" where
  "harmless P \<longleftrightarrow> (\<forall>e. \<not> writes_deployments e \<and> e \<noteq> Reboot \<longrightarrow> P e)"

lemma harmless_events:
  "harmless P \<Longrightarrow> P (Call f values)" "harmless P \<Longrightarrow> P (On_deployment f d)" "harmless P \<Longrightarrow> P (Pull opts)"
  "harmless P \<Longrightarrow> P (Set_treefile t b)" "harmless P \<Longrightarrow> P Syscore_cleanup"
  by (simp_all add: harmless_def)

lemma quiet_lift [intro]: "quiet.keeps P (lift r)"
  by (intro quiet.does_lift) simp_all

lemma layering_quiet:
  assumes P: "harmless P"
  shows "quiet.keeps P (checkout_base_tree w u)" "quiet.keeps P (load_base_rsack w u)" "quiet.keeps P (finalize_overrides w u)"
    "quiet.keeps P (finalize_overlays w u)" "quiet.keeps P (prep_local_assembly w u)"
proof -
  note e = harmless_events [OF P]
  show checkout: "quiet.keeps P (checkout_base_tree w v)" for v
    unfolding checkout_base_tree_def by (intro quiet_rules) (simp_all add: e)
  have rsack: "quiet.keeps P (get_rsack v)" for v
    unfolding get_rsack_def by (intro quiet_rules) simp_all
  show "quiet.keeps P (load_base_rsack w u)"
    unfolding load_base_rsack_def try_load_base_rsack_from_pending_def
    by (intro quiet_rules checkout) (simp_all add: e)
  show "quiet.keeps P (finalize_overrides w u)"
    unfolding finalize_overrides_def finalize_removal_overrides_def finalize_replacement_overrides_def Let_def
    by (intro quiet_rules quiet.does_fold rsack quiet_lift) (simp_all add: e)
  have local: "quiet.keeps P (add_local_pkgset_to_sack w v ps)" for v ps
    unfolding add_local_pkgset_to_sack_def initialize_metatmpdir_def add_local_pkg_to_sack_def
    by (intro quiet_rules quiet.does_fold rsack quiet_lift) (simp_all add: e)
  have remove: "quiet.keeps P (remove_inactive_request w v r)" for v r
    unfolding remove_inactive_request_def by (intro quiet_rules) (simp_all add: e)
  show "quiet.keeps P (finalize_overlays w u)"
    unfolding finalize_overlays_def
    by (intro quiet_rules quiet.does_fold rsack quiet_lift local remove) (simp_all add: e)
  show "quiet.keeps P (prep_local_assembly w u)"
    unfolding prep_local_assembly_def prepare_context_for_assembly_def layering_state_changed_def Let_def
    by (intro quiet_rules quiet_lift checkout) (simp_all add: e)
qed

lemma assembly_quiet:
  assumes P: "harmless P"
  shows "quiet.keeps P (rpmostree_sysroot_upgrader_prep_layering w u)" "quiet.keeps P (rpmostree_sysroot_upgrader_import_pkgs w u)"
    "quiet.keeps P (perform_local_assembly w u)"
proof -
  note e = harmless_events [OF P]
  show "quiet.keeps P (rpmostree_sysroot_upgrader_prep_layering w u)"
    unfolding rpmostree_sysroot_upgrader_prep_layering_def Let_def
    by (intro quiet_rules layering_quiet [OF P]) simp_all
  show "quiet.keeps P (rpmostree_sysroot_upgrader_import_pkgs w u)"
    unfolding rpmostree_sysroot_upgrader_import_pkgs_def by (intro quiet_rules) (simp_all add: e)
  show "quiet.keeps P (perform_local_assembly w u)"
    unfolding perform_local_assembly_def assemble_kernel_def Let_def
    by (intro quiet_rules) (simp_all add: e)
qed

text \<open>A call that changes the boot configuration as the upgrader was told.\<close>

definition deploys_for :: "'v world \<Rightarrow> RpmOstreeSysrootUpgrader \<Rightarrow> io \<Rightarrow> bool" where
  "deploys_for w u e =
     (let as_told = (\<lambda>osname origin merge opts.
            osname = u_osname u \<and> origin = u_original_origin u \<and> merge = u_cfg_merge_deployment u \<and>
            do_kargs opts = kargs_to_deploy w u \<and>
            do_locked opts = has_flag (u_flags u) RPMOSTREE_SYSROOT_UPGRADER_FLAGS_LOCK_FINALIZATION)
      in case e of
           Stage_tree osname rev1 origin merge opts \<Rightarrow> as_told osname origin merge opts
         | Deploy_tree osname rev1 origin merge opts \<Rightarrow> as_told osname origin merge opts
         | Simple_write osname deployment merge flags \<Rightarrow> merge = Some (u_cfg_merge_deployment u)
         | Write_deployments _ _ \<Rightarrow> False
         | Reboot \<Rightarrow> False
         | _ \<Rightarrow> True)"

lemma deploys_for_harmless: "harmless (deploys_for w u)"
  by (auto simp: harmless_def deploys_for_def Let_def split: io.splits)

lemma kargs_job: "job v = job u \<Longrightarrow> kargs_to_deploy w v = kargs_to_deploy w u"
  by (cases "u_kargs_strv u") (simp_all add: job_def kargs_to_deploy_def)

lemma deploy_revision_quiet:
  assumes "job v = job u"
  shows "quiet.keeps (deploys_for w u) (deploy_revision w v target)"
proof -
  note e = harmless_events [OF deploys_for_harmless]
  have j: "u_osname v = u_osname u" "u_original_origin v = u_original_origin u"
    "u_cfg_merge_deployment v = u_cfg_merge_deployment u" "u_flags v = u_flags u"
    using assms by (simp_all add: job_def)
  have writing: "quiet.keeps (deploys_for w u) (syscore_write_deployment w d (Some (u_cfg_merge_deployment u)) False)" for d
    unfolding syscore_write_deployment_def
    by (intro quiet_rules quiet_lift) (auto simp: e deploys_for_def Let_def intro!: quiet_rules)
  have overlay: "quiet.keeps (deploys_for w u) (overlay_initrds w x)" for x
    unfolding overlay_initrds_def by (intro quiet_rules) (simp_all add: e)
  have hist: "quiet.keeps (deploys_for w u) (write_history w x d)" for x d
    unfolding write_history_def load_commit_def by (intro quiet_rules quiet_lift) (simp_all add: e)
  show ?thesis
    unfolding deploy_revision_def Let_def
    by (intro quiet_rules writing [folded j(3)] overlay hist; (simp add: e)?)
      (simp_all add: deploys_for_def Let_def j kargs_job [OF assms] writing)
qed

lemma deploys_for_job:
  assumes "job v = job u"
  shows "deploys_for w v = deploys_for w u"
proof -
  have "u_osname v = u_osname u" "u_original_origin v = u_original_origin u"
    "u_cfg_merge_deployment v = u_cfg_merge_deployment u" "u_flags v = u_flags u"
    using assms by (simp_all add: job_def)
  then show ?thesis by (auto simp: deploys_for_def fun_eq_iff kargs_job [OF assms] split: io.split)
qed

lemma upgrader_deploy_quiet: "quiet.keeps (deploys_for w u) (rpmostree_sysroot_upgrader_deploy w u)"
proof -
  note quiet = assembly_quiet [OF deploys_for_harmless, of w u]
  have prep: "quiet.does (deploys_for w u) (bindP (rpmostree_sysroot_upgrader_prep_layering w v) (\<lambda>(u, _). return u)) (\<lambda>u'. job u' = job v)" for v
    by (rule quiet.does_bind [OF quiet_value [OF quiet(1) prep_layering_job]]) (auto intro!: quiet.does_return)
  show ?thesis
    unfolding rpmostree_sysroot_upgrader_deploy_def
  proof (rule quiet.does_if, rule quiet.does_return, simp, rule quiet.does_bind [where Q' = "\<lambda>v. job v = job u"],
      rule quiet.does_if, rule quiet.does_return, simp, rule prep, rule quiet.does_bind [where Q' = "\<lambda>v. job v = job u"])
    fix v
    assume v: "job v = job u"
    show "quiet.does (deploys_for w u) (if u_pkgs_imported v then return v else rpmostree_sysroot_upgrader_import_pkgs w v) (\<lambda>v. job v = job u)"
      using v quiet.does_mono [OF quiet_value [OF quiet(2) import_pkgs_job], of v "\<lambda>x. job x = job u"]
      by (auto intro!: quiet.does_return)
    show "quiet.keeps (deploys_for w u) (bindP (perform_local_assembly w v) (\<lambda>u.
        deploy_revision w u (case u_final_revision u of Some r \<Rightarrow> r | None \<Rightarrow> u_base_revision u)))"
      by (rule quiet.does_bind [OF quiet_value [OF quiet(3) perform_local_assembly_job]], rule deploy_revision_quiet) (simp add: v)
  qed
qed


text \<open>
  C24: pulling never moves to another base without the timestamp check, unless older bases are allowed. When the base
  revision changed, the last call compared the two commits and succeeded; the caller is told of the change.
\<close>

theorem pull_base_checks_timestamps:
  assumes "rpmostree_sysroot_upgrader_pull_base w u dir check s = (Inr (u', changed), s')"
    and "u_base_revision u' \<noteq> u_base_revision u"
  shows "changed \<and> u' = u\<lparr>u_base_revision := u_base_revision u'\<rparr> \<and>
    (has_flag (u_flags u) RPMOSTREE_SYSROOT_UPGRADER_FLAGS_ALLOW_OLDER \<or>
     w_fails w (history s') = None \<and>
     last (history s') = Call ''ostree_sysroot_upgrader_check_timestamps'' [u_base_revision u, u_base_revision u'])"
proof -
  from assms(1) obtain r s1 where r: "new_base_revision w u dir check s = (Inr r, s1)"
    and k: "(case r of
         Inl changed \<Rightarrow> return (u, changed)
       | Inr new_base_rev \<Rightarrow>
           if new_base_rev = u_base_revision u then return (u, False)
           else bindP (whenP (\<not> has_flag (u_flags u) RPMOSTREE_SYSROOT_UPGRADER_FLAGS_ALLOW_OLDER)
                  (prefixP ''While checking against deployment timestamp''
                    (perform w (Call ''ostree_sysroot_upgrader_check_timestamps'' [u_base_revision u, new_base_rev])))) (\<lambda>_.
                return (u\<lparr>u_base_revision := new_base_rev\<rparr>, True))) s1 = (Inr (u', changed), s')"
    by (auto simp: rpmostree_sysroot_upgrader_pull_base_def bindP_eq_Inr)
  from k assms(2) obtain new where new: "r = Inr new" "new \<noteq> u_base_revision u"
    by (auto split: sum.splits if_splits)
  with k show ?thesis
    by (auto simp: bindP_eq_Inr whenP_def prefixP_def perform_def ask_def Let_def split: if_splits option.splits prod.splits)
qed

section \<open>Witnesses\<close>


theorem pull_base_checks_timestamps_witness:
  "\<exists>u' s'. rpmostree_sysroot_upgrader_pull_base quiet_world demo_upgrader None False demo_worker = (Inr (u', True), s') \<and>
     last (history s') = Call ''ostree_sysroot_upgrader_check_timestamps'' [''c'', ''rev'']"
proof -
  obtain u' s' where run: "rpmostree_sysroot_upgrader_pull_base quiet_world demo_upgrader None False demo_worker = (Inr (u', True), s')"
    and new: "u_base_revision u' = ''rev''"
    by (simp add: rpmostree_sysroot_upgrader_pull_base_def new_base_revision_def calm_world_def demo_upgrader_def plain_origin_def
        demo_origin_def demo_origin_env_def rpmostree_origin_get_override_commit_def rpmostree_origin_get_refspec_def
        resolve_rev_def ask_def bindP_def lift_def whenP_def prefixP_def perform_def has_flag_def Let_def)
  have old: "u_base_revision demo_upgrader = ''c''" "\<not> has_flag (u_flags demo_upgrader) 4"
    by (simp_all add: demo_upgrader_def has_flag_def)
  from pull_base_checks_timestamps [OF run] new old run show ?thesis by auto
qed

end
