(* ===== verification/Deploy_Txn.thy ===== *)
theory Deploy_Txn
  imports Upgrader_Trace
begin

text \<open>
  The transaction behind \<open>Upgrade\<close>, \<open>Deploy\<close>, \<open>Rebase\<close>, \<open>PkgChange\<close> and \<open>UpdateDeployment\<close>:
  \<open>deploy_transaction_execute\<close> of \<^verbatim>\<open>src/src/daemon/rpmostreed-transaction-types.cxx\<close>. The request is read from two
  dictionaries and a list of file descriptors, checked, applied to the origin of the merge deployment, and handed
  to the upgrader.
\<close>

section \<open>The request\<close>

text \<open>\<open>g_assert (0 <= h && h < nfds)\<close> for each handle.\<close>

fun get_fd_array_from_sparse :: "int list \<Rightarrow> int list \<Rightarrow> int list result" where
  "get_fd_array_from_sparse fds [] = Inr []"
| "get_fd_array_from_sparse fds (h # idxs) =
     (if 0 \<le> h \<and> h < int (length fds)
      then bindR (get_fd_array_from_sparse fds idxs) (\<lambda>new_fds. Inr (fds ! nat h # new_fds))
      else Inl (Abort ''g_assert (0 <= h && h < nfds)''))"

record deploy_request =
  dr_osname :: string
  dr_flags :: u32
  dr_options :: vardict
  dr_modifiers :: vardict
  dr_fds :: "int list option"
  dr_agent_id :: "string option"
  dr_sd_unit :: "string option"

record deploy_plan =
  dp_refspec :: "string option"
  dp_revision :: "string option"
  dp_flags :: u32
  dp_install_local :: "int list option"
  dp_install_fileoverride_local :: "int list option"
  dp_override_replace_local :: "int list option"
  dp_local_repo :: "int option"

abbreviation option_set :: "deploy_request \<Rightarrow> string \<Rightarrow> bool" where
  "option_set t key \<equiv> vardict_lookup_bool (dr_options t) key False"

abbreviation strv_modifier :: "deploy_request \<Rightarrow> string \<Rightarrow> string list option" where
  "strv_modifier t key \<equiv> vardict_lookup_strv_canonical (dr_modifiers t) key"

definition expected_fdn :: "deploy_request \<Rightarrow> nat" where
  "expected_fdn t =
     (let m = dr_modifiers t; n = (\<lambda>key. case lookup_ah m key of Some idxs \<Rightarrow> length idxs | None \<Rightarrow> 0)
      in n ''install-local-packages'' + n ''install-fileoverride-local-packages'' + n ''override-replace-local-packages'' +
         (case lookup_h m ''ex-local-repo-remote'' of Some h \<Rightarrow> if h \<noteq> -1 then 1 else 0 | None \<Rightarrow> 0))"

text \<open>The three lists of local packages and the descriptor of a local repository.\<close>

definition split_fds :: "deploy_request \<Rightarrow> (int list option \<times> int list option \<times> int list option \<times> int option) result" where
  "split_fds t =
     (case dr_fds t of
        None \<Rightarrow> Inr (None, None, None, None)
      | Some fds \<Rightarrow>
          let sparse = (\<lambda>key. case lookup_ah (dr_modifiers t) key of
                         None \<Rightarrow> Inr None
                       | Some idxs \<Rightarrow> bindR (get_fd_array_from_sparse fds idxs) (\<lambda>l. Inr (Some l)))
          in bindR (sparse ''install-local-packages'') (\<lambda>install_local.
             bindR (sparse ''install-fileoverride-local-packages'') (\<lambda>install_fileoverride_local.
             bindR (sparse ''override-replace-local-packages'') (\<lambda>override_replace_local.
               case lookup_h (dr_modifiers t) ''ex-local-repo-remote'' of
                 None \<Rightarrow> Inr (install_local, install_fileoverride_local, override_replace_local, None)
               | Some h \<Rightarrow>
                   if h = -1 then Inr (install_local, install_fileoverride_local, override_replace_local, None)
                   else if h < 0 \<or> int (length fds) \<le> h then Inl (Abort ''g_assert_cmpint (local_repo_remote_idx)'')
                   else Inr (install_local, install_fileoverride_local, override_replace_local, Some (fds ! nat h))))))"

text \<open>
  The checks on conflicting options, in the order of the sources. \<open>refspec_or_revision\<close> is computed before the revision
  is read, so it only looks at the refspec.
\<close>

definition conflicting_options :: "deploy_request \<Rightarrow> string option \<Rightarrow> string option \<Rightarrow> int option \<Rightarrow> string option" where
  "conflicting_options t refspec rev1 local_repo =
     (let refspec_or_revision = (refspec \<noteq> None);
          override_replace_pkgs = strv_modifier t ''override-replace-packages'';
          override_modifiers = (strv_modifier t ''override-remove-packages'' \<noteq> None \<or> strv_modifier t ''override-reset-packages'' \<noteq> None \<or>
            override_replace_pkgs \<noteq> None \<or> lookup_ah (dr_modifiers t) ''override-replace-local-packages'' \<noteq> None)
      in if refspec = None \<and> option_set t ''skip-purge'' then Some ''Can't specify skip-purge if not setting a new refspec''
         else if refspec_or_revision \<and> option_set t ''no-pull-base'' then Some ''Can't specify no-pull-base if setting a new refspec or revision''
         else if option_set t ''cache-only'' \<and> option_set t ''download-only'' then Some ''Can't specify cache-only and download-only''
         else if option_set t ''dry-run'' \<and> option_set t ''download-only'' then Some ''Can't specify dry-run and download-only''
         else if override_replace_pkgs \<noteq> None then Some ''Non-local replacement overrides not implemented yet''
         else if option_set t ''no-overrides'' \<and> override_modifiers then Some ''Can't specify no-overrides if setting override modifiers''
         else if refspec = None \<and> local_repo \<noteq> None then Some ''Missing ref for transient local rebases''
         else if rev1 \<noteq> None \<and> local_repo \<noteq> None then Some ''Revision overrides for transient local rebases not implemented yet''
         else if option_set t ''apply-live'' \<and> option_set t ''reboot'' then Some ''Cannot specify `apply-live` and `reboot`''
         else if strv_modifier t ''install-fileoverride-packages'' \<noteq> None then Some ''Non-local fileoverrides not implemented''
         else None)"

definition deploy_parse :: "deploy_request \<Rightarrow> deploy_plan result" where
  "deploy_parse t =
     (let refspec = lookup_s (dr_modifiers t) ''set-refspec'';
          refspec_or_revision = (refspec \<noteq> None);
          rev1 = lookup_s (dr_modifiers t) ''set-revision'';
          flags = (if vardict_lookup_bool (dr_options t) ''allow-downgrade'' refspec_or_revision
                   then dr_flags t OR DEPLOY_FLAG_ALLOW_DOWNGRADE else dr_flags t);
          actual_fdn = (case dr_fds t of Some fds \<Rightarrow> length fds | None \<Rightarrow> 0)
      in if expected_fdn t \<noteq> actual_fdn
         then Inl (Throw ''Expected %u fds but received %u'' [show_nat (expected_fdn t), show_nat actual_fdn])
         else
           bindR (split_fds t) (\<lambda>(install_local, install_fileoverride_local, override_replace_local, local_repo).
             case conflicting_options t refspec rev1 local_repo of
               Some msg \<Rightarrow> Inl (Throw msg [])
             | None \<Rightarrow>
                 Inr \<lparr>dp_refspec = refspec, dp_revision = rev1, dp_flags = flags, dp_install_local = install_local,
                      dp_install_fileoverride_local = install_fileoverride_local,
                      dp_override_replace_local = override_replace_local, dp_local_repo = local_repo\<rparr>))"

section \<open>The title\<close>

definition count_part :: "string \<Rightarrow> 'a list option \<Rightarrow> string" where
  "count_part label items = (case items of Some v \<Rightarrow> label @ show_nat (length v) | None \<Rightarrow> [])"

definition deploy_title :: "deploy_request \<Rightarrow> deploy_plan \<Rightarrow> string" where
  "deploy_title t p =
     (let no_pull_base = has_flag (dp_flags p) DEPLOY_FLAG_NO_PULL_BASE;
          download_metadata_only = has_flag (dp_flags p) DEPLOY_FLAG_DOWNLOAD_METADATA_ONLY;
          is_override = (no_pull_base \<and>
            (strv_modifier t ''override-reset-packages'' \<noteq> None \<or> strv_modifier t ''override-remove-packages'' \<noteq> None \<or>
             strv_modifier t ''override-replace-packages'' \<noteq> None \<or> dp_override_replace_local p \<noteq> None \<or> option_set t ''no-overrides''));
          installs = (strv_modifier t ''install-packages'' \<noteq> None \<or> dp_install_local p \<noteq> None \<or>
            dp_install_fileoverride_local p \<noteq> None \<or> strv_modifier t ''install-modules'' \<noteq> None)
      in case lookup_s (dr_options t) ''initiating-command-line'' of
           Some command_line \<Rightarrow>
             if strstr command_line ''--trigger-automatic-update-policy''
             then (if download_metadata_only then ''automatic (check)'' else ''automatic (stage)'')
             else command_line
         | None \<Rightarrow>
             (if no_pull_base \<and> \<not> is_override \<and> installs then ''install''
              else if no_pull_base \<and> \<not> is_override then ''uninstall''
              else if is_override then ''override''
              else if dp_refspec p \<noteq> None then ''rebase''
              else if dp_revision p \<noteq> None then ''deploy''
              else ''upgrade'') @
             (if option_set t ''cache-only'' then '' (cache only)''
              else if download_metadata_only then '' (check only)''
              else if has_flag (dp_flags p) DEPLOY_FLAG_DOWNLOAD_ONLY then '' (download only)''
              else []) @
             count_part ''; uninstall: '' (strv_modifier t ''uninstall-packages'') @
             count_part ''; module disable: '' (strv_modifier t ''disable-modules'') @
             count_part ''; module uninstall: '' (strv_modifier t ''uninstall-modules'') @
             count_part ''; install: '' (strv_modifier t ''install-packages'') @
             count_part ''; localinstall: '' (dp_install_local p) @
             count_part ''; fileoverride localinstall: '' (dp_install_fileoverride_local p) @
             count_part ''; module enable: '' (strv_modifier t ''enable-modules'') @
             count_part ''; module install: '' (strv_modifier t ''install-modules''))"

section \<open>Steps that do not depend on the request\<close>

text \<open>
  The update that the OS object shows to clients. \<open>rpmostreed_update_generate_variant\<close> starts with the origin of the booted
  deployment; without one it follows a null pointer.
\<close>

definition generate_update_variant ::
  "'v world \<Rightarrow> OstreeDeployment option \<Rightarrow> OstreeDeployment option \<Rightarrow> bool \<Rightarrow> unit program" where
  "generate_update_variant w booted_deployment staged_deployment has_sack =
     bindP (perform w (Call ''glnx_shutil_mkdir_p_at'' [''dirname RPMOSTREE_AUTOUPDATES_CACHE_FILE'', ''0775''])) (\<lambda>_.
     bindP (perform w (Call ''glnx_shutil_rm_rf_at'' [''RPMOSTREE_AUTOUPDATES_CACHE_FILE''])) (\<lambda>_.
       case booted_deployment of
         None \<Rightarrow> throw (Abort ''rpmostreed_update_generate_variant: booted_deployment is NULL'')
       | Some booted \<Rightarrow>
           bindP (ask w (Call ''rpmostreed_update_generate_variant''
               [d_csum booted, (case staged_deployment of Some d \<Rightarrow> d_csum d | None \<Rightarrow> []), if has_sack then ''sack'' else []])
               (w_opt_str w)) (\<lambda>update.
             case update of
               None \<Rightarrow> return ()
             | Some data \<Rightarrow> perform w (Call ''glnx_file_replace_contents_at'' [''RPMOSTREE_AUTOUPDATES_CACHE_FILE'', data]))))"

text \<open>A repository transaction that is committed when the body fails, too.\<close>

definition commit_on_failure :: "'v world \<Rightarrow> 'a program \<Rightarrow> 'a program" where
  "commit_on_failure w m s =
     (case m s of
        (Inr a, s') \<Rightarrow> (Inr a, s')
      | (Inl e, s') \<Rightarrow> (Inl e, snd (perform_refs w (Call ''ostree_repo_commit_transaction'' []) s')))"

definition import_local_rpm :: "'v world \<Rightarrow> int \<Rightarrow> string program" where
  "import_local_rpm w fd =
     bindP (perform w (Call ''rpmostree_importer_new_take_fd'' [show_nat (nat fd)])) (\<lambda>_.
     bindP (ask w (Call ''rpmostree_importer_run'' []) (w_str w)) (\<lambda>metadata_sha256.
     bindP (tell (Call ''rpmostree_importer_get_nevra'' [])) (\<lambda>_.
     bindP (look (w_str w)) (\<lambda>nevra.
       return (metadata_sha256 @ '':'' @ nevra)))))"

definition import_many_local_rpms :: "'v world \<Rightarrow> int list \<Rightarrow> string list program" where
  "import_many_local_rpms w fds =
     bindP (perform w (Call ''ostree_repo_prepare_transaction'' [])) (\<lambda>_.
     commit_on_failure w
      (bindP (perform w (Call ''glnx_opendirat'' [''/''])) (\<lambda>_.
       bindP (perform w (Call ''ostree_sepolicy_new_at'' [''/''])) (\<lambda>_.
       bindP (foldP (\<lambda>pkgs fd. bindP (import_local_rpm w fd) (\<lambda>sha256_nevra. return (pkgs @ [sha256_nevra]))) [] fds) (\<lambda>pkgs.
       bindP (perform_refs w (Call ''ostree_repo_commit_transaction'' [])) (\<lambda>_.
         return pkgs))))))"

definition get_sack_for_booted :: "'v world \<Rightarrow> OstreeDeployment \<Rightarrow> unit program" where
  "get_sack_for_booted w booted_deployment =
     prefixP ''Loading sack''
      (bindP (perform w (On_deployment ''rpmostree_context_setup'' booted_deployment)) (\<lambda>_.
       bindP (tell (Call ''rpmostree_context_set_dnf_caching'' [''RPMOSTREE_CONTEXT_DNF_CACHE_NEVER''])) (\<lambda>_.
       bindP (tell (On_deployment ''rpmostree_context_configure_from_deployment'' booted_deployment)) (\<lambda>_.
         perform w (Call ''rpmostree_context_download_metadata'' [''SKIP_RPMDB'', ''SKIP_FILELISTS'', ''LOAD_UPDATEINFO''])))))"

text \<open>The agent that drives updates, as kept in a state file.\<close>

abbreviation (input) RPMOSTREE_DRIVER_NAME :: string where "RPMOSTREE_DRIVER_NAME \<equiv> ''driver-name''"
abbreviation (input) RPMOSTREE_DRIVER_SD_UNIT :: string where "RPMOSTREE_DRIVER_SD_UNIT \<equiv> ''driver-sd-unit''"
abbreviation (input) RPMOSTREE_RUN_DIR :: string where "RPMOSTREE_RUN_DIR \<equiv> ''/run/rpm-ostree/''"
abbreviation (input) RPMOSTREE_DRIVER_STATE :: string where "RPMOSTREE_DRIVER_STATE \<equiv> ''/run/rpm-ostree/update-driver.gv''"

definition record_driver_info :: "'v world \<Rightarrow> string option \<Rightarrow> string option \<Rightarrow> vardict program" where
  "record_driver_info w update_driver sd_unit =
     (case update_driver of
        None \<Rightarrow> throw (Throw ''update driver name not provided'' [])
      | Some driver \<Rightarrow>
          (case sd_unit of
             None \<Rightarrow> throw (Throw ''could not find caller systemd unit'' [])
           | Some unit \<Rightarrow>
               bindP (perform w (Call ''glnx_shutil_mkdir_p_at'' [RPMOSTREE_RUN_DIR, ''0755''])) (\<lambda>_.
               bindP (perform w (Call ''glnx_file_replace_contents_at'' [RPMOSTREE_DRIVER_STATE, driver, unit])) (\<lambda>_.
                 return [RPMOSTREE_DRIVER_NAME \<mapsto> GV_s driver, RPMOSTREE_DRIVER_SD_UNIT \<mapsto> GV_s unit]))))"

text \<open>The state file is missing (\<open>None\<close>) or holds a dictionary.\<close>

definition get_driver_info :: "vardict option result \<Rightarrow> (string \<times> string) option result" where
  "get_driver_info state =
     bindR state (\<lambda>driver_info.
       case driver_info of
         None \<Rightarrow> Inr None
       | Some dict \<Rightarrow>
           (case lookup_s dict RPMOSTREE_DRIVER_NAME of
              None \<Rightarrow> Inl (Throw ''could not find update driver name in %s'' [RPMOSTREE_DRIVER_STATE])
            | Some name \<Rightarrow>
                (case lookup_s dict RPMOSTREE_DRIVER_SD_UNIT of
                   None \<Rightarrow> Inl (Throw ''could not find update driver systemd unit in %s'' [RPMOSTREE_DRIVER_STATE])
                 | Some sd_unit \<Rightarrow> Inr (Some (name, sd_unit)))))"

lemma driver_info_roundtrip:
  assumes "record_driver_info w driver unit s = (Inr dict, s')"
  shows "get_driver_info (Inr (Some dict)) = Inr (Some (the driver, the unit))"
  using assms by (auto simp: record_driver_info_def get_driver_info_def lookup_s_def bindP_eq_Inr split: option.splits)

text \<open>Dropping the ref that an image followed before it was rebased, \<^verbatim>\<open>src/rust/src/sysroot_upgrade.rs\<close>.\<close>

definition purge_refspec :: "'v world \<Rightarrow> string \<Rightarrow> unit program" where
  "purge_refspec w imgref =
     (if refspec_classify (w_origin_env w) imgref \<noteq> Ostree then return ()
      else case w_parse_refspec w imgref of
             None \<Rightarrow> return ()
           | Some (remote, ref) \<Rightarrow>
               bindP (perform w (Call ''ostree_repo_set_ref_immediate'' [case remote of None \<Rightarrow> [] | Some r \<Rightarrow> r, ref])) (\<lambda>_ s.
                 let name = (case remote of None \<Rightarrow> ref | Some r \<Rightarrow> r @ '':'' @ ref)
                 in (Inr (), s\<lparr>repo_refs_of := set_ref (repo_refs_of s) (name, None)\<rparr>)))"

text \<open>The reboot at the end of a transaction.\<close>

definition reboot_if :: "'v world \<Rightarrow> bool \<Rightarrow> unit program" where
  "reboot_if w b = whenP b (bindP (check_sd_inhibitor_locks w) (\<lambda>_. tell Reboot))"

section \<open>Applying the request to the origin\<close>

text \<open>
  A description of a package in the metadata of a layered commit: its NEVRA and its name. An entry of the
  replaced packages has two of them, of which the first counts.
\<close>

type_synonym nevra_variant = "string \<times> string"

definition deploy_upgrader_flags :: "deploy_request \<Rightarrow> deploy_plan \<Rightarrow> u32" where
  "deploy_upgrader_flags t p =
     (if has_flag (dp_flags p) DEPLOY_FLAG_ALLOW_DOWNGRADE then RPMOSTREE_SYSROOT_UPGRADER_FLAGS_ALLOW_OLDER else 0) OR
     (if has_flag (dp_flags p) DEPLOY_FLAG_DRY_RUN then RPMOSTREE_SYSROOT_UPGRADER_FLAGS_DRY_RUN else 0) OR
     (if option_set t ''lock-finalization'' then RPMOSTREE_SYSROOT_UPGRADER_FLAGS_LOCK_FINALIZATION else 0) OR
     (if option_set t ''cache-only''
      then RPMOSTREE_SYSROOT_UPGRADER_FLAGS_SYNTHETIC_PULL OR RPMOSTREE_SYSROOT_UPGRADER_FLAGS_PKGCACHE_ONLY else 0) OR
     (if dp_refspec p \<noteq> None then RPMOSTREE_SYSROOT_UPGRADER_FLAGS_IGNORE_UNCONFIGURED else 0)"

text \<open>Rebasing to a commit of another repository on this machine: the commit is pulled, and is the new refspec.\<close>

definition pull_local_repo :: "'v world \<Rightarrow> deploy_plan \<Rightarrow> string option program" where
  "pull_local_repo w p =
     (case dp_local_repo p of
        None \<Rightarrow> return (dp_refspec p)
      | Some dfd \<Rightarrow>
          (case dp_refspec p of
             None \<Rightarrow> throw (Abort ''g_assert (self->refspec)'')
           | Some refspec \<Rightarrow>
               bindP (prefixP ''Failed to open local repo'' (perform w (Call ''ostree_repo_open_at'' [show_nat (nat dfd)]))) (\<lambda>_.
               bindP (ask w (Call ''ostree_repo_resolve_rev'' [show_nat (nat dfd), refspec]) (w_str w)) (\<lambda>rev1.
               bindP (prefixP (''Pulling commit '' @ rev1 @ '' from local repo'')
                 (perform_refs w (Pull \<lparr>po_remote = ''file:///proc/self/fd/'' @ show_nat (nat dfd), po_refs = [rev1], po_subdir = None,
                    po_commit_only = False, po_timestamp_check = False, po_override = None, po_depth = None\<rparr>))) (\<lambda>_.
               bindP (tell (Call ''rpmostree_transaction_emit_progress_end'' [])) (\<lambda>_.
                 return (Some ('':'' @ rev1))))))))"

text \<open>What the origin follows: the new refspec, and the revision of it or none.\<close>

definition deploy_follow ::
  "'v world \<Rightarrow> deploy_request \<Rightarrow> deploy_plan \<Rightarrow> string option \<Rightarrow> treefile \<Rightarrow> (treefile \<times> string option) program" where
  "deploy_follow w t p refspec origin =
     bindP (case refspec of
              None \<Rightarrow> return (origin, None)
            | Some r \<Rightarrow> bindP (change_origin_refspec w (dr_options t) origin r) (\<lambda>(origin, old_refspec, new_refspec).
                return (origin, old_refspec))) (\<lambda>(origin, old_refspec).
     bindP (case dp_revision p of
              None \<Rightarrow> return (rpmostree_origin_set_override_commit origin None)
            | Some revision \<Rightarrow>
                bindP (apply_revision_override w origin (option_set t ''skip-branch-check'') (Some revision)) (\<lambda>origin.
                bindP (tell (Call ''rpmostree_transaction_emit_progress_end'' [])) (\<lambda>_. return origin))) (\<lambda>origin.
       return (origin, old_refspec)))"

text \<open>The initramfs, the command line wrapping and the removal of requests: the origin, \<open>changed\<close> and \<open>remove_changed\<close>.\<close>

definition deploy_removals :: "origin_env \<Rightarrow> deploy_request \<Rightarrow> treefile \<Rightarrow> (treefile \<times> bool \<times> bool) result" where
  "deploy_removals env t origin =
     (let (origin, changed) =
            (if option_set t ''no-initramfs'' \<and>
                (rpmostree_origin_get_regenerate_initramfs origin \<or> rpmostree_origin_has_initramfs_etc_files origin)
             then (fst (rpmostree_origin_initramfs_etc_files_untrack_all (rpmostree_origin_set_regenerate_initramfs origin False [])), True)
             else (origin, False));
          (origin, changed) =
            (case lookup_b (dr_options t) ''ex-cliwrap'' of
               Some val \<Rightarrow> (rpmostree_origin_set_cliwrap origin val, True)
             | None \<Rightarrow> (origin, changed))
      in if option_set t ''no-layering''
         then let (origin, removed) = rpmostree_origin_remove_all_packages origin in Inr (origin, changed \<or> removed, removed)
         else bindR (rpmostree_origin_remove_packages env origin
                  (case strv_modifier t ''uninstall-packages'' of Some v \<Rightarrow> v | None \<Rightarrow> []) (option_set t ''idempotent-layering'') False)
                (\<lambda>(origin, removed). Inr (origin, changed \<or> removed, removed)))"

fun check_not_provided :: "'v world \<Rightarrow> sack_package list \<Rightarrow> bool \<Rightarrow> string list \<Rightarrow> unit result" where
  "check_not_provided w sack allow_inactive [] = Inr ()"
| "check_not_provided w sack allow_inactive (p # ps) =
     (let pkgs = rpmostree_get_matching_packages w sack p
      in if length pkgs > 0 \<and> \<not> allow_inactive
         then Inl (Throw ''\"%s\" is already provided by:%s. Use --allow-inactive to explicitly require it.''
                [p, concat (map (\<lambda>q. '' '' @ dnf_package_get_nevra q) pkgs)])
         else check_not_provided w sack allow_inactive ps)"

text \<open>The sack of the base is loaded when it is first needed, and kept.\<close>

definition load_refsack :: "'v world \<Rightarrow> RpmOstreeSysrootUpgrader \<Rightarrow> sack_package list option \<Rightarrow> sack_package list program" where
  "load_refsack w u base_rsack =
     (case base_rsack of
        Some sack \<Rightarrow> return sack
      | None \<Rightarrow> ask w (Call ''rpmostree_get_refsack_for_commit'' [u_base_revision u]) (w_sack w))"

text \<open>On a host booted from a container image the base database is not looked at.\<close>

definition skip_base_check_of :: "'v world \<Rightarrow> treefile \<Rightarrow> bool program" where
  "skip_base_check_of w origin =
     bindP (ask w (Call ''get_system_host_type'' []) (w_bool w)) (\<lambda>is_ostree_host.
       if \<not> is_ostree_host then return False
       else bindP (lift (rpmostree_origin_get_refspec (w_origin_env w) origin)) (\<lambda>(kind, _). return (kind = Container)))"

text \<open>The packages of a list of descriptors are imported and handed to an operation of the origin, if there are any.\<close>

definition import_and_add ::
  "'v world \<Rightarrow> int list option \<Rightarrow> (treefile \<Rightarrow> string list \<Rightarrow> bool \<Rightarrow> (treefile \<times> bool) result) \<Rightarrow> treefile \<Rightarrow> bool \<Rightarrow> (treefile \<times> bool) program" where
  "import_and_add w fds add origin changed =
     (case fds of
        None \<Rightarrow> return (origin, changed)
      | Some fds \<Rightarrow>
          bindP (import_many_local_rpms w fds) (\<lambda>pkgs.
            if length pkgs > 0 then lift (add origin pkgs changed) else return (origin, changed)))"

definition deploy_installs ::
  "'v world \<Rightarrow> deploy_request \<Rightarrow> deploy_plan \<Rightarrow> RpmOstreeSysrootUpgrader \<Rightarrow> bool \<Rightarrow> treefile \<Rightarrow> bool \<Rightarrow>
   (treefile \<times> bool \<times> sack_package list option) program" where
  "deploy_installs w t p u skip_base_check origin changed =
     (let env = w_origin_env w; idempotent = option_set t ''idempotent-layering''
      in bindP (case strv_modifier t ''install-packages'' of
                  None \<Rightarrow> return (origin, changed, None)
                | Some install_pkgs \<Rightarrow>
                    bindP (if skip_base_check then return None
                           else bindP (load_refsack w u None) (\<lambda>sack.
                                bindP (lift (check_not_provided w sack (option_set t ''allow-inactive'') install_pkgs)) (\<lambda>_.
                                  return (Some sack)))) (\<lambda>base_rsack.
                    bindP (lift (rpmostree_origin_add_packages env origin install_pkgs idempotent changed)) (\<lambda>(origin, changed).
                      return (origin, changed, base_rsack)))) (\<lambda>(origin, changed, base_rsack).
         bindP (import_and_add w (dp_install_local p)
             (\<lambda>origin pkgs. rpmostree_origin_add_local_packages env origin pkgs idempotent) origin changed) (\<lambda>(origin, changed).
         bindP (import_and_add w (dp_install_fileoverride_local p)
             (\<lambda>origin pkgs. rpmostree_origin_add_local_fileoverride_packages env origin pkgs idempotent) origin changed) (\<lambda>(origin, changed).
           return (origin, changed, base_rsack)))))"

section \<open>Overrides\<close>

text \<open>Names and NEVRAs of the packages that are overridden now, in both directions.\<close>

type_synonym nevra_tables = "(string \<rightharpoonup> string) \<times> (string \<rightharpoonup> string)"

definition gv_nevra_add_nevra_name_mappings :: "nevra_variant \<Rightarrow> nevra_tables \<Rightarrow> nevra_tables" where
  "gv_nevra_add_nevra_name_mappings gv tables =
     (case (gv, tables) of ((nevra, name), (name_to_nevra, nevra_to_name)) \<Rightarrow>
        (name_to_nevra(name \<mapsto> nevra), nevra_to_name(nevra \<mapsto> name)))"

fun add_origin_mappings :: "origin_env \<Rightarrow> string list \<Rightarrow> nevra_tables \<Rightarrow> nevra_tables result" where
  "add_origin_mappings env [] tables = Inr tables"
| "add_origin_mappings env (nevra_v # rest) tables =
     bindR (rpmostree_decompose_sha256_nevra (validate_checksum_string env) nevra_v) (\<lambda>(nevra, _).
     bindR (rpmostree_decompose_nevra (split_nevra env) nevra) (\<lambda>(name, _).
       add_origin_mappings env rest (gv_nevra_add_nevra_name_mappings (nevra, name) tables)))"

definition override_tables :: "nevra_variant world \<Rightarrow> RpmOstreeSysrootUpgrader \<Rightarrow> treefile \<Rightarrow> nevra_tables program" where
  "override_tables w u origin =
     bindP (ask w (On_deployment ''deployment_layeredmeta_load'' (u_origin_merge_deployment u)) (w_layered w)) (\<lambda>meta.
     bindP (lift (rpmostree_deployment_get_layered_info (\<lambda>_. Inr meta) (d_csum (u_origin_merge_deployment u)) True)) (\<lambda>info.
       lift (add_origin_mappings (w_origin_env w) (rpmostree_origin_get_overrides_local_replace origin)
         (fold gv_nevra_add_nevra_name_mappings (li_removed_base_pkgs info @ li_replaced_base_local_pkgs info) (Map.empty, Map.empty)))))"

definition reset_override :: "nevra_tables \<Rightarrow> treefile \<Rightarrow> string \<Rightarrow> treefile result" where
  "reset_override tables origin name_or_nevra =
     (let (origin, found) = rpmostree_origin_remove_override_replace origin name_or_nevra
      in if found then Inr origin
         else
           let name = snd tables name_or_nevra; nevra = fst tables name_or_nevra
           in if name \<noteq> None \<and> nevra \<noteq> None then Inl (Abort ''g_assert_not_reached'')
              else
                let (origin, found) =
                      rpmostree_origin_remove_override_remove origin (case name of Some n \<Rightarrow> n | None \<Rightarrow> name_or_nevra)
                in if found then Inr origin
                   else
                     let (origin, found) =
                           rpmostree_origin_remove_override_replace_local origin (case nevra of Some n \<Rightarrow> n | None \<Rightarrow> name_or_nevra)
                     in if found then Inr origin
                        else Inl (Throw (''No overrides for package '%s'' @ [CHR 0x27]) [name_or_nevra]))"

fun reset_overrides :: "nevra_tables \<Rightarrow> treefile \<Rightarrow> string list \<Rightarrow> treefile result" where
  "reset_overrides tables origin [] = Inr origin"
| "reset_overrides tables origin (p # ps) = bindR (reset_override tables origin p) (\<lambda>origin. reset_overrides tables origin ps)"

text \<open>A package that replaces another takes the place of an earlier replacement of the same name.\<close>

fun drop_replaced :: "origin_env \<Rightarrow> nevra_tables \<Rightarrow> treefile \<Rightarrow> string list \<Rightarrow> treefile result" where
  "drop_replaced env tables origin [] = Inr origin"
| "drop_replaced env tables origin (p # ps) =
     bindR (rpmostree_decompose_sha256_nevra (validate_checksum_string env) p) (\<lambda>(nevra, sha256).
     bindR (rpmostree_decompose_nevra (split_nevra env) nevra) (\<lambda>(name, _).
       drop_replaced env tables
         (case fst tables name of
            Some old \<Rightarrow> fst (rpmostree_origin_remove_override_replace_local origin old)
          | None \<Rightarrow> origin) ps))"

definition replace_local :: "nevra_variant world \<Rightarrow> nevra_tables \<Rightarrow> int list option \<Rightarrow> treefile \<Rightarrow> treefile program" where
  "replace_local w tables fds origin =
     (case fds of
        None \<Rightarrow> return origin
      | Some fds \<Rightarrow>
          bindP (import_many_local_rpms w fds) (\<lambda>pkgs.
          bindP (lift (drop_replaced (w_origin_env w) tables origin pkgs)) (\<lambda>origin.
            if length pkgs > 0 then lift (rpmostree_origin_add_override_replace_local (w_origin_env w) origin pkgs)
            else return origin)))"

text \<open>The origin, \<open>changed\<close> and \<open>override_changed\<close>.\<close>

definition deploy_overrides ::
  "nevra_variant world \<Rightarrow> deploy_request \<Rightarrow> deploy_plan \<Rightarrow> RpmOstreeSysrootUpgrader \<Rightarrow> treefile \<Rightarrow> bool \<Rightarrow> (treefile \<times> bool \<times> bool) program" where
  "deploy_overrides w t p u origin changed =
     (if option_set t ''no-overrides''
      then let (origin, removed) = rpmostree_origin_remove_all_overrides origin in return (origin, changed \<or> removed, removed)
      else if strv_modifier t ''override-reset-packages'' \<noteq> None \<or> dp_override_replace_local p \<noteq> None
      then
        bindP (override_tables w u origin) (\<lambda>tables.
        bindP (lift (reset_overrides tables origin (case strv_modifier t ''override-reset-packages'' of Some v \<Rightarrow> v | None \<Rightarrow> []))) (\<lambda>origin.
        bindP (replace_local w tables (dp_override_replace_local p) origin) (\<lambda>origin.
          return (origin, True, True))))
      else return (origin, changed, False))"

definition deploy_treefile :: "'v world \<Rightarrow> deploy_request \<Rightarrow> treefile \<Rightarrow> bool \<Rightarrow> (treefile \<times> bool) program" where
  "deploy_treefile w t origin changed =
     (case lookup_s (dr_modifiers t) ''treefile'' of
        None \<Rightarrow> return (origin, changed)
      | Some treefile \<Rightarrow>
          bindP (ask w (Call ''merge_treefile'' [treefile]) (\<lambda>h. (w_origin w h, w_bool w h))) (\<lambda>(origin, merged).
            return (origin, changed \<or> merged)))"

text \<open>The packages to be removed from the base, each named by a pattern that one package of the base matches.\<close>

fun removed_names :: "'v world \<Rightarrow> sack_package list \<Rightarrow> string list \<Rightarrow> string list result" where
  "removed_names w sack [] = Inr []"
| "removed_names w sack (p # ps) =
     (case rpmostree_get_matching_packages w sack p of
        [] \<Rightarrow> Inl (Throw ''Package \"%s\" not found'' [p])
      | [q] \<Rightarrow> bindR (removed_names w sack ps) (\<lambda>names. Inr (dnf_name q # names))
      | _ \<Rightarrow> Inl (Throw ''Multiple packages match \"%s\"'' [p]))"

definition deploy_override_removes ::
  "'v world \<Rightarrow> deploy_request \<Rightarrow> RpmOstreeSysrootUpgrader \<Rightarrow> sack_package list option \<Rightarrow> treefile \<Rightarrow> bool \<Rightarrow>
   (RpmOstreeSysrootUpgrader \<times> treefile \<times> bool) program" where
  "deploy_override_removes w t u base_rsack origin changed =
     (case strv_modifier t ''override-remove-packages'' of
        None \<Rightarrow> return (u, origin, changed)
      | Some pkgs \<Rightarrow>
          bindP (load_refsack w u base_rsack) (\<lambda>sack.
          bindP (lift (removed_names w sack pkgs)) (\<lambda>names.
          bindP (lift (rpmostree_origin_add_override_remove origin names)) (\<lambda>origin.
            return (rpmostree_sysroot_upgrader_set_origin u origin, origin, True)))))"

section \<open>The transaction\<close>

definition rpmostree_sysroot_upgrader_set_allow_empty_transaction ::
  "RpmOstreeSysrootUpgrader \<Rightarrow> bool \<Rightarrow> RpmOstreeSysrootUpgrader" where
  "rpmostree_sysroot_upgrader_set_allow_empty_transaction u allow = u\<lparr>u_allow_empty_transaction := allow\<rparr>"

text \<open>Recording the agent that drives updates; with an empty revision this is all the call is for.\<close>

definition deploy_driver :: "'v world \<Rightarrow> deploy_request \<Rightarrow> deploy_plan \<Rightarrow> bool program" where
  "deploy_driver w t p =
     (case lookup_s (dr_options t) ''register-driver'' of
        None \<Rightarrow> return False
      | Some update_driver \<Rightarrow>
          bindP (record_driver_info w (Some update_driver) (dr_sd_unit t)) (\<lambda>_.
            if dp_revision p = Some []
            then bindP (tell (Message ''Empty string revision found; registering update driver only'' [])) (\<lambda>_. return True)
            else return False))"

definition deploy_pull ::
  "'v world \<Rightarrow> deploy_plan \<Rightarrow> RpmOstreeSysrootUpgrader \<Rightarrow> bool \<Rightarrow> (RpmOstreeSysrootUpgrader \<times> bool) program" where
  "deploy_pull w p u changed =
     (if has_flag (dp_flags p) DEPLOY_FLAG_NO_PULL_BASE then return (u, changed)
      else
        bindP (rpmostree_sysroot_upgrader_pull_base w u None (has_flag (dp_flags p) DEPLOY_FLAG_DOWNLOAD_METADATA_ONLY)) (\<lambda>(u, base_changed).
        bindP (tell (Call ''rpmostree_transaction_emit_progress_end'' [])) (\<lambda>_.
          if base_changed then return (u, True)
          else bindP (ask w (On_deployment ''has_live_apply_state'' (u_origin_merge_deployment u)) (w_bool w)) (\<lambda>is_live.
                 return (u, changed \<or> is_live)))))"

text \<open>Checking for updates without downloading them.\<close>

definition deploy_check_only :: "'v world \<Rightarrow> deploy_request \<Rightarrow> treefile \<Rightarrow> unit program" where
  "deploy_check_only w t origin =
     bindP get_sysroot (\<lambda>sysroot.
       let offline = throw (Throw (''Refusing to download rpm-md for offline OS '%s'' @ [CHR 0x27]) [dr_osname t])
       in case sr_booted sysroot of
            None \<Rightarrow> offline
          | Some booted \<Rightarrow>
              if dr_osname t \<noteq> d_osname booted then offline
              else
                bindP (whenP (rpmostree_origin_has_packages origin) (get_sack_for_booted w booted)) (\<lambda>_.
                  generate_update_variant w (Some booted) None (rpmostree_origin_has_packages origin)))"

definition is_upgrade_request :: "deploy_plan \<Rightarrow> bool" where
  "is_upgrade_request p \<longleftrightarrow>
     \<not> has_flag (dp_flags p) DEPLOY_FLAG_NO_PULL_BASE \<and> dp_refspec p = None \<and> dp_revision p = None"

abbreviation no_change_message :: "deploy_plan \<Rightarrow> io" where
  "no_change_message p \<equiv> Message (if is_upgrade_request p then ''No upgrade available.'' else ''No change.'') []"

text \<open>Writing the deployment, dropping the ref that is no longer followed, and what follows.\<close>

definition deploy_write ::
  "'v world \<Rightarrow> deploy_request \<Rightarrow> deploy_plan \<Rightarrow> RpmOstreeSysrootUpgrader \<Rightarrow> string option \<Rightarrow> string option \<Rightarrow> unit program" where
  "deploy_write w t p u refspec old_refspec =
     bindP (rpmostree_sysroot_upgrader_deploy w u) (\<lambda>(u, new_deployment).
     bindP (case old_refspec of
              Some old \<Rightarrow> whenP (refspec \<noteq> None \<and> \<not> option_set t ''skip-purge'') (purge_refspec w old)
            | None \<Rightarrow> return ()) (\<lambda>_.
     bindP (whenP (is_upgrade_request p)
       (bindP get_sysroot (\<lambda>sysroot. generate_update_variant w (sr_booted sysroot) new_deployment (u_rpmmd_sack u)))) (\<lambda>_.
       if option_set t ''apply-live'' then perform w (Call ''transaction_apply_live'' [])
       else reboot_if w (option_set t ''reboot''))))"

definition deploy_unchanged :: "'v world \<Rightarrow> deploy_plan \<Rightarrow> RefspecType \<Rightarrow> LayeringType \<Rightarrow> treefile \<Rightarrow> unit program" where
  "deploy_unchanged w p final_kind layering_type origin =
     (if final_kind = Checksum \<and> layering_type \<noteq> LAYERING_RPMMD_REPOS
      then let description = rpmostree_origin_get_custom_description origin
           in if description \<noteq> [] then tell (Message ''Pinned to commit by custom origin: %s'' [description])
              else tell (Message ''Pinned to commit; no upgrade available'' [])
      else tell (no_change_message p))"

text \<open>What happens once the origin is known: layering, and the points where a transaction stops early.\<close>

definition deploy_layer ::
  "'v world \<Rightarrow> deploy_request \<Rightarrow> deploy_plan \<Rightarrow> RpmOstreeSysrootUpgrader \<Rightarrow> string option \<Rightarrow> string option \<Rightarrow> bool \<Rightarrow> bool \<Rightarrow>
   RefspecType \<Rightarrow> treefile \<Rightarrow> unit program" where
  "deploy_layer w t p u refspec old_refspec skip_base_check origin_changed final_kind origin =
     bindP (rpmostree_sysroot_upgrader_prep_layering w u) (\<lambda>(u, layering_type, layering_changed).
       let changed = (origin_changed \<or> layering_changed)
       in if skip_base_check \<and> \<not> changed \<and> refspec = None \<and> dp_revision p = None then tell (no_change_message p)
          else if has_flag (dp_flags p) DEPLOY_FLAG_DRY_RUN then return ()
          else
            bindP (if layering_changed then rpmostree_sysroot_upgrader_import_pkgs w u else return u) (\<lambda>u.
              let u = rpmostree_sysroot_upgrader_set_caller_info u (lookup_s (dr_options t) ''initiating-command-line'')
                        (dr_agent_id t) (dr_sd_unit t)
              in if changed \<or> refspec \<noteq> None
                 then if has_flag (dp_flags p) DEPLOY_FLAG_DOWNLOAD_ONLY
                      then tell (Message (if changed then ''Update downloaded.'' else ''No changes.'') [])
                      else deploy_write w t p u refspec old_refspec
                 else deploy_unchanged w p final_kind layering_type origin))"

text \<open>From the origin of the merge deployment to the new origin.\<close>

definition deploy_compute_origin ::
  "nevra_variant world \<Rightarrow> deploy_request \<Rightarrow> deploy_plan \<Rightarrow> RpmOstreeSysrootUpgrader \<Rightarrow> string option \<Rightarrow>
   (RpmOstreeSysrootUpgrader \<times> treefile \<times> string option \<times> bool \<times> bool) program" where
  "deploy_compute_origin w t p u refspec =
     bindP (deploy_follow w t p refspec (rpmostree_sysroot_upgrader_dup_origin u)) (\<lambda>(origin, old_refspec).
     bindP (lift (deploy_removals (w_origin_env w) t origin)) (\<lambda>(origin, changed, remove_changed).
     bindP (skip_base_check_of w origin) (\<lambda>skip_base_check.
     bindP (deploy_installs w t p u skip_base_check origin changed) (\<lambda>(origin, changed, base_rsack).
     bindP (deploy_overrides w t p u origin changed) (\<lambda>(origin, changed, override_changed).
     bindP (deploy_treefile w t origin changed) (\<lambda>(origin, changed).
     bindP (deploy_pull w p (rpmostree_sysroot_upgrader_set_origin u origin) changed) (\<lambda>(u, changed).
     bindP (deploy_override_removes w t u base_rsack origin changed) (\<lambda>(u, origin, changed).
       return (u, origin, old_refspec, skip_base_check, changed \<or> remove_changed \<or> override_changed)))))))))"

definition deploy_prepare ::
  "nevra_variant world \<Rightarrow> deploy_request \<Rightarrow> deploy_plan \<Rightarrow>
   (string option \<times> RpmOstreeSysrootUpgrader \<times> treefile \<times> string option \<times> bool \<times> bool) program" where
  "deploy_prepare w t p =
     bindP (rpmostree_sysroot_upgrader_new w (Some (dr_osname t)) (deploy_upgrader_flags t p)) (\<lambda>u.
     bindP (pull_local_repo w p) (\<lambda>refspec.
     bindP (deploy_compute_origin w t p
         (rpmostree_sysroot_upgrader_set_allow_empty_transaction u (option_set t ''idempotent-layering'')) refspec) (\<lambda>r.
       return (refspec, r))))"

definition deploy_transaction_execute :: "nevra_variant world \<Rightarrow> deploy_request \<Rightarrow> unit program" where
  "deploy_transaction_execute w t =
     bindP (lift (deploy_parse t)) (\<lambda>p.
     bindP (tell (Call ''rpmostree_transaction_set_title'' [deploy_title t p])) (\<lambda>_.
     bindP (deploy_driver w t p) (\<lambda>registered_only.
       if registered_only then return ()
       else
         let metadata_only = has_flag (dp_flags p) DEPLOY_FLAG_DOWNLOAD_METADATA_ONLY
         in bindP (assertP ''g_assert (!(no_pull_base || cache_only || download_only))''
                (metadata_only \<longrightarrow> \<not> has_flag (dp_flags p) DEPLOY_FLAG_NO_PULL_BASE \<and> \<not> option_set t ''cache-only'' \<and>
                   \<not> has_flag (dp_flags p) DEPLOY_FLAG_DOWNLOAD_ONLY)) (\<lambda>_.
            bindP (assertP ''g_assert (override_pkgs == NULL)''
                (option_set t ''no-overrides'' \<longrightarrow> strv_modifier t ''override-replace-packages'' = None \<and>
                   dp_override_replace_local p = None \<and> strv_modifier t ''override-remove-packages'' = None \<and>
                   strv_modifier t ''override-reset-packages'' = None)) (\<lambda>_.
            bindP (perform_refs w (Call ''rpmostree_migrate_pkgcache_repo'' [])) (\<lambda>_.
            bindP (deploy_prepare w t p) (\<lambda>(refspec, u, origin, old_refspec, skip_base_check, changed).
            bindP (lift (rpmostree_origin_get_refspec (w_origin_env w) origin)) (\<lambda>(final_kind, _).
              if metadata_only then deploy_check_only w t origin
              else deploy_layer w t p u refspec old_refspec skip_base_check changed final_kind origin))))))))"

end
