(* ===== verification/Txn_Execute.thy ===== *)
theory Txn_Execute
  imports Deploy_Txn
begin

text \<open>
  The other kinds of transactions of \<^verbatim>\<open>src/src/daemon/rpmostreed-transaction-types.cxx\<close> and
  \<^verbatim>\<open>src/src/daemon/rpmostreed-transaction-applylive.cxx\<close>: what the worker thread runs for each of them, and the choice of it
  by the kind of the transaction object.
\<close>

section \<open>Package difference\<close>

definition package_diff_transaction_execute :: "'v world \<Rightarrow> string \<Rightarrow> string option \<Rightarrow> string option \<Rightarrow> unit program" where
  "package_diff_transaction_execute w osname refspec revision =
     (let upgrader_flags = (if revision \<noteq> None \<or> refspec \<noteq> None then RPMOSTREE_SYSROOT_UPGRADER_FLAGS_ALLOW_OLDER else 0);
          upgrading = (refspec = None \<and> revision = None)
      in bindP (rpmostree_sysroot_upgrader_new w (Some osname) upgrader_flags) (\<lambda>upgrader.
         bindP (perform w (Call ''ostree_sysroot_get_repo'' [])) (\<lambda>_.
         bindP (case refspec of
                  None \<Rightarrow> return (rpmostree_sysroot_upgrader_dup_origin upgrader)
                | Some r \<Rightarrow> bindP (change_origin_refspec w Map.empty (rpmostree_sysroot_upgrader_dup_origin upgrader) r)
                    (\<lambda>(origin, _). return origin)) (\<lambda>origin.
         bindP (case revision of
                  Some rev1 \<Rightarrow>
                    bindP (apply_revision_override w origin False (Some rev1)) (\<lambda>origin.
                    bindP (tell (Call ''rpmostree_transaction_emit_progress_end'' [])) (\<lambda>_. return origin))
                | None \<Rightarrow> return (if upgrading then rpmostree_origin_set_override_commit origin None else origin)) (\<lambda>origin.
           let upgrader = rpmostree_sysroot_upgrader_set_origin upgrader origin
           in bindP (case refspec of Some r \<Rightarrow> tell (Message ''Updating from: %s'' [r]) | None \<Rightarrow> return ()) (\<lambda>_.
              bindP (rpmostree_sysroot_upgrader_pull_base w upgrader (Some ''/usr/share/rpm'') False) (\<lambda>(upgrader, changed).
              bindP (tell (Call ''rpmostree_transaction_emit_progress_end'' [])) (\<lambda>_.
              bindP (whenP (\<not> changed) (tell (Message (if upgrading then ''No upgrade available.'' else ''No change.'') []))) (\<lambda>_.
                whenP upgrading (bindP get_sysroot (\<lambda>sysroot. generate_update_variant w (sr_booted sysroot) None False)))))))))))"

section \<open>Rollback\<close>

text \<open>The deployment to put first.\<close>

definition rollback_target :: "'v world \<Rightarrow> OstreeSysroot \<Rightarrow> string \<Rightarrow> OstreeDeployment result" where
  "rollback_target w sr osname =
     (case w_query_deployments w sr osname of (pending_deployment, rollback_deployment) \<Rightarrow>
        if rollback_deployment = None \<and> pending_deployment = None then Inl (Throw ''No rollback deployment found'' [])
        else if (case pending_deployment of Some p \<Rightarrow> d_staged p | None \<Rightarrow> False)
        then Inl (Throw ''Staged deployment (remove with cleanup -p)'' [])
        else case rollback_deployment of
               Some d \<Rightarrow> Inr d
             | None \<Rightarrow> (case sr_booted sr of Some d \<Rightarrow> Inr d | None \<Rightarrow> Inl (Abort ''g_object_ref (NULL)'')))"

definition reordered :: "OstreeDeployment \<Rightarrow> OstreeDeployment list \<Rightarrow> OstreeDeployment list" where
  "reordered d old_deployments = d # filter (\<lambda>x. \<not> ostree_deployment_equal x d) old_deployments"

text \<open>The deployments are objects; a deployment of the sysroot is identified by its OS, checksum and serial.\<close>

definition rollback_transaction_execute :: "'v world \<Rightarrow> string \<Rightarrow> bool \<Rightarrow> unit program" where
  "rollback_transaction_execute w osname reboot =
     bindP get_sysroot (\<lambda>sysroot.
     bindP (lift (rollback_target w sysroot osname)) (\<lambda>d.
       let old_deployments = sr_deployments sysroot; new_deployments = reordered d old_deployments
       in bindP (tell (Message (''Moving '%s.%d' to be first deployment'') [d_csum d, show_nat (d_deployserial d)])) (\<lambda>_.
          bindP (whenP (\<not> (old_deployments \<noteq> [] \<and> ostree_deployment_equal (hd old_deployments) d))
            (ask_sysroot w (Write_deployments new_deployments True) (\<lambda>_. ()))) (\<lambda>_.
            reboot_if w reboot))))"

section \<open>Initramfs\<close>

text \<open>An upgrader for a change of the boot configuration, with what is recorded about the caller.\<close>

record caller =
  cl_osname :: string
  cl_agent_id :: "string option"
  cl_sd_unit :: "string option"
  cl_options :: vardict

abbreviation caller_option :: "caller \<Rightarrow> string \<Rightarrow> bool" where
  "caller_option c key \<equiv> vardict_lookup_bool (cl_options c) key False"

abbreviation lock_flag :: "caller \<Rightarrow> u32" where
  "lock_flag c \<equiv> (if caller_option c ''lock-finalization'' then RPMOSTREE_SYSROOT_UPGRADER_FLAGS_LOCK_FINALIZATION else 0)"

definition set_caller :: "caller \<Rightarrow> RpmOstreeSysrootUpgrader \<Rightarrow> RpmOstreeSysrootUpgrader" where
  "set_caller c u =
     rpmostree_sysroot_upgrader_set_caller_info u (lookup_s (cl_options c) ''initiating-command-line'') (cl_agent_id c) (cl_sd_unit c)"

fun check_etc_paths :: "string list \<Rightarrow> unit result" where
  "check_etc_paths [] = Inr ()"
| "check_etc_paths (file # files) =
     (if \<not> has_prefix file ''/etc/'' then Inl (Throw ''Path outside /etc forbidden: %s'' [file]) else check_etc_paths files)"

definition initramfs_etc_transaction_execute ::
  "'v world \<Rightarrow> caller \<Rightarrow> string list option \<Rightarrow> string list option \<Rightarrow> bool \<Rightarrow> bool \<Rightarrow> unit program" where
  "initramfs_etc_transaction_execute w c track untrack untrack_all force_sync =
     bindP (rpmostree_sysroot_upgrader_new w (Some (cl_osname c)) (lock_flag c)) (\<lambda>upgrader.
       let upgrader = set_caller c upgrader;
           origin = rpmostree_sysroot_upgrader_dup_origin upgrader;
           (origin, changed) =
             (if untrack_all then rpmostree_origin_initramfs_etc_files_untrack_all origin
              else case untrack of
                     Some files \<Rightarrow> rpmostree_origin_initramfs_etc_files_untrack origin files
                   | None \<Rightarrow> (origin, False));
           (origin, changed) =
             (case track of
                Some files \<Rightarrow> let (origin, c) = rpmostree_origin_initramfs_etc_files_track origin files in (origin, c \<or> changed)
              | None \<Rightarrow> (origin, changed))
       in if \<not> changed \<and> \<not> force_sync then tell (Message ''No changes.'' [])
          else
            bindP (lift (check_etc_paths (rpmostree_origin_get_initramfs_etc_files origin))) (\<lambda>_.
            bindP (rpmostree_sysroot_upgrader_deploy w (rpmostree_sysroot_upgrader_set_origin upgrader origin)) (\<lambda>_.
              reboot_if w (caller_option c ''reboot''))))"

definition initramfs_state_transaction_execute :: "'v world \<Rightarrow> caller \<Rightarrow> bool \<Rightarrow> string list option \<Rightarrow> unit program" where
  "initramfs_state_transaction_execute w c regenerate_it new_args =
     bindP (rpmostree_sysroot_upgrader_new w (Some (cl_osname c)) (lock_flag c)) (\<lambda>upgrader.
       let origin = rpmostree_sysroot_upgrader_dup_origin upgrader;
           current_regenerate = rpmostree_origin_get_regenerate_initramfs origin
       in if current_regenerate = regenerate_it \<and> rpmostree_origin_get_initramfs_args origin = [] \<and> unwrap new_args = []
          then throw (Throw ''initramfs regeneration state is already %s'' [if current_regenerate then ''enabled'' else ''disabled''])
          else
            let origin = rpmostree_origin_set_regenerate_initramfs origin regenerate_it (unwrap new_args);
                upgrader = set_caller c (rpmostree_sysroot_upgrader_set_origin upgrader origin)
            in bindP (rpmostree_sysroot_upgrader_deploy w upgrader) (\<lambda>_. reboot_if w (caller_option c ''reboot'')))"

section \<open>Cleanup\<close>

text \<open>The names in the directory come from the file system; a missing directory (\<open>w_bool\<close>) is no error.\<close>

definition remove_directory_content_if_exists :: "'v world \<Rightarrow> string \<Rightarrow> unit program" where
  "remove_directory_content_if_exists w path =
     bindP (prefixP (''opendir('' @ path @ '')'') (ask w (Call ''glnx_opendirat_with_errno'' [path]) (w_bool w))) (\<lambda>found.
       if \<not> found then return ()
       else
         bindP (ask w (Call ''glnx_dirfd_iterator_init_take_fd'' [path]) (w_strs w)) (\<lambda>names.
           bindP (foldP (\<lambda>_ name. bindP (perform w (Call ''glnx_dirfd_iterator_next_dent'' [])) (\<lambda>_.
             perform w (Call ''glnx_shutil_rm_rf_at'' [path, name]))) () names) (\<lambda>_.
             perform w (Call ''glnx_dirfd_iterator_next_dent'' []))))"

definition cleanup_transaction_execute :: "'v world \<Rightarrow> string \<Rightarrow> u32 \<Rightarrow> unit program" where
  "cleanup_transaction_execute w osname flags =
     (let cleanup_pending = has_flag flags CLEANUP_PENDING_DEPLOY; cleanup_rollback = has_flag flags CLEANUP_ROLLBACK_DEPLOY
      in bindP (perform w (Call ''ostree_sysroot_get_repo'' [])) (\<lambda>_.
         bindP get_sysroot (\<lambda>sysroot.
         bindP (if cleanup_pending \<or> cleanup_rollback
                then (case rpmostree_syscore_filter_deployments sysroot osname cleanup_pending cleanup_rollback of
                        Some new_deployments \<Rightarrow>
                          bindP (ask_sysroot w (Write_deployments new_deployments False) (\<lambda>_. ())) (\<lambda>_. return (flags OR CLEANUP_BASE))
                      | None \<Rightarrow> bindP (tell (Message ''Deployments unchanged.'' [])) (\<lambda>_. return flags))
                else return flags) (\<lambda>flags.
         bindP (whenP (has_flag flags CLEANUP_BASE) (syscore_cleanup w)) (\<lambda>_.
           whenP (has_flag flags CLEANUP_REPOMD) (remove_directory_content_if_exists w ''RPMOSTREE_CORE_CACHEDIR''))))))"

section \<open>Metadata and repositories\<close>

text \<open>
  \<open>rpmostree_get_deployment_root\<close> hands the deployment to libostree, which follows the pointer: a missing merge deployment
  stops the process. \<open>tolower\<close> is that of the C locale.
\<close>

definition rpmostree_get_deployment_root :: "OstreeDeployment option \<Rightarrow> OstreeDeployment program" where
  "rpmostree_get_deployment_root deployment =
     (case deployment of Some d \<Rightarrow> return d | None \<Rightarrow> throw (Abort ''ostree_sysroot_get_deployment_dirpath (NULL)''))"

definition rpmostree_context_configure_from_deployment :: "OstreeDeployment option \<Rightarrow> unit program" where
  "rpmostree_context_configure_from_deployment cfg_deployment =
     bindP (rpmostree_get_deployment_root cfg_deployment) (\<lambda>cfg_deployment_root.
       tell (On_deployment ''rpmostree_context_set_repos_dir'' cfg_deployment_root))"

definition tolower :: "char \<Rightarrow> char" where
  "tolower c = (if 65 \<le> (of_char c :: nat) \<and> (of_char c :: nat) \<le> 90 then char_of ((of_char c :: nat) + 32) else c)"

definition refresh_md_transaction_execute :: "'v world \<Rightarrow> string option \<Rightarrow> string \<Rightarrow> u32 \<Rightarrow> unit program" where
  "refresh_md_transaction_execute w download_filelists osname flags =
     bindP get_sysroot (\<lambda>sysroot.
     bindP (rpmostree_get_deployment_root (rpmostree_syscore_get_origin_merge_deployment (sr_deployments sysroot) osname)) (\<lambda>origin_deployment_root.
     bindP (perform w (On_deployment ''rpmostree_context_setup'' origin_deployment_root)) (\<lambda>_.
     bindP (whenP (has_flag flags REFRESH_MD_FLAG_FORCE)
       (tell (Call ''rpmostree_context_set_dnf_caching'' [''RPMOSTREE_CONTEXT_DNF_CACHE_NEVER'']))) (\<lambda>_.
     bindP (rpmostree_context_configure_from_deployment (w_merge_deployment w sysroot osname)) (\<lambda>_.
     bindP (tell (Call ''rpmostree_context_get_filelists_exist'' [])) (\<lambda>_.
     bindP (look (w_bool w)) (\<lambda>filelists_exist.
       let download_filelists = (case download_filelists of Some v \<Rightarrow> map tolower v | None \<Rightarrow> ''false'');
           flags = (if filelists_exist \<or> download_filelists = ''true'' then [''DNF_CONTEXT_SETUP_SACK_FLAG_SKIP_RPMDB'']
                    else [''DNF_CONTEXT_SETUP_SACK_FLAG_SKIP_RPMDB'', ''DNF_CONTEXT_SETUP_SACK_FLAG_SKIP_FILELISTS''])
       in perform w (Call ''rpmostree_context_download_metadata'' flags))))))))"

text \<open>The repositories of the context by their ids.\<close>

definition get_dnf_repo_by_id :: "string list \<Rightarrow> string \<Rightarrow> string option" where
  "get_dnf_repo_by_id repos repo_id = find (\<lambda>repo. repo = repo_id) repos"

text \<open>Only the key \<open>enabled\<close> can be changed, to 0 or 1. The settings are applied one by one and then committed.\<close>

fun set_repo_data :: "'v world \<Rightarrow> string \<Rightarrow> (string \<times> string) list \<Rightarrow> unit program" where
  "set_repo_data w repo [] = return ()"
| "set_repo_data w repo ((parameter, val) # settings) =
     (if parameter \<noteq> ''enabled'' then throw (Throw (''Changing '%s' not allowed in yum .repo files'') [parameter])
      else if val \<noteq> ''0'' \<and> val \<noteq> ''1'' then throw (Throw (''Only '0' and '1' are allowed for the '%s' key'') [parameter])
      else bindP (perform w (Call ''dnf_repo_set_data'' [repo, parameter, val])) (\<lambda>_. set_repo_data w repo settings))"

definition modify_yum_repo_transaction_execute :: "'v world \<Rightarrow> string \<Rightarrow> string \<Rightarrow> (string \<times> string) list \<Rightarrow> unit program" where
  "modify_yum_repo_transaction_execute w osname repo_id settings =
     bindP get_sysroot (\<lambda>sysroot.
     bindP (perform w (Call ''rpmostree_context_setup'' [])) (\<lambda>_.
     bindP (rpmostree_context_configure_from_deployment (w_merge_deployment w sysroot osname)) (\<lambda>_.
     bindP (tell (Call ''dnf_context_get_repos'' [])) (\<lambda>_.
     bindP (look (w_strs w)) (\<lambda>repos.
       case get_dnf_repo_by_id repos repo_id of
         None \<Rightarrow> throw (Throw (''Yum repo '%s' not found'') [repo_id])
       | Some repo \<Rightarrow>
           bindP (set_repo_data w repo settings) (\<lambda>_. perform w (Call ''dnf_repo_commit'' [repo])))))))"

section \<open>Finalizing a staged deployment\<close>

text \<open>A call whose failure is ignored.\<close>

definition ignoring :: "unit program \<Rightarrow> unit program" where
  "ignoring m s = (Inr (), snd (m s))"

definition rpmostree_syscore_bump_mtime :: "'v world \<Rightarrow> unit program" where
  "rpmostree_syscore_bump_mtime w = prefixP ''futimens'' (perform w (Call ''utimensat'' [''ostree/deploy'']))"

text \<open>For a container image the digest of the image takes the place of the checksum.\<close>

definition query_container_image_commit :: "'v world \<Rightarrow> string \<Rightarrow> string program" where
  "query_container_image_commit w checksum s =
     (case ask w (Call ''query_container_image_commit'' [checksum]) (w_str w) s of
        (Inr image_digest, s) \<Rightarrow> (Inr image_digest, s)
      | (Inl e, s) \<Rightarrow> (Inr checksum, s))"

definition staged_default :: "OstreeSysroot \<Rightarrow> string \<Rightarrow> OstreeDeployment result" where
  "staged_default sr osname =
     (case sr_deployments sr of
        [] \<Rightarrow> Inl (Throw ''No deployments found'' [])
      | default_deployment # _ \<Rightarrow>
          if \<not> d_staged default_deployment then Inl (Throw ''No pending staged deployment found'' [])
          else if d_osname default_deployment \<noteq> osname
          then Inl (Throw (''Staged deployment is not for osname '%s'' @ [CHR 0x27]) [osname])
          else Inr default_deployment)"

definition check_expected_checksum :: "vardict \<Rightarrow> string \<Rightarrow> unit result" where
  "check_expected_checksum options checksum =
     (case lookup_s options ''checksum'' of
        None \<Rightarrow> if vardict_lookup_bool options ''allow-missing-checksum'' False then Inr ()
                else Inl (Throw ''Missing expected checksum'' [])
      | Some expected_checksum \<Rightarrow>
          if checksum = expected_checksum then Inr ()
          else Inl (Throw ''Expected staged base checksum %s, but found %s'' [expected_checksum, checksum]))"

definition finalize_deployment_transaction_execute :: "'v world \<Rightarrow> string \<Rightarrow> vardict \<Rightarrow> unit program" where
  "finalize_deployment_transaction_execute w osname options =
     bindP get_sysroot (\<lambda>sysroot.
     bindP (lift (staged_default sysroot osname)) (\<lambda>default_deployment.
     bindP (ask w (On_deployment ''deployment_layeredmeta_load'' default_deployment) (w_layered w)) (\<lambda>(layeredmeta, _).
     bindP (query_container_image_commit w (base_commit layeredmeta)) (\<lambda>checksum.
     bindP (lift (check_expected_checksum options checksum)) (\<lambda>_.
     bindP (check_sd_inhibitor_locks w) (\<lambda>_.
     bindP (tell (On_deployment ''ostree_deployment_is_finalization_locked'' default_deployment)) (\<lambda>_.
     bindP (look (w_bool w)) (\<lambda>locked.
     bindP (if \<not> locked
            then (if vardict_lookup_bool options ''allow-unlocked'' False then return ()
                  else throw (Throw ''Staged deployment already unlocked'' []))
            else prefixP ''Failed to unlock finalization of staged deployment''
                   (perform w (On_deployment ''ostree_sysroot_change_finalization'' default_deployment))) (\<lambda>_.
     bindP (ignoring (rpmostree_syscore_bump_mtime w)) (\<lambda>_.
     bindP (tell (Call ''sd_journal_print'' [''Finalized deployment; rebooting into %s'', checksum])) (\<lambda>_.
       tell Reboot)))))))))))"

section \<open>Kernel arguments\<close>

text \<open>
  The functions of libostree on kernel arguments. \<open>ostree_kernel_args_delete\<close> fails when there is no such argument or when
  it is ambiguous, \<open>ostree_kernel_args_new_replace\<close> likewise.
\<close>

record 'k OstreeKernelArgs =
  from_string :: "string \<Rightarrow> 'k"
  to_strv :: "'k \<Rightarrow> string list"
  kargs_delete :: "'k \<Rightarrow> string \<Rightarrow> 'k result"
  kargs_new_replace :: "'k \<Rightarrow> string \<Rightarrow> 'k result"
  kargs_append :: "'k \<Rightarrow> string \<Rightarrow> 'k"
  kargs_append_argv :: "'k \<Rightarrow> string list \<Rightarrow> 'k"

record kernel_arg_request =
  ka_existing :: string
  ka_added :: "string list option"
  ka_replaced :: "string list option"
  ka_deleted :: "string list option"

definition kernel_arg_apply ::
  "'v world \<Rightarrow> 'k OstreeKernelArgs \<Rightarrow> caller \<Rightarrow> RpmOstreeSysrootUpgrader \<Rightarrow> 'k \<Rightarrow> bool \<Rightarrow> unit program" where
  "kernel_arg_apply w ops c upgrader kargs changed =
     (if \<not> changed then tell (Message ''No changes.'' [])
      else
        bindP (rpmostree_sysroot_upgrader_deploy w (rpmostree_sysroot_upgrader_set_kargs upgrader (to_strv ops kargs))) (\<lambda>_.
          reboot_if w (caller_option c ''reboot'')))"

definition kernel_arg_apply_final_str ::
  "'v world \<Rightarrow> 'k OstreeKernelArgs \<Rightarrow> caller \<Rightarrow> kernel_arg_request \<Rightarrow> RpmOstreeSysrootUpgrader \<Rightarrow> string \<Rightarrow> unit program" where
  "kernel_arg_apply_final_str w ops c self upgrader final_kernel_args =
     kernel_arg_apply w ops c upgrader (from_string ops final_kernel_args) (ka_existing self \<noteq> final_kernel_args)"

text \<open>The loops over the arguments to delete, to replace, to append if missing and to delete if present.\<close>

fun edit_each :: "('k \<Rightarrow> string \<Rightarrow> 'k result) \<Rightarrow> string list \<Rightarrow> 'k \<times> bool \<Rightarrow> ('k \<times> bool) result" where
  "edit_each f [] st = Inr st"
| "edit_each f (arg # rest) (kargs, changed) = bindR (f kargs arg) (\<lambda>kargs. edit_each f rest (kargs, True))"

fun append_missing :: "'k OstreeKernelArgs \<Rightarrow> string list \<Rightarrow> 'k \<times> bool \<Rightarrow> 'k \<times> bool" where
  "append_missing ops [] st = st"
| "append_missing ops (arg # rest) (kargs, changed) =
     append_missing ops rest (if arg \<notin> set (to_strv ops kargs) then (kargs_append ops kargs arg, True) else (kargs, changed))"

definition patch_kargs ::
  "'k OstreeKernelArgs \<Rightarrow> kernel_arg_request \<Rightarrow> string list option \<Rightarrow> string list option \<Rightarrow> 'k \<Rightarrow> ('k \<times> bool) result" where
  "patch_kargs ops self append_if_missing delete_if_present kargs =
     (let existing_kargs_strv = to_strv ops (from_string ops (ka_existing self))
      in bindR (edit_each (kargs_delete ops) (unwrap (ka_deleted self)) (kargs, False)) (\<lambda>st.
         bindR (edit_each (kargs_new_replace ops) (unwrap (ka_replaced self)) st) (\<lambda>(kargs, changed).
           let st = (case ka_added self of
                       Some added \<Rightarrow> (kargs_append_argv ops kargs added, True) | None \<Rightarrow> (kargs, changed));
               st = append_missing ops (unwrap append_if_missing) st
           in edit_each (kargs_delete ops) (filter (\<lambda>arg. arg \<in> set existing_kargs_strv) (unwrap delete_if_present)) st)))"

definition kernel_arg_apply_patching ::
  "'v world \<Rightarrow> 'k OstreeKernelArgs \<Rightarrow> caller \<Rightarrow> kernel_arg_request \<Rightarrow> RpmOstreeSysrootUpgrader \<Rightarrow> 'k \<Rightarrow> unit program" where
  "kernel_arg_apply_patching w ops c self upgrader kargs =
     bindP (lift (patch_kargs ops self (vardict_lookup_strv_canonical (cl_options c) ''append-if-missing'')
         (vardict_lookup_strv_canonical (cl_options c) ''delete-if-present'') kargs)) (\<lambda>(kargs, changed).
       kernel_arg_apply w ops c upgrader kargs changed)"

definition kernel_arg_transaction_execute ::
  "'v world \<Rightarrow> 'k OstreeKernelArgs \<Rightarrow> caller \<Rightarrow> kernel_arg_request \<Rightarrow> unit program" where
  "kernel_arg_transaction_execute w ops c self =
     (let kargs = from_string ops (ka_existing self)
      in bindP (rpmostree_sysroot_upgrader_new w (Some (cl_osname c))
           (RPMOSTREE_SYSROOT_UPGRADER_FLAGS_SYNTHETIC_PULL OR RPMOSTREE_SYSROOT_UPGRADER_FLAGS_PKGCACHE_ONLY OR lock_flag c)) (\<lambda>upgrader.
           let upgrader = set_caller c upgrader
           in case lookup_s (cl_options c) ''final-kernel-args'' of
                Some final_kernel_args \<Rightarrow> kernel_arg_apply_final_str w ops c self upgrader final_kernel_args
              | None \<Rightarrow> kernel_arg_apply_patching w ops c self upgrader kargs))"

section \<open>Applying a deployment live\<close>

definition livefs_transaction_execute :: "'v world \<Rightarrow> unit program" where
  "livefs_transaction_execute w s =
     (case perform w (Call ''transaction_apply_live'' []) s of
        (Inl e, s) \<Rightarrow> (Inl e, snd (rpmostree_syscore_bump_mtime w s))
      | (Inr _, s) \<Rightarrow> rpmostree_syscore_bump_mtime w s)"

section \<open>The execute method of a transaction object\<close>

definition class_execute :: "nevra_variant world \<Rightarrow> 'k OstreeKernelArgs \<Rightarrow> string option \<Rightarrow>
    string \<Rightarrow> string option \<Rightarrow> string option \<Rightarrow> txn_kind \<Rightarrow> unit program" where
  "class_execute w ops download_filelists osname agent_id sd_unit kind =
     (let caller = (\<lambda>options. \<lparr>cl_osname = osname, cl_agent_id = agent_id, cl_sd_unit = sd_unit, cl_options = options\<rparr>)
      in case kind of
           PackageDiff refspec revision \<Rightarrow> package_diff_transaction_execute w osname refspec revision
         | Rollback reboot \<Rightarrow> rollback_transaction_execute w osname reboot
         | Deploy flags options modifiers fds \<Rightarrow> deploy_transaction_execute w
             \<lparr>dr_osname = osname, dr_flags = flags, dr_options = options, dr_modifiers = modifiers, dr_fds = fds,
              dr_agent_id = agent_id, dr_sd_unit = sd_unit\<rparr>
         | InitramfsEtc track untrack untrack_all force_sync options \<Rightarrow>
             initramfs_etc_transaction_execute w (caller options) track untrack untrack_all force_sync
         | InitramfsState regenerate_it new_args options \<Rightarrow> initramfs_state_transaction_execute w (caller options) regenerate_it new_args
         | Cleanup flags \<Rightarrow> cleanup_transaction_execute w osname flags
         | RefreshMd flags \<Rightarrow> refresh_md_transaction_execute w download_filelists osname flags
         | ModifyYumRepo repo_id settings \<Rightarrow> modify_yum_repo_transaction_execute w osname repo_id settings
         | FinalizeDeployment options \<Rightarrow> finalize_deployment_transaction_execute w osname options
         | KernelArg existing added replaced deleted options \<Rightarrow> kernel_arg_transaction_execute w ops (caller options)
             \<lparr>ka_existing = existing, ka_added = added, ka_replaced = replaced, ka_deleted = deleted\<rparr>
         | ApplyLive options \<Rightarrow> livefs_transaction_execute w)"

end
