(* ===== verification/Deploy_Props.thy ===== *)
theory Deploy_Props
  imports Deploy_Txn Authorize
begin

text \<open>
  What a deploy transaction does: which of them write nothing, what the others write, and which requests stop the
  daemon or pass the authorization of a call that did not name them.
\<close>

section \<open>Calls of the steps\<close>

lemma visit_batch_quiet: "harmless P \<Longrightarrow> quiet.keeps P (visit_batch w visitor n checksum closure)"
proof (induction w visitor n checksum closure rule: visit_batch.induct)
  case (1 w visitor n checksum closure)
  then show ?case
    unfolding visit_batch.simps load_commit_def Let_def
    by (intro quiet_rules) (auto simp: harmless_events split: prod.splits)
qed (auto intro!: quiet_rules)

lemma pull_passes_quiet: "harmless P \<Longrightarrow> quiet.keeps P (pull_passes w remote refspec visitor pass ref checksum closure)"
proof (induction w remote refspec visitor pass ref checksum closure rule: pull_passes.induct)
  case (1 w remote refspec visitor pass ref checksum closure)
  note e = harmless_events [OF 1(2)]
  show ?case
    apply (subst pull_passes.simps)
    unfolding resolve_rev_def
    by (intro quiet_rules visit_batch_quiet 1(2) 1(1)) (auto simp: e)
qed

lemma upgrader_new_quiet:
  assumes P: "harmless P"
  shows "quiet.keeps P (rpmostree_sysroot_upgrader_new w osname flags)"
  unfolding rpmostree_sysroot_upgrader_new_def parse_origin_deployment_def Let_def
  by (intro quiet_rules quiet_lift) (simp_all add: harmless_events [OF P])

lemma follow_quiet:
  assumes P: "harmless P"
  shows "quiet.keeps P (pull_local_repo w p)" "quiet.keeps P (deploy_follow w t p refspec origin)"
proof -
  note e = harmless_events [OF P]
  show "quiet.keeps P (pull_local_repo w p)"
    unfolding pull_local_repo_def by (intro quiet_rules quiet_lift) (simp_all add: e)
  have change: "quiet.keeps P (change_origin_refspec w options origin r)" for options origin r
    unfolding change_origin_refspec_def Let_def
    by (intro quiet_rules quiet_lift) (auto simp: e split: RefspecType.split prod.split intro!: quiet_rules)
  have look: "quiet.keeps P (rpmostreed_repo_pull_ancestry w refspec visitor closure)" for refspec and visitor :: "'c visitor" and closure
    unfolding rpmostreed_repo_pull_ancestry_def by (intro quiet_rules pull_passes_quiet P) simp
  have override: "quiet.keeps P (apply_revision_override w origin skip rev1)" for origin skip rev1
    unfolding apply_revision_override_def rpmostreed_repo_lookup_version_def rpmostreed_repo_lookup_checksum_def
    by (intro quiet_rules quiet_lift look) (auto simp: e split: RefspecType.split ParsedRevisionKind.split intro!: quiet_rules look)
  show "quiet.keeps P (deploy_follow w t p refspec origin)"
    unfolding deploy_follow_def by (intro quiet_rules change override) (simp_all add: e)
qed

lemma commit_on_failure_quiet:
  assumes P: "harmless P" and m: "quiet.does P m Q"
  shows "quiet.does P (commit_on_failure w m) Q"
proof (rule quiet.doesI)
  fix s r s'
  assume run: "commit_on_failure w m s = (r, s')"
  obtain r1 s1 where m1: "m s = (r1, s1)" by fastforce
  note step = quiet.doesD [OF m m1]
  show "extends P s s' \<and> (False \<longrightarrow> safe r) \<and> (\<forall>a. r = Inr a \<longrightarrow> Q a)"
  proof (cases r1)
    case (Inl e)
    then have "s' = snd (perform_refs w (Call ''ostree_repo_commit_transaction'' []) s1)" and r: "r = Inl e"
      using run m1 by (auto simp: commit_on_failure_def)
    moreover have "quiet.keeps P (perform_refs w (Call ''ostree_repo_commit_transaction'' []))"
      by (intro quiet_rules) (simp_all add: harmless_events [OF P])
    ultimately have "extends P s1 s'" using quiet.doesD(1) by (metis prod.collapse)
    with step(1) r show ?thesis using quiet.trans by blast
  next
    case (Inr a)
    then show ?thesis using run m1 step by (simp add: commit_on_failure_def)
  qed
qed

lemma import_quiet:
  assumes P: "harmless P"
  shows "quiet.keeps P (import_many_local_rpms w fds)" "quiet.keeps P (import_and_add w fds' add origin changed)"
proof -
  note e = harmless_events [OF P]
  show many: "quiet.keeps P (import_many_local_rpms w fds)" for fds
    unfolding import_many_local_rpms_def import_local_rpm_def
    by (intro quiet_rules quiet.does_fold commit_on_failure_quiet P) (simp_all add: e)
  show "quiet.keeps P (import_and_add w fds' add origin changed)"
    unfolding import_and_add_def by (intro quiet_rules quiet_lift many) simp_all
qed

lemma pull_base_quiet:
  assumes P: "harmless P"
  shows "quiet.keeps P (rpmostree_sysroot_upgrader_pull_base w u dir check)"
proof -
  note e = harmless_events [OF P]
  have remote: "quiet.keeps P (pull_from_remote w u remote ref dir only opt)" for remote ref only opt
    unfolding pull_from_remote_def Let_def by (intro quiet_rules) (simp_all add: e)
  have "quiet.keeps P (new_base_revision w u dir check)"
    unfolding new_base_revision_def resolve_rev_def Let_def
    by (intro quiet_rules quiet_lift) (auto simp: e split: RefspecType.split intro!: quiet_rules remote)
  then show ?thesis
    unfolding rpmostree_sysroot_upgrader_pull_base_def by (intro quiet_rules) (simp_all add: e)
qed

lemma compute_origin_quiet:
  assumes P: "harmless P"
  shows "quiet.keeps P (deploy_compute_origin w t p u refspec)"
proof -
  note e = harmless_events [OF P]
  have sack: "quiet.keeps P (load_refsack w u rsack)" for u rsack
    unfolding load_refsack_def by (intro quiet_rules) (simp_all add: e)
  have skip: "quiet.keeps P (skip_base_check_of w origin)" for origin
    unfolding skip_base_check_of_def by (intro quiet_rules quiet_lift) (simp_all add: e)
  have installs: "quiet.keeps P (deploy_installs w t p u skip origin changed)" for u skip origin changed
    unfolding deploy_installs_def Let_def by (intro quiet_rules quiet_lift sack import_quiet P) simp_all
  have overrides: "quiet.keeps P (deploy_overrides w t p u origin changed)" for u origin changed
    unfolding deploy_overrides_def override_tables_def replace_local_def Let_def
    by (intro quiet_rules quiet_lift import_quiet P) (simp_all add: e)
  have treefile: "quiet.keeps P (deploy_treefile w t origin changed)" for origin changed
    unfolding deploy_treefile_def by (intro quiet_rules) (simp_all add: e)
  have pull: "quiet.keeps P (deploy_pull w p u changed)" for u changed
    unfolding deploy_pull_def by (intro quiet_rules pull_base_quiet P) (simp_all add: e)
  have removes: "quiet.keeps P (deploy_override_removes w t u rsack origin changed)" for u rsack origin changed
    unfolding deploy_override_removes_def by (intro quiet_rules quiet_lift sack) simp_all
  show ?thesis
    unfolding deploy_compute_origin_def
    by (intro quiet_rules quiet_lift follow_quiet P skip installs overrides treefile pull removes) simp_all
qed

lemma update_variant_quiet:
  assumes P: "harmless P"
  shows "quiet.keeps P (generate_update_variant w booted staged has_sack)" "quiet.keeps P (deploy_check_only w t origin)"
    "quiet.keeps P (purge_refspec w r)" "quiet.keeps P (deploy_driver w t p)"
proof -
  note e = harmless_events [OF P]
  show variant: "quiet.keeps P (generate_update_variant w booted staged has_sack)" for booted staged has_sack
    unfolding generate_update_variant_def by (intro quiet_rules) (simp_all add: e)
  show "quiet.keeps P (deploy_check_only w t origin)"
    unfolding deploy_check_only_def get_sack_for_booted_def Let_def by (intro quiet_rules variant) (simp_all add: e)
  have drop: "quiet.keeps P (\<lambda>s. (Inr (), s\<lparr>repo_refs_of := f s\<rparr>))" for f
    by (simp add: quiet.does_def extends_def)
  show "quiet.keeps P (purge_refspec w r)"
    unfolding purge_refspec_def Let_def by (intro quiet_rules drop) (simp_all add: e)
  show "quiet.keeps P (deploy_driver w t p)"
    unfolding deploy_driver_def record_driver_info_def by (intro quiet_rules) (simp_all add: e)
qed

section \<open>Transactions that write nothing\<close>

lemma prepare_quiet: "harmless P \<Longrightarrow> quiet.keeps P (deploy_prepare w t p)"
  unfolding deploy_prepare_def
  by (intro quiet_rules upgrader_new_quiet follow_quiet compute_origin_quiet) simp_all

text \<open>The calls of a transaction are those of its last step, and calls that write nothing.\<close>

lemma deploy_execute_quiet:
  assumes P: "harmless P"
    and prepare: "\<And>p. deploy_parse t = Inr p \<Longrightarrow> yields.does (deploy_prepare w t p) (\<lambda>(refspec, u, _). I p u)"
    and layer: "\<And>p u refspec old skip changed kind origin. deploy_parse t = Inr p \<Longrightarrow>
      \<not> has_flag (dp_flags p) DEPLOY_FLAG_DOWNLOAD_METADATA_ONLY \<Longrightarrow> I p u \<Longrightarrow>
      quiet.keeps P (deploy_layer w t p u refspec old skip changed kind origin)"
  shows "quiet.keeps P (deploy_transaction_execute w t)"
proof -
  note e = harmless_events [OF P]
  note prep = quiet_value [OF prepare_quiet [OF P] prepare]
  show ?thesis
    unfolding deploy_transaction_execute_def Let_def
    by (rule quiet.does_bind [where Q' = "\<lambda>p. deploy_parse t = Inr p"], rule quiet.does_lift, simp, simp,
        rule quiet.keeps_bind, rule quiet_calls, rule e, simp,
        rule quiet.keeps_bind, rule update_variant_quiet [OF P], rule quiet.does_if, rule quiet.does_return, simp,
        rule quiet.keeps_bind, rule quiet.does_assert, simp, simp, rule quiet.keeps_bind, rule quiet.does_assert, simp, simp,
        rule quiet.keeps_bind, rule quiet_calls, rule e, simp, rule quiet.does_bind [OF prep], assumption)
      (auto intro!: quiet.keeps_bind quiet_lift quiet.does_prod update_variant_quiet [OF P] layer)
qed

lemma parse_keeps_flag:
  "deploy_parse t = Inr p \<Longrightarrow> has_flag (dr_flags t) f \<Longrightarrow> has_flag (dp_flags p) f"
  by (auto simp: deploy_parse_def Let_def bindR_Inr_iff has_flag_def bit_eq_iff bit_simps split: if_splits option.splits prod.splits)

lemma stops_early:
  assumes "deploy_transaction_execute w t s = (r, s')"
    and "has_flag (dr_flags t) DEPLOY_FLAG_DRY_RUN \<or> has_flag (dr_flags t) DEPLOY_FLAG_DOWNLOAD_ONLY \<or>
         has_flag (dr_flags t) DEPLOY_FLAG_DOWNLOAD_METADATA_ONLY"
  shows "sysroot s' = sysroot s \<and>
    (\<exists>es. history s' = history s @ es \<and> list_all (\<lambda>e. \<not> writes_deployments e \<and> e \<noteq> Reboot) es)"
proof -
  let ?P = "\<lambda>e. \<not> writes_deployments e \<and> e \<noteq> Reboot"
  have P: "harmless ?P" by (simp add: harmless_def)
  have "quiet.keeps ?P (deploy_layer w t p u refspec old skip changed kind origin)"
    if "deploy_parse t = Inr p" "\<not> has_flag (dp_flags p) DEPLOY_FLAG_DOWNLOAD_METADATA_ONLY" for p u refspec old skip changed kind origin
  proof -
    have "has_flag (dp_flags p) DEPLOY_FLAG_DRY_RUN \<or> has_flag (dp_flags p) DEPLOY_FLAG_DOWNLOAD_ONLY"
      using assms(2) that parse_keeps_flag by blast
    then show ?thesis
      unfolding deploy_layer_def deploy_unchanged_def Let_def
      by (intro quiet_rules assembly_quiet P) auto
  qed
  then have "quiet.keeps ?P (deploy_transaction_execute w t)"
    by (intro deploy_execute_quiet [OF P, where I = "\<lambda>_ _. True"]) (simp_all add: yields.does_def)
  from quiet.doesD(1) [OF this assms(1)] obtain es where es: "history s' = history s @ es" "list_all ?P es"
    "sysroot s' = sysroot s \<or> list_ex writes_deployments es" by (auto simp: extends_def)
  then have "\<not> list_ex writes_deployments es" by (auto simp: list_all_iff list_ex_iff)
  with es show ?thesis by blast
qed

text \<open>
  C8: a transaction that is only a dry run, only downloads or only checks for updates writes no deployment and does not
  reboot, whatever else is asked for and whatever fails.
\<close>

theorem deploy_stops_early:
  assumes "deploy_transaction_execute w t s = (r, s')"
    and "has_flag (dr_flags t) DEPLOY_FLAG_DRY_RUN \<or> has_flag (dr_flags t) DEPLOY_FLAG_DOWNLOAD_ONLY \<or>
         has_flag (dr_flags t) DEPLOY_FLAG_DOWNLOAD_METADATA_ONLY"
  shows "sysroot s' = sysroot s \<and>
    (\<exists>es. history s' = history s @ es \<and> list_all (\<lambda>e. \<not> writes_deployments e \<and> e \<noteq> Reboot) es)"
  using assms by (rule stops_early)

section \<open>What is written\<close>

text \<open>The operations on the origin keep it well-formed.\<close>

lemmas step_ok = origin_step.intros [THEN one_step_ok]

lemma change_refspec_ok:
  assumes "change_origin_refspec w options origin r s = (Inr (origin', x), s')" "origin_ok origin"
  shows "origin_ok origin'"
proof -
  let ?r = "if has_prefix r ''ostree://'' then drop 9 r else r" and ?env = "w_origin_env w"
  have *: "origin_ok (rpmostree_origin_set_rebase_custom env origin a b c)" "origin_ok (rpmostree_origin_set_rebase env origin a)" for env a b c
    unfolding rpmostree_origin_set_rebase_def using assms(2) by (rule step_ok(12))+
  show ?thesis
  proof (cases "refspec_classify ?env ?r")
    case Container
    then show ?thesis using assms(1) unfolding change_origin_refspec_def Let_def
      by (simp only: RefspecType.case) (auto simp: bindP_eq_Inr * lift_def split: if_splits)
  qed (use assms(1) in \<open>auto simp: change_origin_refspec_def Let_def bindP_eq_Inr * lift_def split: if_splits option.splits prod.splits\<close>)
qed

lemma revision_override_ok:
  assumes "apply_revision_override w origin skip rev1 s = (Inr origin', s')" "origin_ok origin"
  shows "origin_ok origin'"
proof -
  obtain kind refspec rest where k: "rpmostree_origin_get_refspec (w_origin_env w) origin = Inr (kind, refspec)"
    using assms(1) by (auto simp: apply_revision_override_def bindP_eq_Inr lift_def)
  have *: "origin_ok (rpmostree_origin_set_override_commit origin c)" for c
    using assms(2) by (rule step_ok(13))
  show ?thesis
    using assms(1) k
    by (cases kind; cases rev1)
      (auto simp: apply_revision_override_def bindP_eq_Inr lift_def * split: ParsedRevisionKind.splits,
       metis ParsedRevisionKind.exhaust)
qed

lemma follow_ok:
  assumes "deploy_follow w t p refspec origin s = (Inr (origin', x), s')" "origin_ok origin"
  shows "origin_ok origin'"
proof -
  from assms(1) obtain a old s1 where a: "(case refspec of
              None \<Rightarrow> return (origin, None)
            | Some r \<Rightarrow> bindP (change_origin_refspec w (dr_options t) origin r) (\<lambda>(origin, old_refspec, new_refspec).
                return (origin, old_refspec))) s = (Inr (a, old), s1)"
    and b: "(case dp_revision p of
              None \<Rightarrow> return (rpmostree_origin_set_override_commit a None)
            | Some revision \<Rightarrow>
                bindP (apply_revision_override w a (option_set t ''skip-branch-check'') (Some revision)) (\<lambda>origin.
                bindP (tell (Call ''rpmostree_transaction_emit_progress_end'' [])) (\<lambda>_. return origin))) s1 = (Inr origin', s')"
    by (auto simp: deploy_follow_def bindP_eq_Inr)
  have "origin_ok a"
    using a assms(2) by (cases refspec) (auto simp: bindP_eq_Inr dest: change_refspec_ok)
  then show ?thesis
    using b by (cases "dp_revision p") (auto simp: bindP_eq_Inr step_ok(13) dest: revision_override_ok)
qed

lemma removals_ok:
  assumes "deploy_removals env t origin = Inr (origin', x)" "origin_ok origin"
  shows "origin_ok origin'"
proof -
  define a where "a = (if option_set t ''no-initramfs'' \<and>
      (rpmostree_origin_get_regenerate_initramfs origin \<or> rpmostree_origin_has_initramfs_etc_files origin)
    then (fst (rpmostree_origin_initramfs_etc_files_untrack_all (rpmostree_origin_set_regenerate_initramfs origin False [])), True)
    else (origin, False))"
  obtain a1 c1 where a: "a = (a1, c1)" by fastforce
  have "origin_ok (fst a)" using assms(2) by (auto simp: a_def intro!: step_ok(17) step_ok(18))
  moreover obtain b c where b: "(case lookup_b (dr_options t) ''ex-cliwrap'' of
      Some val \<Rightarrow> (rpmostree_origin_set_cliwrap a1 val, True) | None \<Rightarrow> (a1, c1)) = (b, c)" by fastforce
  ultimately have "origin_ok b" using a by (auto intro!: step_ok(14) split: option.splits)
  then show ?thesis
    using assms(1) step_ok(5) [of b] unfolding deploy_removals_def Let_def a_def [symmetric] a prod.case b
    by (auto simp: bindR_Inr_iff intro: step_ok(4) split: if_splits prod.splits)
qed

lemma import_and_add_ok:
  assumes "import_and_add w fds add origin changed s = (Inr (origin', x), s')" "origin_ok origin"
    and "\<And>pkgs b c. add origin pkgs changed = Inr (b, c) \<Longrightarrow> origin_ok b"
  shows "origin_ok origin'"
  using assms by (cases fds) (auto simp: import_and_add_def bindP_eq_Inr lift_def split: if_splits)

lemma installs_ok:
  assumes "deploy_installs w t p u skip origin changed s = (Inr (origin', x), s')" "origin_ok origin"
  shows "origin_ok origin'"
proof -
  from assms(1) obtain a c rsack s1 b c' s2 c'' s3 where
    a: "(case strv_modifier t ''install-packages'' of
                  None \<Rightarrow> return (origin, changed, None)
                | Some install_pkgs \<Rightarrow>
                    bindP (if skip then return None
                           else bindP (load_refsack w u None) (\<lambda>sack.
                                bindP (lift (check_not_provided w sack (option_set t ''allow-inactive'') install_pkgs)) (\<lambda>_.
                                  return (Some sack)))) (\<lambda>base_rsack.
                    bindP (lift (rpmostree_origin_add_packages (w_origin_env w) origin install_pkgs (option_set t ''idempotent-layering'') changed))
                      (\<lambda>(origin, changed). return (origin, changed, base_rsack)))) s = (Inr (a, c, rsack), s1)"
    and b: "import_and_add w (dp_install_local p) (\<lambda>origin pkgs. rpmostree_origin_add_local_packages (w_origin_env w) origin pkgs
      (option_set t ''idempotent-layering'')) a c s1 = (Inr (b, c'), s2)"
    and o: "import_and_add w (dp_install_fileoverride_local p) (\<lambda>origin pkgs. rpmostree_origin_add_local_fileoverride_packages (w_origin_env w)
      origin pkgs (option_set t ''idempotent-layering'')) b c' s2 = (Inr (origin', c''), s3)"
    by (auto simp: deploy_installs_def Let_def bindP_eq_Inr)
  have "origin_ok a"
    using a assms(2) by (cases "strv_modifier t ''install-packages''") (auto simp: bindP_eq_Inr lift_def dest: step_ok(1))
  from import_and_add_ok [OF b this] this have "origin_ok b" by (auto dest: step_ok(2))
  from import_and_add_ok [OF o this] this show ?thesis by (auto dest: step_ok(3))
qed

lemma reset_override_ok: "reset_override tables a p = Inr b \<Longrightarrow> origin_ok a \<Longrightarrow> origin_ok b"
  using step_ok(8,9,10) by (auto simp: reset_override_def Let_def case_prod_unfold split: if_splits)

lemma overrides_ok:
  assumes "deploy_overrides w t p u origin changed s = (Inr (origin', x), s')" "origin_ok origin"
  shows "origin_ok origin'"
proof -
  have reset: "reset_overrides tables a ps = Inr b \<Longrightarrow> origin_ok a \<Longrightarrow> origin_ok b" for tables a ps b
    by (induction ps arbitrary: a) (auto simp: bindR_Inr_iff dest: reset_override_ok)
  have drop: "drop_replaced env tables a ps = Inr b \<Longrightarrow> origin_ok a \<Longrightarrow> origin_ok b" for env tables a ps b
  proof (induction ps arbitrary: a)
    case (Cons q ps)
    have "origin_ok (case x of Some old \<Rightarrow> fst (rpmostree_origin_remove_override_replace_local a old) | None \<Rightarrow> a)" for x
      using Cons.prems(2) step_ok(9) by (auto split: option.split)
    with Cons show ?case by (auto simp: bindR_Inr_iff)
  qed simp
  have replace: "replace_local w tables fds a s = (Inr b, s') \<Longrightarrow> origin_ok a \<Longrightarrow> origin_ok b" for tables fds a b s s'
    by (cases fds) (auto simp: replace_local_def bindP_eq_Inr lift_def dest: drop intro: step_ok(7) split: if_splits)
  show ?thesis
    using assms unfolding deploy_overrides_def
    by (auto simp: bindP_eq_Inr Let_def lift_def case_prod_unfold dest: reset replace intro: step_ok(11) split: if_splits)
qed

text \<open>The upgrader that the last step gets: made for the request, with an origin as wanted.\<close>

definition made_for :: "(treefile \<Rightarrow> bool) \<Rightarrow> deploy_request \<Rightarrow> deploy_plan \<Rightarrow> RpmOstreeSysrootUpgrader \<Rightarrow> bool" where
  "made_for Q t p u \<longleftrightarrow> u_osname u = dr_osname t \<and> u_flags u = deploy_upgrader_flags t p \<and> u_kargs_strv u = None \<and>
     Q (u_original_origin u)"

lemma upgrader_new_made_for:
  assumes "rpmostree_sysroot_upgrader_new w (Some (dr_osname t)) (deploy_upgrader_flags t p) s = (Inr u, s')"
    and "\<And>h. Q (rpmostree_origin_set_override_commit (w_origin w h) None)"
  shows "made_for Q t p u"
  using assms
  by (auto simp: rpmostree_sysroot_upgrader_new_def parse_origin_deployment_def Let_def bindP_eq_Inr ask_def made_for_def
      split: if_splits option.splits)

lemma pull_base_made_for:
  assumes "rpmostree_sysroot_upgrader_pull_base w u dir check s = (Inr (u', changed), s')" "made_for Q t p u"
  shows "made_for Q t p u'"
proof -
  have "yields.does (rpmostree_sysroot_upgrader_pull_base w u dir check) (\<lambda>(u', _). made_for Q t p u')"
    unfolding rpmostree_sysroot_upgrader_pull_base_def
    by (intro yields.keeps_bind [OF yields_any] yields.does_sum yields.does_if yields.does_return)
      (use assms(2) in \<open>simp_all add: made_for_def\<close>)
  from yields.doesD(3) [OF this assms(1) refl] show ?thesis by simp
qed

lemma deploy_pull_made_for:
  "deploy_pull w p u changed s = (Inr (u', changed'), s') \<Longrightarrow> made_for Q t p u \<Longrightarrow> made_for Q t p u'"
  by (auto simp: deploy_pull_def bindP_eq_Inr dest: pull_base_made_for split: if_splits)

lemma override_removes_made_for:
  assumes "deploy_override_removes w t u rsack origin changed s = (Inr (u', x), s')" "made_for origin_ok t p u" "origin_ok origin"
  shows "made_for origin_ok t p u'"
  using assms
  by (cases "strv_modifier t ''override-remove-packages''")
    (auto simp: deploy_override_removes_def bindP_eq_Inr lift_def made_for_def rpmostree_sysroot_upgrader_set_origin_def
      intro: step_ok(6))

lemma compute_origin_made_for:
  assumes run: "deploy_compute_origin w t p u refspec s = (Inr (u', x), s')"
    and u: "made_for origin_ok t p u" and w: "\<And>h. origin_ok (w_origin w h)"
  shows "made_for origin_ok t p u'"
proof -
  from run obtain o1 old s1 o2 c2 rc o3 c3 rsack s3 o4 c4 oc s4 o5 c5 s5 u6 c6 s6 s2 skip o7 c7 s7 where
    1: "deploy_follow w t p refspec (rpmostree_sysroot_upgrader_dup_origin u) s = (Inr (o1, old), s1)"
    and 2: "deploy_removals (w_origin_env w) t o1 = Inr (o2, c2, rc)"
    and 3: "deploy_installs w t p u skip o2 c2 s2 = (Inr (o3, c3, rsack), s3)"
    and 4: "deploy_overrides w t p u o3 c3 s3 = (Inr (o4, c4, oc), s4)"
    and 5: "deploy_treefile w t o4 c4 s4 = (Inr (o5, c5), s5)"
    and 6: "deploy_pull w p (rpmostree_sysroot_upgrader_set_origin u o5) c5 s5 = (Inr (u6, c6), s6)"
    and 7: "deploy_override_removes w t u6 rsack o5 c6 s6 = (Inr (u', o7, c7), s7)"
    by (auto simp: deploy_compute_origin_def bindP_eq_Inr lift_def)
  have "origin_ok (rpmostree_sysroot_upgrader_dup_origin u)" using u by (simp add: made_for_def rpmostree_sysroot_upgrader_dup_origin_def)
  from overrides_ok [OF 4 installs_ok [OF 3 removals_ok [OF 2 follow_ok [OF 1 this]]]]
  have "origin_ok o5"
    using 5 w by (auto simp: deploy_treefile_def bindP_eq_Inr ask_def Let_def split: option.splits)
  moreover from this have "made_for origin_ok t p (rpmostree_sysroot_upgrader_set_origin u o5)"
    using u by (simp add: made_for_def rpmostree_sysroot_upgrader_set_origin_def)
  ultimately show ?thesis using override_removes_made_for [OF 7 deploy_pull_made_for [OF 6]] by blast
qed

lemma prepare_made_for:
  assumes "\<And>h. origin_ok (w_origin w h)"
  shows "yields.does (deploy_prepare w t p) (\<lambda>(refspec, u, _). made_for origin_ok t p u)"
proof (rule yields.doesI, intro conjI allI impI TrueI, simp)
  fix s r s' a
  assume "deploy_prepare w t p s = (r, s')" "r = Inr a"
  then obtain u s1 s2 refspec u' rest where 1: "rpmostree_sysroot_upgrader_new w (Some (dr_osname t)) (deploy_upgrader_flags t p) s = (Inr u, s1)"
    and 2: "deploy_compute_origin w t p (rpmostree_sysroot_upgrader_set_allow_empty_transaction u (option_set t ''idempotent-layering'')) refspec s2 =
      (Inr (u', rest), s')" and a: "a = (refspec, u', rest)"
    by (auto simp: deploy_prepare_def bindP_eq_Inr)
  have "made_for origin_ok t p (rpmostree_sysroot_upgrader_set_allow_empty_transaction u (option_set t ''idempotent-layering''))"
    using upgrader_new_made_for [OF 1, where Q = origin_ok] step_ok(13) [OF assms] by (simp add: made_for_def rpmostree_sysroot_upgrader_set_allow_empty_transaction_def)
  from compute_origin_made_for [OF 2 this assms] a show "case a of (refspec, u, _) \<Rightarrow> made_for origin_ok t p u" by simp
qed

lemma quiet_mono: "quiet.does P m Q \<Longrightarrow> (\<And>e. P e \<Longrightarrow> P' e) \<Longrightarrow> quiet.does P' m Q"
  unfolding quiet.does_def extends_def by (meson list.pred_mono_strong)

lemma made_for_job: "made_for Q t p u \<Longrightarrow> job v = job u \<Longrightarrow> made_for Q t p v"
  by (simp add: made_for_def job_def)

lemma flags_locked: "has_flag (deploy_upgrader_flags t p) RPMOSTREE_SYSROOT_UPGRADER_FLAGS_LOCK_FINALIZATION = option_set t ''lock-finalization''"
  using has_flag_bit [of 6 "deploy_upgrader_flags t p"] by (simp add: deploy_upgrader_flags_def bit_simps)

text \<open>What a deploy transaction may do to the boot configuration: deployments of its OS with an origin as wanted,
  locked if asked for, and a reboot if asked for.\<close>

definition deploys_request :: "(treefile \<Rightarrow> bool) \<Rightarrow> deploy_request \<Rightarrow> io \<Rightarrow> bool" where
  "deploys_request Q t e =
     (let requested = (\<lambda>osname origin opts.
            osname = dr_osname t \<and> Q origin \<and> do_locked opts = option_set t ''lock-finalization'')
      in case e of
           Stage_tree osname rev1 origin merge opts \<Rightarrow> requested osname origin opts
         | Deploy_tree osname rev1 origin merge opts \<Rightarrow> requested osname origin opts
         | Write_deployments _ _ \<Rightarrow> False
         | Reboot \<Rightarrow> option_set t ''reboot'' \<and> \<not> option_set t ''apply-live''
         | _ \<Rightarrow> True)"

lemma deploys_request_harmless: "harmless (deploys_request Q t)"
  by (auto simp: harmless_def deploys_request_def Let_def split: io.splits)

lemma deploys_for_request:
  assumes "made_for Q t p u" "deploys_for w u e"
  shows "deploys_request Q t e"
  using assms flags_locked [of t p]
  by (auto simp: deploys_for_def deploys_request_def made_for_def Let_def split: io.splits)

lemma write_requests:
  assumes u: "made_for Q t p u"
  shows "quiet.keeps (deploys_request Q t) (deploy_write w t p u refspec old)"
proof -
  note P = deploys_request_harmless [of Q t]
  note e = harmless_events [OF P]
  have deploy: "quiet.keeps (deploys_request Q t) (rpmostree_sysroot_upgrader_deploy w u)"
    by (rule quiet_mono [OF upgrader_deploy_quiet deploys_for_request [OF u]])
  have locks: "quiet.keeps (deploys_request Q t) (check_sd_inhibitor_locks w)"
    unfolding check_sd_inhibitor_locks_def Let_def
    by (intro quiet_rules) (auto simp: e split: list.split intro!: quiet_rules)
  show ?thesis
    unfolding deploy_write_def reboot_if_def
    by (intro quiet_rules deploy update_variant_quiet P locks) (simp_all add: deploys_request_def)
qed

lemma layer_requests:
  assumes u: "made_for Q t p u"
  shows "quiet.keeps (deploys_request Q t) (deploy_layer w t p u refspec old skip changed kind origin)"
proof -
  note P = deploys_request_harmless [of Q t]
  note e = harmless_events [OF P]
  have prep: "quiet.does (deploys_request Q t) (rpmostree_sysroot_upgrader_prep_layering w u) (\<lambda>(u, _). made_for Q t p u)"
    by (rule quiet_value [OF assembly_quiet(1) [OF P] yields.does_mono [OF prep_layering_job]]) (auto intro: made_for_job [OF u])
  have imp: "quiet.does (deploys_request Q t) (rpmostree_sysroot_upgrader_import_pkgs w v) (made_for Q t p)" if "made_for Q t p v" for v
    by (rule quiet_value [OF assembly_quiet(2) [OF P] yields.does_mono [OF import_pkgs_job]]) (auto intro: made_for_job [OF that])
  have info: "made_for Q t p (rpmostree_sysroot_upgrader_set_caller_info v a b c)" if "made_for Q t p v" for v a b c
    using that by (simp add: made_for_def rpmostree_sysroot_upgrader_set_caller_info_def)
  show ?thesis
    unfolding deploy_layer_def deploy_unchanged_def Let_def
    apply (rule quiet.does_bind [OF prep])
    apply (auto intro!: quiet.does_return quiet_calls e quiet.does_bind [where Q' = "made_for Q t p"] imp write_requests info quiet.does_if)
    done
qed


section \<open>Layering packages\<close>

text \<open>
  A request that only installs packages from the repositories. The options that change the origin in other ways are
  not given.
\<close>

definition installs_only :: "deploy_request \<Rightarrow> string list \<Rightarrow> bool" where
  "installs_only t pkgs \<longleftrightarrow> dr_fds t = None \<and> strv_modifier t ''install-packages'' = Some pkgs \<and>
     list_all (\<lambda>key. strv_modifier t key = None) [''uninstall-packages'', ''override-reset-packages'', ''override-remove-packages''] \<and>
     list_all (\<lambda>key. lookup_s (dr_modifiers t) key = None) [''set-refspec'', ''set-revision'', ''treefile''] \<and>
     list_all (\<lambda>key. dr_options t key = None) [''no-initramfs'', ''ex-cliwrap'', ''no-layering'', ''no-overrides'']"

text \<open>An origin with more packages: those of the request that were not there as local packages.\<close>

definition extended_by :: "'v world \<Rightarrow> string list \<Rightarrow> treefile \<Rightarrow> bool" where
  "extended_by w pkgs origin \<longleftrightarrow>
     (\<exists>h. let old = w_origin w h in
        origin = old\<lparr>override_commit := None, packages := packages origin\<rparr> \<and>
        set (unwrap (packages origin)) =
          set (unwrap (packages old)) \<union> {p \<in> set pkgs. \<not> has_local_package old p \<and> \<not> has_local_fileoverride_package old p})"

lemma add_packages_sets:
  assumes "add_packages env a ps ae = Inr (b, c)"
  shows "b = a\<lparr>packages := packages b\<rparr> \<and>
    set (unwrap (packages b)) = set (unwrap (packages a)) \<union> {p \<in> set ps. \<not> has_local_package a p \<and> \<not> has_local_fileoverride_package a p}"
proof -
  have filtered: "filter_package_requests env a ps False ae = Inr qs \<Longrightarrow>
      set qs = {p \<in> set ps. \<not> has_package a p \<and> \<not> has_local_package a p \<and> \<not> has_local_fileoverride_package a p}" for qs
    by (induction ps arbitrary: qs) (auto simp: bindR_Inr_iff split: if_splits)
  from assms obtain qs where "filter_package_requests env a ps False ae = Inr qs"
    and b: "b = a\<lparr>packages := Some (bset_extend (unwrap (packages a)) qs)\<rparr>"
    by (auto simp: add_packages_def bindR_Inr_iff Let_def)
  from filtered [OF this(1)] b show ?thesis by (auto simp: has_package_sets(1))
qed

lemma installs_only_lookups:
  assumes "installs_only t pkgs"
  shows "strv_modifier t ''install-packages'' = Some pkgs" "strv_modifier t ''uninstall-packages'' = None"
    "strv_modifier t ''override-reset-packages'' = None" "strv_modifier t ''override-remove-packages'' = None"
    "lookup_s (dr_modifiers t) ''treefile'' = None" "lookup_b (dr_options t) ''ex-cliwrap'' = None"
    "\<not> option_set t ''no-initramfs''" "\<not> option_set t ''no-layering''" "\<not> option_set t ''no-overrides''"
  using assms by (auto simp: installs_only_def lookup_b_def vardict_lookup_bool_def)

lemma installs_only_parse:
  assumes "installs_only t pkgs" "deploy_parse t = Inr p"
  shows "dp_refspec p = None" "dp_revision p = None" "dp_install_local p = None" "dp_install_fileoverride_local p = None"
    "dp_override_replace_local p = None" "dp_local_repo p = None"
proof -
  have "split_fds t = Inr (None, None, None, None)" using assms(1) by (simp add: installs_only_def split_fds_def)
  with assms show "dp_refspec p = None" "dp_revision p = None" "dp_install_local p = None" "dp_install_fileoverride_local p = None"
    "dp_override_replace_local p = None" "dp_local_repo p = None"
    by (auto simp: deploy_parse_def installs_only_def Let_def split: if_splits option.splits)
qed

lemma installs_only_origin:
  assumes t: "installs_only t pkgs" and p: "deploy_parse t = Inr p"
    and run: "deploy_compute_origin w t p u None s = (Inr (u', x), s')"
    and u: "made_for (\<lambda>origin. \<exists>h. origin = rpmostree_origin_set_override_commit (w_origin w h) None) t p u"
  shows "made_for (extended_by w pkgs) t p u'"
proof -
  note l = installs_only_lookups [OF t] installs_only_parse [OF t p]
  obtain h where h: "u_original_origin u = rpmostree_origin_set_override_commit (w_origin w h) None"
    using u by (auto simp: made_for_def)
  let ?o = "rpmostree_origin_set_override_commit (u_original_origin u) None"
  from run l obtain o2 c2 s1 s2 c3 c4 where add: "add_packages (w_origin_env w) ?o pkgs (option_set t ''idempotent-layering'') = Inr (o2, c2)"
    and pull: "deploy_pull w p (rpmostree_sysroot_upgrader_set_origin u o2) c3 s1 = (Inr (u', c4), s2)"
    by (auto simp: deploy_compute_origin_def deploy_follow_def deploy_removals_def deploy_installs_def import_and_add_def deploy_overrides_def
        deploy_treefile_def deploy_override_removes_def bindP_eq_Inr lift_def Let_def rpmostree_sysroot_upgrader_dup_origin_def
        rpmostree_origin_remove_packages_def remove_packages_def set_changed_def rpmostree_origin_add_packages_def bindR_Inr_iff)
  have "?o = (w_origin w h)\<lparr>override_commit := None\<rparr>" by (simp add: h rpmostree_origin_set_override_commit_def)
  with add_packages_sets [OF add] have "extended_by w pkgs o2"
    unfolding extended_by_def Let_def by (intro exI [of _ h]) (auto simp: has_package_sets)
  then have "made_for (extended_by w pkgs) t p (rpmostree_sysroot_upgrader_set_origin u o2)"
    using u by (simp add: made_for_def rpmostree_sysroot_upgrader_set_origin_def)
  then show ?thesis using deploy_pull_made_for [OF pull] by blast
qed

lemma installs_only_prepare:
  assumes t: "installs_only t pkgs" and p: "deploy_parse t = Inr p"
  shows "yields.does (deploy_prepare w t p) (\<lambda>(refspec, u, _). made_for (extended_by w pkgs) t p u)"
proof (rule yields.doesI, intro conjI allI impI TrueI, simp)
  let ?Q = "\<lambda>origin. \<exists>h. origin = rpmostree_origin_set_override_commit (w_origin w h) None"
  fix s r s' a
  assume "deploy_prepare w t p s = (r, s')" "r = Inr a"
  then obtain u s1 s2 u' rest where 1: "rpmostree_sysroot_upgrader_new w (Some (dr_osname t)) (deploy_upgrader_flags t p) s = (Inr u, s1)"
    and 2: "deploy_compute_origin w t p (rpmostree_sysroot_upgrader_set_allow_empty_transaction u (option_set t ''idempotent-layering'')) None s2 =
      (Inr (u', rest), s')" and a: "a = (None, u', rest)"
    using installs_only_parse [OF t p] by (auto simp: deploy_prepare_def pull_local_repo_def bindP_eq_Inr)
  have "made_for ?Q t p (rpmostree_sysroot_upgrader_set_allow_empty_transaction u (option_set t ''idempotent-layering''))"
    using upgrader_new_made_for [OF 1, where Q = ?Q]
    by (simp add: made_for_def rpmostree_sysroot_upgrader_set_allow_empty_transaction_def) blast
  from installs_only_origin [OF t p 2 this] a show "case a of (refspec, u, _) \<Rightarrow> made_for (extended_by w pkgs) t p u" by simp
qed

lemma installs_union:
  assumes "installs_only t pkgs" "deploy_transaction_execute w t s = (r, s')"
  shows "\<exists>es. history s' = history s @ es \<and> list_all (deploys_request (extended_by w pkgs) t) es"
proof -
  have "quiet.keeps (deploys_request (extended_by w pkgs) t) (deploy_transaction_execute w t)"
    by (rule deploy_execute_quiet [OF deploys_request_harmless installs_only_prepare [OF assms(1)] layer_requests])
  from quiet.doesD(1) [OF this assms(2)] show ?thesis by (auto simp: extends_def)
qed


section \<open>Requests from outside\<close>

lemma sparse_fds:
  "get_fd_array_from_sparse fds idxs =
     (if list_all (\<lambda>h. 0 \<le> h \<and> h < int (length fds)) idxs then Inr (map (\<lambda>h. fds ! nat h) idxs)
      else Inl (Abort ''g_assert (0 <= h && h < nfds)''))"
  by (induction idxs) auto

text \<open>The handles that a request names, in the order they are looked at.\<close>

definition handles :: "deploy_request \<Rightarrow> int list" where
  "handles t =
     concat (map (\<lambda>key. case lookup_ah (dr_modifiers t) key of Some idxs \<Rightarrow> idxs | None \<Rightarrow> [])
       [''install-local-packages'', ''install-fileoverride-local-packages'', ''override-replace-local-packages'']) @
     (case lookup_h (dr_modifiers t) ''ex-local-repo-remote'' of Some h \<Rightarrow> if h = -1 then [] else [h] | None \<Rightarrow> [])"

lemma expected_fdn_handles: "expected_fdn t = length (handles t)"
  by (simp add: expected_fdn_def handles_def Let_def split: option.split)

lemma split_fds_safe:
  assumes "dr_fds t = Some fds"
  shows "safe (split_fds t) \<longleftrightarrow> list_all (\<lambda>h. 0 \<le> h \<and> h < int (length fds)) (handles t)"
  using assms
  by (cases "lookup_ah (dr_modifiers t) ''install-local-packages''"; cases "lookup_ah (dr_modifiers t) ''install-fileoverride-local-packages''";
      cases "lookup_ah (dr_modifiers t) ''override-replace-local-packages''"; cases "lookup_h (dr_modifiers t) ''ex-local-repo-remote''")
    (auto simp: split_fds_def handles_def sparse_fds Let_def safe_def split: if_splits)


text \<open>
  C19: the file overrides of \<open>UpdateDeployment\<close> are not authorized. Whether a call is let through does not depend on the key
  under which a deploy transaction finds the local packages that override files (the table of actions has another
  spelling of it), and the transaction takes every package that is passed under this key.
\<close>

theorem fileoverrides_not_authorized:
  assumes "lookup_ah (dr_modifiers t) ''install-fileoverride-local-packages'' = Some idxs" "dr_fds t = Some fds"
    and "deploy_parse t = Inr p"
  shows "os_authorize_method env ''UpdateDeployment'' sender (dr_modifiers t) (dr_options t) =
      os_authorize_method env ''UpdateDeployment'' sender ((dr_modifiers t)(''install-fileoverride-local-packages'' := None)) (dr_options t) \<and>
    dp_install_fileoverride_local p = Some (map (\<lambda>h. fds ! nat h) idxs)"
proof
  have act: "os_method_actions ''UpdateDeployment'' (dr_modifiers t) (dr_options t) =
      os_method_actions ''UpdateDeployment'' ((dr_modifiers t)(''install-fileoverride-local-packages'' := None)) (dr_options t)"
    by (simp add: os_method_actions_def update_deployment_actions_def known_changes_def lookup_s_def vardict_lookup_strv_def
        nonempty_ah_def lookup_ah_def)
  show "os_authorize_method env ''UpdateDeployment'' sender (dr_modifiers t) (dr_options t) =
      os_authorize_method env ''UpdateDeployment'' sender ((dr_modifiers t)(''install-fileoverride-local-packages'' := None)) (dr_options t)"
    unfolding os_authorize_method_def by (subst act) (rule refl)
  have fd: "split_fds t = Inr (a, b, c, d) \<Longrightarrow> b = Some (map (\<lambda>h. fds ! nat h) idxs)" for a b c d
    using assms(1,2)
    by (cases "lookup_ah (dr_modifiers t) ''install-local-packages''"; cases "lookup_ah (dr_modifiers t) ''override-replace-local-packages''";
        cases "lookup_h (dr_modifiers t) ''ex-local-repo-remote''") (auto simp: split_fds_def sparse_fds Let_def split: if_splits)
  show "dp_install_fileoverride_local p = Some (map (\<lambda>h. fds ! nat h) idxs)"
    using assms(3) by (auto simp: deploy_parse_def Let_def bindR_Inr_iff split: if_splits option.splits dest!: fd)
qed

section \<open>Witnesses\<close>

definition demo_request :: "u32 \<Rightarrow> vardict \<Rightarrow> vardict \<Rightarrow> int list option \<Rightarrow> deploy_request" where
  "demo_request flags options modifiers fds =
     \<lparr>dr_osname = ''fedora'', dr_flags = flags, dr_options = options, dr_modifiers = modifiers, dr_fds = fds,
      dr_agent_id = None, dr_sd_unit = None\<rparr>"

theorem deploy_stops_early_witness:
  "sysroot (snd (deploy_transaction_execute calm_world (demo_request 32 [''reboot'' \<mapsto> GV_b True] Map.empty None) demo_worker)) = demo_sysroot"
  using deploy_stops_early [of calm_world "demo_request 32 [''reboot'' \<mapsto> GV_b True] Map.empty None" demo_worker
      "fst (deploy_transaction_execute calm_world (demo_request 32 [''reboot'' \<mapsto> GV_b True] Map.empty None) demo_worker)"
      "snd (deploy_transaction_execute calm_world (demo_request 32 [''reboot'' \<mapsto> GV_b True] Map.empty None) demo_worker)"]
  by (simp add: demo_request_def has_flag_def demo_worker_def)



definition upgrade_polkit :: auth_env where
  "upgrade_polkit = lenient_polkit\<lparr>polkit_check := (\<lambda>sender action interactive. Inr (action = polkit_action ''upgrade''))\<rparr>"

theorem fileoverrides_not_authorized_witness:
  "os_authorize_method upgrade_polkit ''UpdateDeployment'' '':1.9'' [''install-fileoverride-local-packages'' \<mapsto> GV_ah [0]] Map.empty = Inr () \<and>
   (\<exists>p. deploy_parse (demo_request 0 Map.empty [''install-fileoverride-local-packages'' \<mapsto> GV_ah [0]] (Some [7])) = Inr p \<and>
     dp_install_fileoverride_local p = Some [7])"
proof -
  let ?m = "[''install-fileoverride-local-packages'' \<mapsto> GV_ah [0]]"
  let ?t = "demo_request 0 Map.empty ?m (Some [7])"
  have "os_authorize_method upgrade_polkit ''UpdateDeployment'' '':1.9'' Map.empty Map.empty = Inr ()"
    by (simp add: os_authorize_method_def rpmostreed_sysroot_authorize_direct_def authorize_method_for_uid0_def lenient_polkit_def
        upgrade_polkit_def rpmostreed_sysroot_get_polkit_authority_def os_method_actions_def update_deployment_actions_def known_changes_def
        vardict_lookup_bool_def lookup_b_def lookup_s_def vardict_lookup_strv_def nonempty_ah_def lookup_ah_def Let_def)
  moreover obtain p where "deploy_parse ?t = Inr p"
    by (simp add: deploy_parse_def expected_fdn_def split_fds_def conflicting_options_def demo_request_def Let_def
        vardict_lookup_bool_def lookup_b_def lookup_s_def vardict_lookup_strv_canonical_def vardict_lookup_strv_def
        lookup_ah_def lookup_h_def)
  ultimately show ?thesis
    using fileoverrides_not_authorized [of ?t "[0]" "[7]" p upgrade_polkit "'':1.9''"] by (auto simp: demo_request_def lookup_ah_def)
qed


end
