(* ===== verification/Txn_Props.thy ===== *)
theory Txn_Props
  imports Txn_Execute Deploy_Props "HOL-Library.Sublist"
begin

text \<open>
  What every kind of transaction does to the deployments and when it reboots, and what the transactions for rollback,
  finalization and kernel arguments write.
\<close>

section \<open>Reboots\<close>

text \<open>A program that asks for a reboot only if \<open>b\<close>, at most once, and then as the last thing it does before it returns.\<close>

definition closing :: "bool \<Rightarrow> 'a program \<Rightarrow> bool" where
  "closing b m \<longleftrightarrow>
     (\<forall>s r s'. m s = (r, s') \<longrightarrow>
        (\<exists>es. history s' = history s @ es \<and>
           (Reboot \<notin> set es \<or> b \<and> (\<exists>a fs. r = Inr a \<and> es = fs @ [Reboot] \<and> Reboot \<notin> set fs))))"

abbreviation no_reboot :: "io \<Rightarrow> bool" where
  "no_reboot e \<equiv> e \<noteq> Reboot"

lemma no_reboot_harmless: "harmless no_reboot"
  by (simp add: harmless_def)

lemma list_all_no_reboot: "list_all no_reboot es \<longleftrightarrow> Reboot \<notin> set es"
  by (auto simp: list_all_iff)

lemma closing_quiet:
  assumes "quiet.keeps no_reboot m"
  shows "closing b m"
  unfolding closing_def
proof (intro allI impI)
  fix s r s'
  assume "m s = (r, s')"
  from quiet.doesD(1) [OF assms this] show "\<exists>es. history s' = history s @ es \<and>
      (Reboot \<notin> set es \<or> b \<and> (\<exists>a fs. r = Inr a \<and> es = fs @ [Reboot] \<and> Reboot \<notin> set fs))"
    by (auto simp: extends_def list_all_no_reboot)
qed

lemma closing_does:
  assumes m: "quiet.does no_reboot m Q" and f: "\<And>a. Q a \<Longrightarrow> closing b (f a)"
  shows "closing b (bindP m f)"
  unfolding closing_def
proof (intro allI impI)
  fix s r s'
  assume run: "bindP m f s = (r, s')"
  obtain r1 s1 where ms: "m s = (r1, s1)" by fastforce
  from quiet.doesD(1) [OF m ms] obtain es where es: "history s1 = history s @ es" "Reboot \<notin> set es"
    by (auto simp: extends_def list_all_no_reboot)
  show "\<exists>es. history s' = history s @ es \<and>
      (Reboot \<notin> set es \<or> b \<and> (\<exists>a fs. r = Inr a \<and> es = fs @ [Reboot] \<and> Reboot \<notin> set fs))"
  proof (cases r1)
    case (Inl e)
    with run ms es show ?thesis by (auto simp: bindP_def)
  next
    case (Inr a)
    with run ms have "f a s1 = (r, s')" by (simp add: bindP_def)
    with f [OF quiet.doesD(3) [OF m ms Inr]] obtain fs where fs: "history s' = history s1 @ fs"
      "Reboot \<notin> set fs \<or> b \<and> (\<exists>a gs. r = Inr a \<and> fs = gs @ [Reboot] \<and> Reboot \<notin> set gs)"
      unfolding closing_def by blast
    have "Reboot \<notin> set (es @ fs) \<or> b \<and> (\<exists>a gs. r = Inr a \<and> es @ fs = gs @ [Reboot] \<and> Reboot \<notin> set gs)"
      using fs(2)
    proof
      assume "Reboot \<notin> set fs"
      with es(2) show ?thesis by simp
    next
      assume "b \<and> (\<exists>a gs. r = Inr a \<and> fs = gs @ [Reboot] \<and> Reboot \<notin> set gs)"
      then obtain a gs where "b" "r = Inr a" "fs = gs @ [Reboot]" "Reboot \<notin> set gs" by blast
      then have "b \<and> r = Inr a \<and> es @ fs = (es @ gs) @ [Reboot] \<and> Reboot \<notin> set (es @ gs)" using es(2) by simp
      then show ?thesis by blast
    qed
    then show ?thesis using es(1) fs(1) by (intro exI [of _ "es @ fs"]) simp
  qed
qed

lemmas closing_bind = closing_does [where Q = "\<lambda>_. True"]

lemma closing_reboot: "closing True (tell Reboot)"
  by (auto simp: closing_def tell_def)

lemma closing_control:
  "(c \<Longrightarrow> closing b m) \<Longrightarrow> (\<not> c \<Longrightarrow> closing b m') \<Longrightarrow> closing b (if c then m else m')"
  "(x = None \<Longrightarrow> closing b m) \<Longrightarrow> (\<And>a. x = Some a \<Longrightarrow> closing b (g a)) \<Longrightarrow> closing b (case x of None \<Rightarrow> m | Some a \<Rightarrow> g a)"
  "(\<And>a c. y = (a, c) \<Longrightarrow> closing b (h a c)) \<Longrightarrow> closing b (case y of (a, c) \<Rightarrow> h a c)"
  by (auto split: option.split prod.split)

lemma inhibitors_quiet:
  assumes P: "harmless P"
  shows "quiet.keeps P (check_sd_inhibitor_locks w)"
  unfolding check_sd_inhibitor_locks_def Let_def
  by (intro quiet_rules) (auto simp: harmless_events [OF P] split: list.split intro!: quiet_rules)

lemma closing_reboot_if: "closing c (reboot_if w c)"
proof (cases c)
  case True
  then show ?thesis
    unfolding reboot_if_def whenP_def
    by (simp add: closing_bind [OF inhibitors_quiet [OF no_reboot_harmless] closing_reboot])
qed (auto simp: reboot_if_def whenP_def intro!: closing_quiet quiet.does_return)

lemma deploy_no_reboot: "quiet.keeps no_reboot (rpmostree_sysroot_upgrader_deploy w u)"
  by (rule quiet_mono [OF upgrader_deploy_quiet]) (auto simp: deploys_for_def Let_def)

section \<open>Transactions that write no deployment\<close>

lemma follow_steps_quiet:
  assumes P: "harmless P"
  shows "quiet.keeps P (change_origin_refspec w options origin refspec)" "quiet.keeps P (apply_revision_override w origin skip rev1)"
proof -
  note e = harmless_events [OF P]
  show "quiet.keeps P (change_origin_refspec w options origin refspec)"
    unfolding change_origin_refspec_def Let_def
    by (intro quiet_rules quiet_lift) (auto simp: e split: RefspecType.split prod.split intro!: quiet_rules)
  have look: "quiet.keeps P (rpmostreed_repo_pull_ancestry w refspec visitor closure)" for refspec and visitor :: "'c visitor" and closure
    unfolding rpmostreed_repo_pull_ancestry_def by (intro quiet_rules pull_passes_quiet P) simp
  show "quiet.keeps P (apply_revision_override w origin skip rev1)"
    unfolding apply_revision_override_def rpmostreed_repo_lookup_version_def rpmostreed_repo_lookup_checksum_def
    by (intro quiet_rules quiet_lift look) (auto simp: e split: RefspecType.split ParsedRevisionKind.split intro!: quiet_rules look)
qed

lemma package_diff_quiet:
  assumes P: "harmless P"
  shows "quiet.keeps P (package_diff_transaction_execute w osname refspec revision)"
  unfolding package_diff_transaction_execute_def Let_def
  by (intro quiet_rules upgrader_new_quiet follow_steps_quiet pull_base_quiet update_variant_quiet P)
    (simp_all add: harmless_events [OF P])

lemma metadata_quiet:
  assumes P: "harmless P"
  shows "quiet.keeps P (refresh_md_transaction_execute w filelists osname flags)"
    "quiet.keeps P (modify_yum_repo_transaction_execute w osname repo_id settings)"
proof -
  note e = harmless_events [OF P]
  have root: "quiet.keeps P (rpmostree_get_deployment_root d)" for d
    unfolding rpmostree_get_deployment_root_def by (intro quiet_rules) simp_all
  have configure: "quiet.keeps P (rpmostree_context_configure_from_deployment d)" for d
    unfolding rpmostree_context_configure_from_deployment_def by (intro quiet_rules root) (simp_all add: e)
  have data: "quiet.keeps P (set_repo_data w repo settings)" for repo
    by (induction w repo settings rule: set_repo_data.induct)
      (simp_all only: set_repo_data.simps, (intro quiet_rules; simp add: e)+)
  show "quiet.keeps P (refresh_md_transaction_execute w filelists osname flags)"
    unfolding refresh_md_transaction_execute_def Let_def by (intro quiet_rules root configure) (simp_all add: e)
  show "quiet.keeps P (modify_yum_repo_transaction_execute w osname repo_id settings)"
    unfolding modify_yum_repo_transaction_execute_def by (intro quiet_rules configure data) (simp_all add: e)
qed

lemma bump_mtime_quiet: "harmless P \<Longrightarrow> quiet.keeps P (rpmostree_syscore_bump_mtime w)"
  unfolding rpmostree_syscore_bump_mtime_def by (intro quiet_rules) (simp_all add: harmless_events)

lemma quiet_after:
  assumes m: "quiet.does P m Q" and n: "quiet.keeps P n"
  shows "extends P s (snd (n (snd (m s))))" "extends P s (snd (m s))"
  using quiet.doesD(1) [OF m, of s] quiet.doesD(1) [OF n, of "snd (m s)"] quiet.trans by (metis prod.collapse)+

lemma quiet_ignoring: "quiet.keeps P m \<Longrightarrow> quiet.keeps P (ignoring m)"
  by (simp add: quiet.does_def ignoring_def)

lemma livefs_quiet:
  assumes P: "harmless P"
  shows "quiet.keeps P (livefs_transaction_execute w)"
proof (rule quiet.doesI)
  fix s r s'
  assume run: "livefs_transaction_execute w s = (r, s')"
  let ?m = "perform w (Call ''transaction_apply_live'' [])" and ?n = "rpmostree_syscore_bump_mtime w"
  have "quiet.keeps P ?m" by (intro quiet_rules) (simp_all add: harmless_events [OF P])
  from quiet_after(1) [OF this bump_mtime_quiet [OF P]] have "extends P s (snd (?n (snd (?m s))))" .
  moreover have "s' = snd (?n (snd (?m s)))"
    using run by (auto simp: livefs_transaction_execute_def split: prod.splits sum.splits)
  ultimately show "extends P s s' \<and> (False \<longrightarrow> safe r) \<and> (\<forall>a. r = Inr a \<longrightarrow> True)" by simp
qed

lemma container_query_quiet:
  assumes P: "harmless P"
  shows "quiet.keeps P (query_container_image_commit w checksum)"
proof -
  have "quiet.keeps P (ask w (Call ''query_container_image_commit'' [checksum]) (w_str w))"
    by (intro quiet_rules) (simp_all add: harmless_events [OF P])
  then show ?thesis
    by (auto simp: quiet.does_def query_container_image_commit_def split: prod.splits sum.splits) (metis snd_conv)+
qed

text \<open>The steps of a finalization before it reboots.\<close>

lemma finalize_closing: "closing True (finalize_deployment_transaction_execute w osname options)"
proof -
  note P = no_reboot_harmless
  note e = harmless_events [OF P]
  show ?thesis
    unfolding finalize_deployment_transaction_execute_def
    by (intro closing_bind closing_control(3) closing_reboot container_query_quiet inhibitors_quiet quiet_ignoring bump_mtime_quiet P
        quiet_rules quiet_lift) (simp_all add: e)
qed

lemma finalize_writes_nothing:
  "quiet.keeps (\<lambda>e. \<not> writes_deployments e) (finalize_deployment_transaction_execute w osname options)"
proof -
  have P: "harmless (\<lambda>e. \<not> writes_deployments e)" by (simp add: harmless_def)
  show ?thesis
    unfolding finalize_deployment_transaction_execute_def
    by (intro quiet_rules quiet_lift container_query_quiet inhibitors_quiet quiet_ignoring bump_mtime_quiet P) simp_all
qed

text \<open>The kinds of transactions that can change the deployments.\<close>

fun deploying :: "txn_kind \<Rightarrow> bool" where
  "deploying (PackageDiff _ _) = False"
| "deploying (RefreshMd _) = False"
| "deploying (ModifyYumRepo _ _) = False"
| "deploying (FinalizeDeployment _) = False"
| "deploying (ApplyLive _) = False"
| "deploying _ = True"

text \<open>
  C17: looking for updates, refreshing metadata, changing a repository, finalizing and applying live never write a deployment,
  whatever fails: the sysroot is the same afterwards.
\<close>

theorem other_kinds_write_nothing:
  assumes "\<not> deploying kind" "class_execute w ops filelists osname agent unit kind s = (r, s')"
  shows "sysroot s' = sysroot s \<and> (\<exists>es. history s' = history s @ es \<and> list_all (\<lambda>e. \<not> writes_deployments e) es)"
proof -
  let ?P = "\<lambda>e. \<not> writes_deployments e"
  have P: "harmless ?P" by (simp add: harmless_def)
  have "quiet.keeps ?P (class_execute w ops filelists osname agent unit kind)"
    using assms(1) package_diff_quiet [OF P] metadata_quiet [OF P] livefs_quiet [OF P] finalize_writes_nothing
    by (cases kind) (simp_all add: class_execute_def)
  from quiet.doesD(1) [OF this assms(2)] show ?thesis
    by (auto simp: extends_def list_all_iff list_ex_iff)
qed

section \<open>Reboots of all kinds of transactions\<close>

lemma rollback_closing: "closing reboot (rollback_transaction_execute w osname reboot)"
  unfolding rollback_transaction_execute_def Let_def
  by (intro closing_bind closing_reboot_if quiet_rules quiet_lift) simp_all

lemma upgrader_new_no_reboot: "quiet.keeps no_reboot (rpmostree_sysroot_upgrader_new w osname flags)"
  by (rule upgrader_new_quiet [OF no_reboot_harmless])

lemma closing_message: "closing b (tell (Call f values))"
  by (rule closing_quiet, intro quiet_rules) simp_all

lemma initramfs_closing:
  "closing (caller_option c ''reboot'') (initramfs_etc_transaction_execute w c track untrack untrack_all force_sync)"
  "closing (caller_option c ''reboot'') (initramfs_state_transaction_execute w c regenerate_it new_args)"
  unfolding initramfs_etc_transaction_execute_def initramfs_state_transaction_execute_def Let_def
  by (intro closing_bind upgrader_new_no_reboot closing_control closing_message closing_reboot_if deploy_no_reboot quiet_lift
      closing_quiet [OF quiet.does_throw]; simp)+

lemma kernel_arg_closing: "closing (caller_option c ''reboot'') (kernel_arg_transaction_execute w ops c self)"
proof -
  have "closing (caller_option c ''reboot'') (kernel_arg_apply w ops c u kargs changed)" for u kargs changed
    unfolding kernel_arg_apply_def
    by (intro closing_bind closing_control closing_message closing_reboot_if deploy_no_reboot)
  then show ?thesis
    unfolding kernel_arg_transaction_execute_def kernel_arg_apply_final_str_def kernel_arg_apply_patching_def Let_def
    by (intro closing_bind upgrader_new_no_reboot closing_control quiet_lift)
qed

lemma cleanup_no_reboot: "quiet.keeps no_reboot (cleanup_transaction_execute w osname flags)"
  unfolding cleanup_transaction_execute_def remove_directory_content_if_exists_def Let_def
  by (intro quiet_rules quiet.does_fold) simp_all

text \<open>When a deploy transaction may reboot.\<close>

abbreviation deploy_reboots :: "deploy_request \<Rightarrow> bool" where
  "deploy_reboots t \<equiv> option_set t ''reboot'' \<and> \<not> option_set t ''apply-live''"

lemma deploy_layer_closing: "closing (deploy_reboots t) (deploy_layer w t p u refspec old skip changed kind origin)"
proof -
  note P = no_reboot_harmless
  note e = harmless_events [OF P]
  have reboot: "closing (deploy_reboots t) (if option_set t ''apply-live'' then perform w (Call ''transaction_apply_live'' [])
      else reboot_if w (option_set t ''reboot''))"
    using closing_reboot_if [of "option_set t ''reboot''" w] by (auto intro!: closing_quiet quiet_rules)
  have "closing (deploy_reboots t) (deploy_write w t p v refspec old)" for v
    unfolding deploy_write_def
    by (intro closing_bind closing_control(3) reboot deploy_no_reboot quiet_rules update_variant_quiet P)
  then show ?thesis
    unfolding deploy_layer_def deploy_unchanged_def Let_def
    by (intro closing_bind closing_control closing_message assembly_quiet P quiet_rules closing_quiet [OF quiet.does_return] TrueI)
qed

lemma deploy_closing: "closing (deploy_reboots t) (deploy_transaction_execute w t)"
proof -
  note P = no_reboot_harmless
  note e = harmless_events [OF P]
  show ?thesis
    unfolding deploy_transaction_execute_def Let_def
    by (intro closing_bind closing_control deploy_layer_closing closing_quiet [OF update_variant_quiet(2)]
        closing_quiet [OF quiet.does_return] quiet_lift update_variant_quiet(4) prepare_quiet P quiet.does_assert quiet_calls e TrueI; simp)
qed

fun may_reboot :: "txn_kind \<Rightarrow> bool" where
  "may_reboot (Rollback reboot) = reboot"
| "may_reboot (Deploy _ options _ _) = (vardict_lookup_bool options ''reboot'' False \<and> \<not> vardict_lookup_bool options ''apply-live'' False)"
| "may_reboot (InitramfsEtc _ _ _ _ options) = vardict_lookup_bool options ''reboot'' False"
| "may_reboot (InitramfsState _ _ options) = vardict_lookup_bool options ''reboot'' False"
| "may_reboot (KernelArg _ _ _ _ options) = vardict_lookup_bool options ''reboot'' False"
| "may_reboot (FinalizeDeployment _) = True"
| "may_reboot _ = False"

lemma class_execute_closing: "closing (may_reboot kind) (class_execute w ops filelists osname agent unit kind)"
proof (cases kind)
  case (Deploy flags options modifiers fds)
  then show ?thesis
    using deploy_closing [of "\<lparr>dr_osname = osname, dr_flags = flags, dr_options = options, dr_modifiers = modifiers, dr_fds = fds,
      dr_agent_id = agent, dr_sd_unit = unit\<rparr>" w] by (simp add: class_execute_def)
next
  case (InitramfsEtc track untrack untrack_all force_sync options)
  then show ?thesis
    using initramfs_closing(1) [of "\<lparr>cl_osname = osname, cl_agent_id = agent, cl_sd_unit = unit, cl_options = options\<rparr>" w]
    by (simp add: class_execute_def)
next
  case (InitramfsState regenerate_it new_args options)
  then show ?thesis
    using initramfs_closing(2) [of "\<lparr>cl_osname = osname, cl_agent_id = agent, cl_sd_unit = unit, cl_options = options\<rparr>" w]
    by (simp add: class_execute_def)
next
  case (KernelArg existing added replaced deleted options)
  then show ?thesis
    using kernel_arg_closing [of "\<lparr>cl_osname = osname, cl_agent_id = agent, cl_sd_unit = unit, cl_options = options\<rparr>" w]
    by (simp add: class_execute_def)
qed (simp_all add: class_execute_def rollback_closing finalize_closing closing_quiet cleanup_no_reboot
    package_diff_quiet metadata_quiet livefs_quiet no_reboot_harmless)

text \<open>
  C3: a transaction asks for a reboot at most once, as the last thing before it succeeds, and only if its caller asked for
  it or it finalizes a deployment. A transaction that fails has not asked for one.
\<close>

theorem transactions_reboot_last:
  assumes "class_execute w ops filelists osname agent unit kind s = (r, s')"
  shows "\<exists>es. history s' = history s @ es \<and>
    (Reboot \<notin> set es \<or> may_reboot kind \<and> r = Inr () \<and> (\<exists>fs. es = fs @ [Reboot] \<and> Reboot \<notin> set fs))"
  using class_execute_closing assms unfolding closing_def by (metis (full_types) old.unit.exhaust)

section \<open>Rollback\<close>

lemma check_locks_events:
  assumes "check_sd_inhibitor_locks w s = (r, s')"
  shows "\<exists>es. history s' = history s @ es \<and> filter writes_deployments es = []"
proof -
  have "quiet.keeps (\<lambda>e. \<not> writes_deployments e) (check_sd_inhibitor_locks w)"
    by (rule inhibitors_quiet) (simp add: harmless_def)
  from quiet.doesD(1) [OF this assms] show ?thesis by (auto simp: extends_def list_all_iff filter_empty_conv)
qed

lemma reboot_if_events:
  assumes "reboot_if w b s = (r, s')"
  shows "\<exists>es. history s' = history s @ es \<and> filter writes_deployments es = []"
proof -
  have "quiet.keeps (\<lambda>e. \<not> writes_deployments e) (reboot_if w b)"
    unfolding reboot_if_def by (intro quiet_rules inhibitors_quiet) (simp_all add: harmless_def)
  from quiet.doesD(1) [OF this assms] show ?thesis by (auto simp: extends_def list_all_iff filter_empty_conv)
qed

lemma reordered_mset:
  assumes "sorted_wrt (\<lambda>a b. \<not> ostree_deployment_equal a b) ds" "d \<in> set ds"
  shows "mset (reordered d ds) = mset ds"
  using assms
proof (induction ds)
  case (Cons x ds)
  have sym: "ostree_deployment_equal a b = ostree_deployment_equal b a" for a b
    by (auto simp: ostree_deployment_equal_def)
  show ?case
  proof (cases "x = d")
    case True
    then have "filter (\<lambda>y. \<not> ostree_deployment_equal y d) ds = ds"
      using Cons.prems(1) sym by (auto simp: filter_id_conv)
    with True show ?thesis by (simp add: reordered_def ostree_deployment_equal_def)
  next
    case False
    with Cons.prems have "d \<in> set ds" "\<not> ostree_deployment_equal x d" by auto
    with Cons.IH Cons.prems(1) show ?thesis by (simp add: reordered_def)
  qed
qed simp

text \<open>
  C15: a rollback. If there is no deployment to go back to, or a staged one, it fails and does nothing. Otherwise it writes
  the list of deployments at most once, namely the same deployments with the chosen one first and the others in their
  order, and only if that one is not first already. The deployments of a sysroot are different from each other, and
  libostree chooses among them.
\<close>

theorem rollback_reorders:
  assumes "rollback_transaction_execute w osname reboot s = (r, s')"
    and "sorted_wrt (\<lambda>a b. \<not> ostree_deployment_equal a b) (sr_deployments (sysroot s))"
    and "\<And>d. rollback_target w (sysroot s) osname = Inr d \<Longrightarrow> d \<in> set (sr_deployments (sysroot s))"
  shows "case rollback_target w (sysroot s) osname of
      Inl e \<Rightarrow> r = Inl e \<and> s' = s
    | Inr d \<Rightarrow>
        let new = reordered d (sr_deployments (sysroot s))
        in (\<exists>es. history s' = history s @ es \<and> filter writes_deployments es =
              (if ostree_deployment_equal (hd (sr_deployments (sysroot s))) d then [] else [Write_deployments new True])) \<and>
           hd new = d \<and> mset new = mset (sr_deployments (sysroot s)) \<and> subseq (tl new) (sr_deployments (sysroot s))"
proof (cases "rollback_target w (sysroot s) osname")
  case (Inl e)
  then show ?thesis using assms(1) by (simp add: rollback_transaction_execute_def)
next
  case (Inr d)
  let ?ds = "sr_deployments (sysroot s)" and ?new = "reordered d (sr_deployments (sysroot s))"
  let ?first = "ostree_deployment_equal (hd ?ds) d"
  define s1 where "s1 = s\<lparr>history := history s @ [Message (''Moving '%s.%d' to be first deployment'') [d_csum d, show_nat (d_deployserial d)]]\<rparr>"
  have d: "d \<in> set ?ds" by (rule assms(3) [OF Inr])
  then have ne: "?ds \<noteq> []" by auto
  have run: "bindP (whenP (\<not> ?first) (ask_sysroot w (Write_deployments ?new True) (\<lambda>_. ()))) (\<lambda>_. reboot_if w reboot) s1 = (r, s')"
    using assms(1) Inr ne by (simp add: rollback_transaction_execute_def Let_def s1_def)
  have "\<exists>es. history s' = history s1 @ es \<and> filter writes_deployments es = (if ?first then [] else [Write_deployments ?new True])"
  proof (cases ?first)
    case True
    with run show ?thesis using reboot_if_events by (fastforce simp: whenP_def)
  next
    case False
    obtain r2 s2 where w: "ask_sysroot w (Write_deployments ?new True) (\<lambda>_. ()) s1 = (r2, s2)" by fastforce
    then have s2: "history s2 = history s1 @ [Write_deployments ?new True]"
      by (auto simp: call_defs split: option.splits)
    from run False w have "(case r2 of Inl e \<Rightarrow> (Inl e, s2) | Inr a \<Rightarrow> reboot_if w reboot s2) = (r, s')"
      by (simp add: whenP_def bindP_def)
    then have "\<exists>es. history s' = history s2 @ es \<and> filter writes_deployments es = []"
      using reboot_if_events by (fastforce split: sum.splits)
    then obtain es where "history s' = history s2 @ es" "filter writes_deployments es = []" by blast
    with s2 False show ?thesis by (intro exI [of _ "Write_deployments ?new True # es"]) simp
  qed
  then obtain es where "history s' = history s1 @ es"
    "filter writes_deployments es = (if ?first then [] else [Write_deployments ?new True])" by blast
  then have "\<exists>es. history s' = history s @ es \<and> filter writes_deployments es = (if ?first then [] else [Write_deployments ?new True])"
    unfolding s1_def
    by (intro exI [of _ "Message (''Moving '%s.%d' to be first deployment'') [d_csum d, show_nat (d_deployserial d)] # es"]) simp
  moreover have "hd ?new = d" "subseq (tl ?new) ?ds" by (simp_all add: reordered_def)
  ultimately show ?thesis
    using reordered_mset [OF assms(2) d] unfolding Inr sum.case Let_def by blast
qed

section \<open>Finalization\<close>

text \<open>The checksum that finalization looks at: that of the base of the staged deployment, or of the container image it came from.\<close>

lemma queried_checksum:
  assumes "ask w (On_deployment ''deployment_layeredmeta_load'' d) (w_layered w) s = (Inr (meta, x), s1)"
    and "query_container_image_commit w (base_commit meta) s1 = (Inr checksum, s2)"
  shows "\<exists>h. checksum = base_commit (fst (w_layered w h)) \<or> checksum = w_str w h"
proof -
  have "meta = fst (w_layered w (history s @ [On_deployment ''deployment_layeredmeta_load'' d]))"
    using assms(1) by (auto simp: call_defs split: option.splits)
  moreover have "checksum = base_commit meta \<or> (\<exists>h. checksum = w_str w h)"
    using assms(2) by (auto simp: query_container_image_commit_def call_defs split: option.splits)
  ultimately show ?thesis by blast
qed


section \<open>Kernel arguments\<close>

text \<open>The arguments that a request asks for, and whether they count as changed.\<close>

definition kargs_plan :: "'k OstreeKernelArgs \<Rightarrow> caller \<Rightarrow> kernel_arg_request \<Rightarrow> ('k \<times> bool) result" where
  "kargs_plan ops c self =
     (case lookup_s (cl_options c) ''final-kernel-args'' of
        Some final \<Rightarrow> Inr (from_string ops final, ka_existing self \<noteq> final)
      | None \<Rightarrow> patch_kargs ops self (vardict_lookup_strv_canonical (cl_options c) ''append-if-missing'')
          (vardict_lookup_strv_canonical (cl_options c) ''delete-if-present'') (from_string ops (ka_existing self)))"

definition stages_kargs :: "caller \<Rightarrow> string list \<Rightarrow> io \<Rightarrow> bool" where
  "stages_kargs c kargs e =
     (let wanted = (\<lambda>osname opts. osname = cl_osname c \<and> do_kargs opts = kargs \<and> do_locked opts = caller_option c ''lock-finalization'')
      in case e of
           Stage_tree osname rev1 origin merge opts \<Rightarrow> wanted osname opts
         | Deploy_tree osname rev1 origin merge opts \<Rightarrow> wanted osname opts
         | Write_deployments _ _ \<Rightarrow> False
         | _ \<Rightarrow> True)"

abbreviation kargs_flags :: "caller \<Rightarrow> u32" where
  "kargs_flags c \<equiv> RPMOSTREE_SYSROOT_UPGRADER_FLAGS_SYNTHETIC_PULL OR RPMOSTREE_SYSROOT_UPGRADER_FLAGS_PKGCACHE_ONLY OR lock_flag c"

lemma kargs_locked: "has_flag (kargs_flags c) RPMOSTREE_SYSROOT_UPGRADER_FLAGS_LOCK_FINALIZATION = caller_option c ''lock-finalization''"
  using has_flag_bit [of 6 "kargs_flags c"] by (simp add: bit_simps)

lemma kernel_arg_apply_stages:
  assumes u: "u_osname u = cl_osname c" "u_flags u = kargs_flags c"
    and P: "harmless P" "P Reboot" "\<And>e. changed \<Longrightarrow> stages_kargs c (to_strv ops kargs) e \<Longrightarrow> P e"
  shows "quiet.keeps P (kernel_arg_apply w ops c (set_caller c u) kargs changed)"
proof -
  let ?u = "rpmostree_sysroot_upgrader_set_kargs (set_caller c u) (to_strv ops kargs)"
  have "deploys_for w ?u e \<Longrightarrow> stages_kargs c (to_strv ops kargs) e" for e
    using u kargs_locked [of c]
    by (auto simp: deploys_for_def stages_kargs_def Let_def kargs_to_deploy_def rpmostree_sysroot_upgrader_set_kargs_def set_caller_def
        rpmostree_sysroot_upgrader_set_caller_info_def split: io.splits)
  then have "quiet.keeps P (rpmostree_sysroot_upgrader_deploy w ?u)" if changed
    using P(3) [OF that] by (intro quiet_mono [OF upgrader_deploy_quiet]) blast
  then show ?thesis
    unfolding kernel_arg_apply_def reboot_if_def
    by (intro quiet_rules inhibitors_quiet P(1,2)) (simp_all add: harmless_events [OF P(1)])
qed

lemma upgrader_new_job:
  "yields.does (rpmostree_sysroot_upgrader_new w (Some osname) flags) (\<lambda>u. u_osname u = osname \<and> u_flags u = flags)"
proof (cases "osname = []")
  case True
  show ?thesis
    unfolding rpmostree_sysroot_upgrader_new_def
    by (rule yields.keeps_bind [OF yields_any]) (simp add: True yields.does_throw)
next
  case False
  then have n: "(if osname = [] then throw e else return osname) = return osname" for e by simp
  show ?thesis
    unfolding rpmostree_sysroot_upgrader_new_def option.case n program_simps(1)
    by (intro yields.keeps_bind [OF yields_any] yields.does_prod yields.does_option yields.does_throw yields.does_return) simp_all
qed

text \<open>
  C16: a request for kernel arguments stages exactly the arguments it computes, for its OS and locked if asked for. If nothing changes or an
  argument cannot be edited, no deployment is written.
\<close>

theorem kernel_args_staged:
  assumes "kernel_arg_transaction_execute w ops c self s = (r, s')"
  shows "\<exists>es. history s' = history s @ es \<and>
    (case kargs_plan ops c self of
       Inr (kargs, True) \<Rightarrow> list_all (stages_kargs c (to_strv ops kargs)) es
     | _ \<Rightarrow> list_all (\<lambda>e. \<not> writes_deployments e) es)"
proof -
  let ?P = "case kargs_plan ops c self of Inr (kargs, True) \<Rightarrow> stages_kargs c (to_strv ops kargs) | _ \<Rightarrow> (\<lambda>e. \<not> writes_deployments e)"
  have P: "harmless ?P" "?P Reboot"
    by (auto simp: harmless_def stages_kargs_def split: sum.split bool.split io.split)
  have plan: "?P e" if "kargs_plan ops c self = Inr (kargs, changed)" "changed" "stages_kargs c (to_strv ops kargs) e" for kargs changed e
    using that by simp
  have "quiet.keeps ?P (case lookup_s (cl_options c) ''final-kernel-args'' of
      Some final \<Rightarrow> kernel_arg_apply_final_str w ops c self (set_caller c u) final
    | None \<Rightarrow> kernel_arg_apply_patching w ops c self (set_caller c u) (from_string ops (ka_existing self)))"
    if "u_osname u = cl_osname c \<and> u_flags u = kargs_flags c" for u
  proof (cases "lookup_s (cl_options c) ''final-kernel-args''")
    case None
    then show ?thesis
      unfolding None option.case kernel_arg_apply_patching_def
      by (intro quiet.does_bind [where Q' = "\<lambda>(kargs, changed). kargs_plan ops c self = Inr (kargs, changed)"] quiet.does_lift
          quiet.does_prod kernel_arg_apply_stages P plan) (use that None in \<open>auto simp: kargs_plan_def\<close>)
  next
    case (Some final)
    then show ?thesis
      unfolding Some option.case kernel_arg_apply_final_str_def
      by (intro kernel_arg_apply_stages P plan) (use that Some in \<open>simp_all add: kargs_plan_def\<close>)
  qed
  then have "quiet.keeps ?P (kernel_arg_transaction_execute w ops c self)"
    unfolding kernel_arg_transaction_execute_def Let_def
    by (rule quiet.does_bind [OF quiet_value [OF upgrader_new_quiet [OF P(1)] upgrader_new_job]])
  from quiet.doesD(1) [OF this assms] show ?thesis
    by (auto simp: extends_def split: sum.splits bool.splits)
qed

text \<open>An edit that changes nothing says so, and the other way round.\<close>

lemma edit_each_changed: "edit_each f xs (k, changed) = Inr (k', changed') \<Longrightarrow> changed' = (changed \<or> xs \<noteq> []) \<and> (xs = [] \<longrightarrow> k' = k)"
  by (induction xs arbitrary: k changed) (auto simp: bindR_Inr_iff)

lemma append_missing_changed: "append_missing ops xs (k, changed) = (k', False) \<Longrightarrow> k' = k \<and> \<not> changed"
proof (induction xs arbitrary: k changed)
  case (Cons x xs)
  show ?case
  proof (cases "x \<in> set (to_strv ops k)")
    case True
    with Cons.prems have "append_missing ops xs (k, changed) = (k', False)" by simp
    then show ?thesis by (rule Cons.IH)
  next
    case False
    with Cons.prems have "append_missing ops xs (kargs_append ops k x, True) = (k', False)" by simp
    from Cons.IH [OF this] show ?thesis by simp
  qed
qed simp

lemma patch_unchanged:
  assumes "patch_kargs ops self a d k = Inr (k', False)"
  shows "k' = k"
proof -
  let ?present = "\<lambda>arg. arg \<in> set (to_strv ops (from_string ops (ka_existing self)))"
  from assms obtain k1 c1 where 1: "edit_each (kargs_delete ops) (unwrap (ka_deleted self)) (k, False) = Inr (k1, c1)"
    by (auto simp: patch_kargs_def Let_def bindR_Inr_iff)
  with assms obtain k2 c2 where 2: "edit_each (kargs_new_replace ops) (unwrap (ka_replaced self)) (k1, c1) = Inr (k2, c2)"
    by (auto simp: patch_kargs_def Let_def bindR_Inr_iff)
  define st where "st = (case ka_added self of Some added \<Rightarrow> (kargs_append_argv ops k2 added, True) | None \<Rightarrow> (k2, c2))"
  obtain k3 c3 where 3: "append_missing ops (unwrap a) st = (k3, c3)" by fastforce
  have 4: "edit_each (kargs_delete ops) (filter ?present (unwrap d)) (k3, c3) = Inr (k', False)"
    using assms by (simp add: patch_kargs_def Let_def bindR_Inr_iff 1 2 st_def [symmetric] 3)
  from edit_each_changed [OF 4] have k3: "k' = k3" "\<not> c3" by auto
  from 3 k3(2) obtain k4 c4 where st: "st = (k4, c4)" "k3 = k4" "\<not> c4"
    using append_missing_changed by (metis surj_pair)
  then have "k4 = k2" "\<not> c2" "ka_added self = None" by (auto simp: st_def split: option.splits)
  with edit_each_changed [OF 1] edit_each_changed [OF 2] st k3 show ?thesis by simp
qed

lemma append_missing_appends:
  assumes "\<And>k a. set (to_strv ops (kargs_append ops k a)) = insert a (set (to_strv ops k))"
    and "append_missing ops xs (k, changed) = (k', changed')"
  shows "set (to_strv ops k') = set (to_strv ops k) \<union> set xs \<and> changed' = (changed \<or> \<not> set xs \<subseteq> set (to_strv ops k))"
  using assms(2)
proof (induction xs arbitrary: k changed)
  case (Cons x xs)
  show ?case
  proof (cases "x \<in> set (to_strv ops k)")
    case True
    with Cons.prems have "append_missing ops xs (k, changed) = (k', changed')" by simp
    from Cons.IH [OF this] True show ?thesis by auto
  next
    case False
    with Cons.prems have "append_missing ops xs (kargs_append ops k x, True) = (k', changed')" by simp
    from Cons.IH [OF this] False show ?thesis by (auto simp: assms(1))
  qed
qed simp

lemma append_missing_present: "set xs \<subseteq> set (to_strv ops k) \<Longrightarrow> append_missing ops xs (k, changed) = (k, changed)"
  by (induction xs arbitrary: changed) auto

text \<open>A request that only appends what is missing.\<close>

definition appends_only :: "kernel_arg_request \<Rightarrow> bool" where
  "appends_only self \<longleftrightarrow> ka_added self = None \<and> ka_replaced self = None \<and> ka_deleted self = None"

text \<open>
  Appending arguments if they are missing is idempotent. Afterwards the arguments are the old ones and the given ones, the request counts
  as a change exactly if one was missing, and the same request on the result changes nothing. Appending an argument to a
  list of arguments is taken to add it and nothing else.
\<close>

theorem append_if_missing_idempotent:
  assumes "\<And>k a. set (to_strv ops (kargs_append ops k a)) = insert a (set (to_strv ops k))"
    and "appends_only self" "appends_only again"
  shows "\<exists>k' changed. patch_kargs ops self (Some xs) None k = Inr (k', changed) \<and>
    set (to_strv ops k') = set (to_strv ops k) \<union> set xs \<and> changed = (\<not> set xs \<subseteq> set (to_strv ops k)) \<and>
    patch_kargs ops again (Some xs) None k' = Inr (k', False)"
proof -
  obtain k' changed where a: "append_missing ops xs (k, False) = (k', changed)" by fastforce
  note set = append_missing_appends [OF assms(1) a]
  have p: "patch_kargs ops x (Some xs) None k = Inr (append_missing ops xs (k, False))" if "appends_only x" for x k
    using that by (cases "append_missing ops xs (k, False)") (simp add: patch_kargs_def appends_only_def Let_def)
  have "append_missing ops xs (k', False) = (k', False)"
    by (rule append_missing_present) (simp add: set)
  with p [OF assms(2)] p [OF assms(3)] a set show ?thesis by auto
qed

text \<open>
  An argument cannot be given both for deletion and for deletion if present: it is looked up in the arguments from before
  the deletion, so it is deleted a second time, and the request fails although the argument is gone.
\<close>

theorem delete_if_present_after_delete:
  assumes "kargs_delete ops (from_string ops (ka_existing self)) arg = Inr k'" "kargs_delete ops k' arg = Inl e"
    and "arg \<in> set (to_strv ops (from_string ops (ka_existing self)))"
    and "ka_deleted self = Some [arg]" "ka_added self = None" "ka_replaced self = None"
  shows "patch_kargs ops self None (Some [arg]) (from_string ops (ka_existing self)) = Inl e"
  using assms by (simp add: patch_kargs_def Let_def)

section \<open>Examples\<close>

definition list_kargs :: "string list OstreeKernelArgs" where
  "list_kargs = \<lparr>from_string = (\<lambda>s. [s]), to_strv = (\<lambda>k. k),
     kargs_delete = (\<lambda>k a. if a \<in> set k then Inr (remove1 a k) else Inl (Throw ''No key found'' [a])),
     kargs_new_replace = (\<lambda>k a. Inr (k @ [a])), kargs_append = (\<lambda>k a. k @ [a]), kargs_append_argv = (\<lambda>k as. k @ as)\<rparr>"

definition demo_caller :: "vardict \<Rightarrow> caller" where
  "demo_caller options = \<lparr>cl_osname = ''fedora'', cl_agent_id = None, cl_sd_unit = None, cl_options = options\<rparr>"

definition append_quiet :: kernel_arg_request where
  "append_quiet = \<lparr>ka_existing = ''ro'', ka_added = Some [''quiet''], ka_replaced = None, ka_deleted = None\<rparr>"

theorem other_kinds_write_nothing_witness:
  "sysroot (snd (class_execute calm_world list_kargs None ''fedora'' None None (RefreshMd 0) demo_worker)) = demo_sysroot"
  using other_kinds_write_nothing [of "RefreshMd 0" calm_world list_kargs None "''fedora''" None None demo_worker
      "fst (class_execute calm_world list_kargs None ''fedora'' None None (RefreshMd 0) demo_worker)"
      "snd (class_execute calm_world list_kargs None ''fedora'' None None (RefreshMd 0) demo_worker)"]
  by (simp add: demo_worker_def)

theorem transactions_reboot_last_witness:
  "\<exists>es. history (snd (class_execute calm_world list_kargs None ''fedora'' None None (Rollback False) demo_worker)) = es \<and> Reboot \<notin> set es"
  using transactions_reboot_last [of calm_world list_kargs None "''fedora''" None None "Rollback False" demo_worker
      "fst (class_execute calm_world list_kargs None ''fedora'' None None (Rollback False) demo_worker)"
      "snd (class_execute calm_world list_kargs None ''fedora'' None None (Rollback False) demo_worker)"]
  by (simp add: demo_worker_def)

theorem rollback_reorders_witness:
  "\<exists>es. history (snd (rollback_transaction_execute quiet_world ''fedora'' False demo_worker)) = es \<and>
     filter writes_deployments es = [Write_deployments [mk_deployment ''fedora'' ''a'' True, mk_deployment ''fedora'' ''c'' False,
       mk_deployment ''fedora'' ''b'' False, mk_deployment ''centos'' ''d'' False] True]"
proof -
  have target: "rollback_target quiet_world demo_sysroot ''fedora'' = Inr (mk_deployment ''fedora'' ''a'' True)"
    by (simp add: rollback_target_def calm_world_def demo_sysroot_def mk_deployment_def ostree_deployment_equal_def)
  show ?thesis
    using rollback_reorders [of quiet_world "''fedora''" False demo_worker
        "fst (rollback_transaction_execute quiet_world ''fedora'' False demo_worker)"
        "snd (rollback_transaction_execute quiet_world ''fedora'' False demo_worker)"] target
    by (simp add: demo_worker_def demo_sysroot_def mk_deployment_def ostree_deployment_equal_def reordered_def Let_def)
qed

definition staged_worker :: worker where
  "staged_worker = \<lparr>history = [], sysroot = \<lparr>sr_deployments = [(mk_deployment ''fedora'' ''c'' False)\<lparr>d_staged := True\<rparr>], sr_booted = None\<rparr>,
     repo_refs_of = demo_refs\<rparr>"


theorem kernel_args_staged_witness:
  "list_all (stages_kargs (demo_caller Map.empty) [''ro'', ''quiet''])
     (history (snd (kernel_arg_transaction_execute quiet_world list_kargs (demo_caller Map.empty) append_quiet demo_worker)))"
proof -
  have "kargs_plan list_kargs (demo_caller Map.empty) append_quiet = Inr ([''ro'', ''quiet''], True)"
    by (simp add: kargs_plan_def demo_caller_def append_quiet_def patch_kargs_def list_kargs_def lookup_s_def
        vardict_lookup_strv_canonical_def vardict_lookup_strv_def)
  then show ?thesis
    using kernel_args_staged [of quiet_world list_kargs "demo_caller Map.empty" append_quiet demo_worker
        "fst (kernel_arg_transaction_execute quiet_world list_kargs (demo_caller Map.empty) append_quiet demo_worker)"
        "snd (kernel_arg_transaction_execute quiet_world list_kargs (demo_caller Map.empty) append_quiet demo_worker)"]
    by (simp add: demo_worker_def list_kargs_def)
qed

theorem append_if_missing_idempotent_witness:
  "\<exists>k' changed. patch_kargs list_kargs (append_quiet\<lparr>ka_added := None\<rparr>) (Some [''quiet'']) None [''ro''] = Inr (k', changed) \<and>
     set k' = {''ro'', ''quiet''} \<and> changed"
  using append_if_missing_idempotent [of list_kargs "append_quiet\<lparr>ka_added := None\<rparr>" "append_quiet\<lparr>ka_added := None\<rparr>" "[''quiet'']" "[''ro'']"]
  by (auto simp: list_kargs_def append_quiet_def appends_only_def)

theorem delete_if_present_after_delete_witness:
  "patch_kargs list_kargs (append_quiet\<lparr>ka_added := None, ka_deleted := Some [''ro'']\<rparr>) None (Some [''ro'']) [''ro''] =
     Inl (Throw ''No key found'' [''ro''])"
  using delete_if_present_after_delete [of list_kargs "append_quiet\<lparr>ka_added := None, ka_deleted := Some [''ro'']\<rparr>" "''ro''" "[]"
      "Throw ''No key found'' [''ro'']"]
  by (simp add: list_kargs_def append_quiet_def)

end
