(* ===== verification/Client.thy ===== *)
theory Client
  imports Deploy_Props
begin

text \<open>
  The client library, \<^verbatim>\<open>src/src/app/rpmostree-clientlib.cxx\<close>: how the arguments of a command become the request
  \<open>UpdateDeployment\<close>, how a client follows a transaction, and when it refuses to act because another agent drives updates.
  The request is read back by the daemon in \<open>Deploy_Txn\<close>.
\<close>

section \<open>Package arguments\<close>

text \<open>
  \<open>fedora_handle\<close> is the integration with the build system, \<open>download_url\<close> and \<open>open_file\<close> give a descriptor, \<open>fd_list_append\<close> is the
  failure of duplicating one, \<open>open_dir\<close> opens a directory.
\<close>

record client_env =
  fedora_handle :: "string \<Rightarrow> bool \<Rightarrow> int list option result"
  download_url :: "string \<Rightarrow> int result"
  open_file :: "string \<Rightarrow> int result"
  open_dir :: "string \<Rightarrow> int result"
  dup_error :: "int \<Rightarrow> string option"

definition has_end :: "string \<Rightarrow> string \<Rightarrow> bool" where
  "has_end s e = has_prefix (rev s) (rev e)"

definition is_http_arg :: "string \<Rightarrow> bool" where
  "is_http_arg arg \<longleftrightarrow> has_prefix arg ''https://'' \<or> has_prefix arg ''http://''"

definition is_rpm_arg :: "string \<Rightarrow> bool" where
  "is_rpm_arg arg \<longleftrightarrow> has_end arg ''.rpm'' \<or> has_prefix arg ''file://''"

definition is_src_rpm_arg :: "string \<Rightarrow> bool" where
  "is_src_rpm_arg arg \<longleftrightarrow> has_end arg ''.src.rpm''"

definition client_handle_fd_argument :: "client_env \<Rightarrow> string \<Rightarrow> bool \<Rightarrow> int list result" where
  "client_handle_fd_argument env arg is_replace =
     prefix_error (''Handling argument '' @ arg)
       (bindR (fedora_handle env arg is_replace) (\<lambda>fds.
          case fds of
            Some fds \<Rightarrow> Inr fds
          | None \<Rightarrow>
              if is_src_rpm_arg arg
              then Inl (Throw ''%s appears to be a source RPM which are not usually intended to be installed'' [arg])
              else if is_http_arg arg then bindR (download_url env arg) (\<lambda>fd. Inr [fd])
              else if is_rpm_arg arg
              then bindR (open_file env (if has_prefix arg ''file://'' then drop 7 arg else arg)) (\<lambda>fd. Inr [fd])
              else Inr []))"

text \<open>Appending to the list of descriptors gives the index of the new one.\<close>

definition g_unix_fd_list_append :: "client_env \<Rightarrow> int list \<Rightarrow> int \<Rightarrow> (int list \<times> int) result" where
  "g_unix_fd_list_append env fd_list fd =
     (case dup_error env fd of Some e \<Rightarrow> Inl (External e) | None \<Rightarrow> Inr (fd_list @ [fd], int (length fd_list)))"

fun append_fds :: "client_env \<Rightarrow> string \<Rightarrow> int list \<Rightarrow> int list \<times> int list \<Rightarrow> (int list \<times> int list) result" where
  "append_fds env pkg [] st = Inr st"
| "append_fds env pkg (fd # fds) (fd_list, builder) =
     bindR (prefix_error (''dup('' @ pkg @ '')'') (g_unix_fd_list_append env fd_list fd)) (\<lambda>(fd_list, idx).
       append_fds env pkg fds (fd_list, builder @ [idx]))"

text \<open>Splitting package arguments into names for the repositories and descriptors of local packages.\<close>

fun sort_pkgs_loop ::
  "client_env \<Rightarrow> bool \<Rightarrow> string list \<Rightarrow> int list \<Rightarrow> string list \<Rightarrow> int list \<Rightarrow> (int list \<times> string list \<times> int list) result" where
  "sort_pkgs_loop env is_replace [] fd_list repo_pkgs builder = Inr (fd_list, repo_pkgs, builder)"
| "sort_pkgs_loop env is_replace (pkg # pkgs) fd_list repo_pkgs builder =
     bindR (client_handle_fd_argument env pkg is_replace) (\<lambda>fds.
       if fds \<noteq> []
       then bindR (append_fds env pkg fds (fd_list, builder)) (\<lambda>(fd_list, builder).
              sort_pkgs_loop env is_replace pkgs fd_list repo_pkgs builder)
       else sort_pkgs_loop env is_replace pkgs fd_list (repo_pkgs @ [pkg]) builder)"

definition rpmostree_sort_pkgs_strv ::
  "client_env \<Rightarrow> string list \<Rightarrow> int list \<Rightarrow> bool \<Rightarrow> (int list \<times> string list \<times> int list) result" where
  "rpmostree_sort_pkgs_strv env pkgs fd_list is_replace = sort_pkgs_loop env is_replace pkgs fd_list [] []"

section \<open>The request\<close>

definition vardict_insert_strv :: "vardict \<Rightarrow> string \<Rightarrow> string list option \<Rightarrow> vardict" where
  "vardict_insert_strv dict key strv = (case strv of Some (x # xs) \<Rightarrow> dict(key \<mapsto> GV_as (x # xs)) | _ \<Rightarrow> dict)"

definition vardict_sort_and_insert_pkgs ::
  "client_env \<Rightarrow> string \<Rightarrow> bool \<Rightarrow> string list option \<Rightarrow> vardict \<times> int list \<Rightarrow> (vardict \<times> int list) result" where
  "vardict_sort_and_insert_pkgs env key_prefix is_replace pkgs st =
     (case pkgs of
        None \<Rightarrow> Inr st
      | Some pkgs \<Rightarrow>
          (case st of (dict, fd_list) \<Rightarrow>
             bindR (rpmostree_sort_pkgs_strv env pkgs fd_list is_replace) (\<lambda>(fd_list, repo_pkgs, fd_idxs).
               let dict = (if repo_pkgs \<noteq> [] then dict(key_prefix @ ''-packages'' \<mapsto> GV_as repo_pkgs) else dict)
               in Inr (dict(key_prefix @ ''-local-packages'' \<mapsto> GV_ah fd_idxs), fd_list))))"

record update_args =
  ua_refspec :: "string option"
  ua_revision :: "string option"
  ua_install :: "string list option"
  ua_install_fileoverride :: "string list option"
  ua_uninstall :: "string list option"
  ua_override_replace :: "string list option"
  ua_override_remove :: "string list option"
  ua_override_reset :: "string list option"
  ua_local_repo_remote :: "string option"
  ua_treefile :: "string option"

definition insert_string :: "string \<Rightarrow> string option \<Rightarrow> vardict \<Rightarrow> vardict" where
  "insert_string key val dict = (case val of Some s \<Rightarrow> dict(key \<mapsto> GV_s s) | None \<Rightarrow> dict)"

definition insert_local_repo :: "client_env \<Rightarrow> string option \<Rightarrow> vardict \<times> int list \<Rightarrow> (vardict \<times> int list) result" where
  "insert_local_repo env local_repo_remote st =
     (case local_repo_remote of
        None \<Rightarrow> Inr st
      | Some path \<Rightarrow>
          (case st of (dict, fd_list) \<Rightarrow>
             bindR (prefix_error ''Opening local repository as remote'' (open_dir env path)) (\<lambda>repo_dfd.
             bindR (prefix_error ''Adding FD for local repository'' (g_unix_fd_list_append env fd_list repo_dfd)) (\<lambda>(fd_list, idx).
               Inr (dict(''ex-local-repo-remote'' \<mapsto> GV_h idx), fd_list)))))"

definition get_modifiers_variant :: "client_env \<Rightarrow> update_args \<Rightarrow> (vardict \<times> int list) result" where
  "get_modifiers_variant env a =
     bindR (vardict_sort_and_insert_pkgs env ''install'' False (ua_install a) (Map.empty, [])) (\<lambda>st.
     bindR (vardict_sort_and_insert_pkgs env ''install-fileoverride'' False (ua_install_fileoverride a) st) (\<lambda>st.
     bindR (vardict_sort_and_insert_pkgs env ''override-replace'' True (ua_override_replace a) st) (\<lambda>(dict, fd_list).
       let dict = insert_string ''set-refspec'' (ua_refspec a) dict;
           dict = insert_string ''set-revision'' (ua_revision a) dict;
           dict = vardict_insert_strv dict ''uninstall-packages'' (ua_uninstall a);
           dict = vardict_insert_strv dict ''override-remove-packages'' (ua_override_remove a);
           dict = vardict_insert_strv dict ''override-reset-packages'' (ua_override_reset a)
       in bindR (insert_local_repo env (ua_local_repo_remote a) (dict, fd_list)) (\<lambda>(dict, fd_list).
            Inr (insert_string ''treefile'' (ua_treefile a) dict, fd_list)))))"

text \<open>
  The call to the daemon. The bus carries a list of descriptors only when there are some.
\<close>

definition rpmostree_update_deployment ::
  "client_env \<Rightarrow> (vardict \<Rightarrow> vardict \<Rightarrow> int list option \<Rightarrow> string result) \<Rightarrow> update_args \<Rightarrow> vardict \<Rightarrow> string result" where
  "rpmostree_update_deployment env call a options =
     prefix_error ''Updating deployment''
       (bindR (prefix_error ''Preparing D-Bus arguments'' (get_modifiers_variant env a)) (\<lambda>(modifiers, fd_list).
          call modifiers options (if fd_list = [] then None else Some fd_list)))"

section \<open>Following a transaction\<close>

record TransactionProgress =
  tp_progress :: bool
  tp_error :: "string option"
  tp_quit :: bool
  tp_console :: "string list"

datatype txn_event =
    Finished_signal bool string
  | Message_signal string
  | TaskBegin string
  | TaskEnd string
  | ProgressEnd
  | PercentProgress string nat
  | DownloadProgress string
  | Owner_changed

definition transaction_progress_new :: TransactionProgress where
  "transaction_progress_new = \<lparr>tp_progress = False, tp_error = None, tp_quit = False, tp_console = []\<rparr>"

abbreviation console :: "string \<Rightarrow> TransactionProgress \<Rightarrow> TransactionProgress" where
  "console what tp \<equiv> tp\<lparr>tp_console := tp_console tp @ [what]\<rparr>"

definition console_end :: "string \<Rightarrow> TransactionProgress \<Rightarrow> TransactionProgress" where
  "console_end message tp = (if tp_progress tp then (console (''end '' @ message) tp)\<lparr>tp_progress := False\<rparr> else tp)"

definition transaction_progress_end :: "TransactionProgress \<Rightarrow> TransactionProgress" where
  "transaction_progress_end tp = (console_end [] tp)\<lparr>tp_quit := True\<rparr>"

fun on_transaction_progress :: "bool \<Rightarrow> txn_event \<Rightarrow> TransactionProgress \<Rightarrow> TransactionProgress" where
  "on_transaction_progress quiet (Finished_signal success error_message) tp =
     transaction_progress_end
       (if tp_error tp = None \<and> \<not> success then tp\<lparr>tp_error := Some error_message\<rparr> else tp)"
| "on_transaction_progress quiet Owner_changed tp =
     transaction_progress_end (tp\<lparr>tp_error := Some (''Bus owner changed, aborting. This likely means the daemon crashed; check logs with '' @
       ''`journalctl -xe`.'')\<rparr>)"
| "on_transaction_progress quiet (Message_signal message) tp = (if quiet then tp else console message tp)"
| "on_transaction_progress quiet (TaskBegin message) tp =
     (if quiet then tp else console (''begin '' @ message) (tp\<lparr>tp_progress := True\<rparr>))"
| "on_transaction_progress quiet (TaskEnd message) tp = (if quiet then tp else console_end message tp)"
| "on_transaction_progress quiet ProgressEnd tp = (if quiet then tp else console_end [] tp)"
| "on_transaction_progress quiet (PercentProgress message percentage) tp =
     (if quiet then tp
      else console (''update '' @ show_nat percentage)
             (if tp_progress tp then tp else console (''begin '' @ message) (tp\<lparr>tp_progress := True\<rparr>)))"
| "on_transaction_progress quiet (DownloadProgress line) tp =
     (if quiet then tp
      else if \<not> tp_progress tp then console (''begin '' @ line) (tp\<lparr>tp_progress := True\<rparr>) else console (''message '' @ line) tp)"

text \<open>The main loop runs until it is told to quit.\<close>

fun main_loop_run :: "bool \<Rightarrow> txn_event list \<Rightarrow> TransactionProgress \<Rightarrow> TransactionProgress" where
  "main_loop_run quiet [] tp = tp"
| "main_loop_run quiet (e # es) tp = (if tp_quit tp then tp else main_loop_run quiet es (on_transaction_progress quiet e tp))"

text \<open>
  Waiting for a transaction. The events are those that arrive after the start; \<open>cancelled\<close> says whether the user
  interrupted.
\<close>

definition impl_transaction_get_response_sync ::
  "unit result \<Rightarrow> unit result \<Rightarrow> unit result \<Rightarrow> unit result \<Rightarrow> bool \<Rightarrow> txn_event list \<Rightarrow> bool \<Rightarrow> unit result" where
  "impl_transaction_get_response_sync object_manager failpoint connect start quiet events cancelled =
     bindR (prefix_error ''Failed to initialize object manager client'' object_manager) (\<lambda>_.
     bindR failpoint (\<lambda>_.
     bindR (prefix_error ''Failed to connect to client transaction'' connect) (\<lambda>_.
     bindR (prefix_error ''Failed to start transaction'' start) (\<lambda>_.
       let tp = main_loop_run quiet events transaction_progress_new
       in if cancelled then Inl (External ''Operation was cancelled'')
          else case tp_error tp of Some e \<Rightarrow> Inl (External e) | None \<Rightarrow> Inr ()))))"

text \<open>
  Connecting to the transaction that is active: at most five attempts. \<open>path n\<close> is the address that the sysroot shows at the \<open>n\<close>-th
  attempt, \<open>connect n\<close> the outcome of connecting to it.
\<close>

fun connect_active_loop :: "(nat \<Rightarrow> string option) \<Rightarrow> (nat \<Rightarrow> unit result) \<Rightarrow> nat \<Rightarrow> nat \<Rightarrow> gerror option \<Rightarrow> string option result" where
  "connect_active_loop path connect n_tries 0 err =
     (case err of Some e \<Rightarrow> Inl e | None \<Rightarrow> Inl (Abort ''g_propagate_error (NULL)''))"
| "connect_active_loop path connect n_tries (Suc fuel) err =
     (case path n_tries of
        None \<Rightarrow> Inr None
      | Some p \<Rightarrow>
          if p = [] then Inr None
          else case prefix_error ''Failed to connect to client transaction'' (connect n_tries) of
                 Inr _ \<Rightarrow> Inr (Some p)
               | Inl e \<Rightarrow> connect_active_loop path connect (n_tries + 1) fuel (Some e))"

definition rpmostree_transaction_connect_active :: "(nat \<Rightarrow> string option) \<Rightarrow> (nat \<Rightarrow> unit result) \<Rightarrow> string option result" where
  "rpmostree_transaction_connect_active path connect = connect_active_loop path connect 0 5 None"

text \<open>What a command does after its transaction: the exit code, and what it prints.\<close>

datatype after_txn = Nothing_more | Print_dry_run | Exit_unchanged bool | Print_diff | Finish_live

definition rpmostree_transaction_client_run :: "unit result \<Rightarrow> vardict \<Rightarrow> bool \<Rightarrow> bool \<Rightarrow> after_txn result" where
  "rpmostree_transaction_client_run response options exit_unchanged_77 has_new_default =
     bindR response (\<lambda>_.
       let opt = (\<lambda>key. vardict_lookup_bool options key False)
       in Inr (if opt ''print-interactive'' then Nothing_more
               else if opt ''dry-run'' then Print_dry_run
               else if \<not> opt ''reboot''
               then (if \<not> has_new_default then Exit_unchanged exit_unchanged_77
                     else if \<not> opt ''apply-live'' then Print_diff else Finish_live)
               else Nothing_more))"

section \<open>Agents that drive updates\<close>

text \<open>
  \<open>unit_of_pid\<close>, \<open>active_state\<close> and \<open>documentation\<close> are properties that systemd reports.
\<close>

record driver_env =
  unit_of_pid :: "string result"
  active_state :: "string \<Rightarrow> string result"
  documentation :: "string \<Rightarrow> string list result"

definition check_sd_unit_state_is_active :: "driver_env \<Rightarrow> string \<Rightarrow> bool result" where
  "check_sd_unit_state_is_active env sd_unit =
     bindR (active_state env sd_unit) (\<lambda>state. Inr (state \<in> set [''active'', ''activating'', ''reloading'', ''failed'']))"

definition check_sd_unit_contains_pid :: "driver_env \<Rightarrow> string \<Rightarrow> bool result" where
  "check_sd_unit_contains_pid env sd_unit = bindR (unit_of_pid env) (\<lambda>process_sd_unit. Inr (process_sd_unit = sd_unit))"

fun join_docs :: "string list \<Rightarrow> string" where
  "join_docs [] = []"
| "join_docs [d] = d @ [CHR 0x0A]"
| "join_docs (d # ds) = d @ '', '' @ join_docs ds"

text \<open>An error here is printed and the text is left as it is.\<close>

definition append_docs_to_str :: "driver_env \<Rightarrow> string \<Rightarrow> string \<Rightarrow> string" where
  "append_docs_to_str env str sd_unit =
     (case documentation env sd_unit of
        Inl e \<Rightarrow> str
      | Inr docs \<Rightarrow> if docs \<noteq> [] then str @ '' at '' @ join_docs docs else str @ [CHR 0x0A])"

definition error_if_driver_registered :: "driver_env \<Rightarrow> vardict option result \<Rightarrow> unit result" where
  "error_if_driver_registered env state =
     bindR (get_driver_info state) (\<lambda>info.
       case info of
         None \<Rightarrow> Inr ()
       | Some (name, sd_unit) \<Rightarrow>
           bindR (check_sd_unit_contains_pid env sd_unit) (\<lambda>contains_pid.
             if contains_pid then Inr ()
             else
               bindR (check_sd_unit_state_is_active env sd_unit) (\<lambda>is_active.
                 if \<not> is_active then Inr ()
                 else
                   let msg = ''Updates and deployments are driven by '' @ name @ '' ('' @ sd_unit @ '')'' @ [CHR 0x0A] @
                             ''See '' @ name @ [CHR 0x27] @ ''s documentation''
                   in Inl (Throw ''%s'' [append_docs_to_str env msg sd_unit @
                        ''Use --bypass-driver to bypass '' @ name @ '' and perform the operation anyways'']))))"

section \<open>A request arrives as it was meant\<close>

text \<open>The descriptors and the names that a list of package arguments stands for.\<close>

definition local_fds :: "client_env \<Rightarrow> bool \<Rightarrow> string list \<Rightarrow> int list" where
  "local_fds env is_replace pkgs =
     concat (map (\<lambda>p. case client_handle_fd_argument env p is_replace of Inr fds \<Rightarrow> fds | Inl _ \<Rightarrow> []) pkgs)"

definition repo_names :: "client_env \<Rightarrow> bool \<Rightarrow> string list \<Rightarrow> string list" where
  "repo_names env is_replace pkgs = filter (\<lambda>p. client_handle_fd_argument env p is_replace = Inr []) pkgs"

abbreviation index_range :: "nat \<Rightarrow> nat \<Rightarrow> int list" where
  "index_range i n \<equiv> map int [i..<i + n]"

lemma index_range_add: "index_range i (m + n) = index_range i m @ index_range (i + m) n"
  using upt_add_eq_append [of i "i + m" n] by (simp add: add.assoc)

lemma append_fds_result:
  "append_fds env pkg fds (l, b) = Inr (l', b') \<Longrightarrow> l' = l @ fds \<and> b' = b @ index_range (length l) (length fds)"
proof (induction fds arbitrary: l b)
  case (Cons fd fds)
  then have "append_fds env pkg fds (l @ [fd], b @ [int (length l)]) = Inr (l', b')"
    by (auto simp: g_unix_fd_list_append_def bindR_Inr_iff split: option.splits)
  from Cons.IH [OF this] show ?case by (simp add: upt_conv_Cons del: upt_Suc)
qed simp

lemma sort_pkgs_result:
  "sort_pkgs_loop env r pkgs l rp b = Inr (l', rp', b') \<Longrightarrow>
   l' = l @ local_fds env r pkgs \<and> rp' = rp @ repo_names env r pkgs \<and> b' = b @ index_range (length l) (length (local_fds env r pkgs))"
proof (induction pkgs arbitrary: l rp b)
  case (Cons pkg pkgs)
  from Cons.prems obtain fds where fds: "client_handle_fd_argument env pkg r = Inr fds" by (auto simp: bindR_Inr_iff)
  show ?case
  proof (cases "fds = []")
    case True
    with Cons.prems fds have "sort_pkgs_loop env r pkgs l (rp @ [pkg]) b = Inr (l', rp', b')" by simp
    from Cons.IH [OF this] fds True show ?thesis by (simp add: local_fds_def repo_names_def)
  next
    case False
    with Cons.prems fds obtain l1 b1 where a: "append_fds env pkg fds (l, b) = Inr (l1, b1)"
      and rest: "sort_pkgs_loop env r pkgs l1 rp b1 = Inr (l', rp', b')" by (auto simp: bindR_Inr_iff)
    from Cons.IH [OF rest] append_fds_result [OF a] fds False show ?thesis
      by (simp add: local_fds_def repo_names_def index_range_add)
  qed
qed (simp add: local_fds_def repo_names_def)

lemma insert_pkgs_result:
  assumes "vardict_sort_and_insert_pkgs env key r ps (d, l) = Inr (d', l')"
  shows "l' = l @ local_fds env r (unwrap ps) \<and>
    d' k = (if ps \<noteq> None \<and> k = key @ ''-local-packages'' then Some (GV_ah (index_range (length l) (length (local_fds env r (unwrap ps)))))
            else if repo_names env r (unwrap ps) \<noteq> [] \<and> k = key @ ''-packages'' then Some (GV_as (repo_names env r (unwrap ps)))
            else d k)"
proof (cases ps)
  case None
  with assms show ?thesis by (simp add: vardict_sort_and_insert_pkgs_def local_fds_def repo_names_def unwrap_def)
next
  case (Some pkgs)
  with assms obtain rp b where run: "sort_pkgs_loop env r pkgs l [] [] = Inr (l', rp, b)"
    and d': "d' = (if rp \<noteq> [] then d(key @ ''-packages'' \<mapsto> GV_as rp) else d)(key @ ''-local-packages'' \<mapsto> GV_ah b)"
    by (auto simp: vardict_sort_and_insert_pkgs_def rpmostree_sort_pkgs_strv_def bindR_Inr_iff Let_def)
  from sort_pkgs_result [OF run] show ?thesis unfolding d' Some by (simp add: unwrap_def)
qed

lemma insert_string_apply: "insert_string key v d k = (if k = key \<and> v \<noteq> None then map_option GV_s v else d k)"
  by (auto simp: insert_string_def split: option.splits)

lemma insert_strv_apply: "vardict_insert_strv d key v k = (if k = key \<and> unwrap v \<noteq> [] then Some (GV_as (unwrap v)) else d k)"
  by (auto simp: vardict_insert_strv_def split: option.splits list.splits)

definition repo_fd :: "client_env \<Rightarrow> string option \<Rightarrow> int option" where
  "repo_fd env path = (case path of None \<Rightarrow> None | Some p \<Rightarrow> (case open_dir env p of Inr fd \<Rightarrow> Some fd | Inl _ \<Rightarrow> None))"

lemma insert_local_repo_result:
  assumes "insert_local_repo env path (d, l) = Inr (d', l')"
  shows "l' = l @ (case repo_fd env path of Some fd \<Rightarrow> [fd] | None \<Rightarrow> []) \<and>
    d' k = (if k = ''ex-local-repo-remote'' \<and> repo_fd env path \<noteq> None then Some (GV_h (int (length l))) else d k)"
  using assms
  by (auto simp: insert_local_repo_def g_unix_fd_list_append_def repo_fd_def bindR_Inr_iff split: option.splits sum.splits)

text \<open>What the daemon finds under each key of a request that a client prepared.\<close>

lemma get_modifiers_result:
  assumes "get_modifiers_variant env a = Inr (m, fds)"
  defines "x \<equiv> local_fds env False (unwrap (ua_install a))" and "y \<equiv> local_fds env False (unwrap (ua_install_fileoverride a))"
    and "z \<equiv> local_fds env True (unwrap (ua_override_replace a))"
  shows "fds = x @ y @ z @ (case repo_fd env (ua_local_repo_remote a) of Some fd \<Rightarrow> [fd] | None \<Rightarrow> [])"
    and "lookup_ah m ''install-local-packages'' = (if ua_install a = None then None else Some (index_range 0 (length x)))"
    and "lookup_ah m ''install-fileoverride-local-packages'' =
      (if ua_install_fileoverride a = None then None else Some (index_range (length x) (length y)))"
    and "lookup_ah m ''override-replace-local-packages'' =
      (if ua_override_replace a = None then None else Some (index_range (length x + length y) (length z)))"
    and "lookup_h m ''ex-local-repo-remote'' =
      (if repo_fd env (ua_local_repo_remote a) = None then None else Some (int (length x + length y + length z)))"
    and "lookup_s m ''set-refspec'' = ua_refspec a" "lookup_s m ''set-revision'' = ua_revision a" "lookup_s m ''treefile'' = ua_treefile a"
    and "vardict_lookup_strv m ''install-packages'' = strdupv_canonicalize (Some (repo_names env False (unwrap (ua_install a))))"
    and "vardict_lookup_strv m ''install-fileoverride-packages'' =
      strdupv_canonicalize (Some (repo_names env False (unwrap (ua_install_fileoverride a))))"
    and "vardict_lookup_strv m ''override-replace-packages'' = strdupv_canonicalize (Some (repo_names env True (unwrap (ua_override_replace a))))"
    and "vardict_lookup_strv m ''uninstall-packages'' = strdupv_canonicalize (ua_uninstall a)"
    and "vardict_lookup_strv m ''override-remove-packages'' = strdupv_canonicalize (ua_override_remove a)"
    and "vardict_lookup_strv m ''override-reset-packages'' = strdupv_canonicalize (ua_override_reset a)"
proof -
  from assms(1) obtain d1 l1 d2 l2 d3 l3 d4 where
    1: "vardict_sort_and_insert_pkgs env ''install'' False (ua_install a) (Map.empty, []) = Inr (d1, l1)" and
    2: "vardict_sort_and_insert_pkgs env ''install-fileoverride'' False (ua_install_fileoverride a) (d1, l1) = Inr (d2, l2)" and
    3: "vardict_sort_and_insert_pkgs env ''override-replace'' True (ua_override_replace a) (d2, l2) = Inr (d3, l3)" and
    4: "insert_local_repo env (ua_local_repo_remote a) (vardict_insert_strv (vardict_insert_strv (vardict_insert_strv
        (insert_string ''set-revision'' (ua_revision a) (insert_string ''set-refspec'' (ua_refspec a) d3)) ''uninstall-packages'' (ua_uninstall a))
        ''override-remove-packages'' (ua_override_remove a)) ''override-reset-packages'' (ua_override_reset a), l3) = Inr (d4, fds)" and
    m: "m = insert_string ''treefile'' (ua_treefile a) d4"
    by (auto simp: get_modifiers_variant_def bindR_Inr_iff Let_def)
  note r = insert_pkgs_result [OF 1] insert_pkgs_result [OF 2] insert_pkgs_result [OF 3] insert_local_repo_result [OF 4]
  have l: "l1 = x" "l2 = x @ y" "l3 = x @ y @ z" using r by (simp_all add: x_def y_def z_def)
  note apply_simps = m insert_string_apply insert_strv_apply
  have at: "d1 k = (if ua_install a \<noteq> None \<and> k = ''install-local-packages'' then Some (GV_ah (index_range 0 (length x)))
      else if repo_names env False (unwrap (ua_install a)) \<noteq> [] \<and> k = ''install-packages'' then Some (GV_as (repo_names env False (unwrap (ua_install a)))) else None)"
    "d2 k = (if ua_install_fileoverride a \<noteq> None \<and> k = ''install-fileoverride-local-packages'' then Some (GV_ah (index_range (length x) (length y)))
      else if repo_names env False (unwrap (ua_install_fileoverride a)) \<noteq> [] \<and> k = ''install-fileoverride-packages''
      then Some (GV_as (repo_names env False (unwrap (ua_install_fileoverride a)))) else d1 k)"
    "d3 k = (if ua_override_replace a \<noteq> None \<and> k = ''override-replace-local-packages'' then Some (GV_ah (index_range (length x + length y) (length z)))
      else if repo_names env True (unwrap (ua_override_replace a)) \<noteq> [] \<and> k = ''override-replace-packages''
      then Some (GV_as (repo_names env True (unwrap (ua_override_replace a)))) else d2 k)" for k
    using r [of k] l by (simp_all add: x_def y_def z_def)
  have d4: "d4 k = (if k = ''ex-local-repo-remote'' \<and> repo_fd env (ua_local_repo_remote a) \<noteq> None then Some (GV_h (int (length x + length y + length z)))
      else (vardict_insert_strv (vardict_insert_strv (vardict_insert_strv
        (insert_string ''set-revision'' (ua_revision a) (insert_string ''set-refspec'' (ua_refspec a) d3)) ''uninstall-packages'' (ua_uninstall a))
        ''override-remove-packages'' (ua_override_remove a)) ''override-reset-packages'' (ua_override_reset a)) k)" for k
    using conjunct2 [OF r(4) [of k]] l(3) by (simp only: length_append add.assoc)
  show "fds = x @ y @ z @ (case repo_fd env (ua_local_repo_remote a) of Some fd \<Rightarrow> [fd] | None \<Rightarrow> [])"
    using r(4) l by simp
  note lookups = lookup_ah_def lookup_h_def lookup_s_def vardict_lookup_strv_def
  show "lookup_ah m ''install-local-packages'' = (if ua_install a = None then None else Some (index_range 0 (length x)))"
    by (simp add: lookups apply_simps d4 at)
  show "lookup_ah m ''install-fileoverride-local-packages'' =
      (if ua_install_fileoverride a = None then None else Some (index_range (length x) (length y)))"
    by (simp add: lookups apply_simps d4 at)
  show "lookup_ah m ''override-replace-local-packages'' =
      (if ua_override_replace a = None then None else Some (index_range (length x + length y) (length z)))"
    by (simp add: lookups apply_simps d4 at)
  show "lookup_h m ''ex-local-repo-remote'' =
      (if repo_fd env (ua_local_repo_remote a) = None then None else Some (int (length x + length y + length z)))"
    by (simp add: lookups apply_simps d4 at)
  show "lookup_s m ''set-refspec'' = ua_refspec a" by (cases "ua_refspec a") (simp_all add: lookups apply_simps d4 at)
  show "lookup_s m ''set-revision'' = ua_revision a" by (cases "ua_revision a") (simp_all add: lookups apply_simps d4 at)
  show "lookup_s m ''treefile'' = ua_treefile a" by (cases "ua_treefile a") (simp_all add: lookups apply_simps d4 at)
  have canon: "strdupv_canonicalize v = (if unwrap v = [] then None else Some (unwrap v))" for v
    by (auto simp: strdupv_canonicalize_def unwrap_def split: option.splits list.splits)
  show "vardict_lookup_strv m ''install-packages'' = strdupv_canonicalize (Some (repo_names env False (unwrap (ua_install a))))"
    "vardict_lookup_strv m ''install-fileoverride-packages'' =
      strdupv_canonicalize (Some (repo_names env False (unwrap (ua_install_fileoverride a))))"
    "vardict_lookup_strv m ''override-replace-packages'' = strdupv_canonicalize (Some (repo_names env True (unwrap (ua_override_replace a))))"
    "vardict_lookup_strv m ''uninstall-packages'' = strdupv_canonicalize (ua_uninstall a)"
    "vardict_lookup_strv m ''override-remove-packages'' = strdupv_canonicalize (ua_override_remove a)"
    "vardict_lookup_strv m ''override-reset-packages'' = strdupv_canonicalize (ua_override_reset a)"
    by (simp_all add: lookups apply_simps d4 at canon)
qed

lemma sparse_range:
  assumes "i + n \<le> length fds"
  shows "get_fd_array_from_sparse fds (index_range i n) = Inr (take n (drop i fds))"
proof -
  have "map (\<lambda>h. fds ! nat h) (index_range i n) = take n (drop i fds)"
    using assms by (intro nth_equalityI) (simp_all add: nat_int_add)
  moreover have "list_all (\<lambda>h. 0 \<le> h \<and> h < int (length fds)) (index_range i n)"
    using assms by (auto simp: list_all_iff)
  ultimately show ?thesis by (simp add: sparse_fds)
qed

lemma split_prepared:
  assumes m: "get_modifiers_variant env a = Inr (m, fds)"
    and t: "dr_modifiers t = m" "dr_fds t = (if fds = [] then None else Some fds)"
  defines "x \<equiv> local_fds env False (unwrap (ua_install a))" and "y \<equiv> local_fds env False (unwrap (ua_install_fileoverride a))"
    and "z \<equiv> local_fds env True (unwrap (ua_override_replace a))"
  shows "expected_fdn t = length fds"
    and "\<exists>i f r. split_fds t = Inr (i, f, r, repo_fd env (ua_local_repo_remote a)) \<and> unwrap i = x \<and> unwrap f = y \<and> unwrap r = z"
proof -
  note res = get_modifiers_result [OF m, folded x_def y_def z_def]
  have empty: "ua_install a = None \<Longrightarrow> x = []" "ua_install_fileoverride a = None \<Longrightarrow> y = []" "ua_override_replace a = None \<Longrightarrow> z = []"
    by (simp_all add: x_def y_def z_def local_fds_def unwrap_def)
  show "expected_fdn t = length fds"
    using empty by (auto simp: expected_fdn_def Let_def t(1) res(1-5) split: option.split)
  show "\<exists>i f r. split_fds t = Inr (i, f, r, repo_fd env (ua_local_repo_remote a)) \<and> unwrap i = x \<and> unwrap f = y \<and> unwrap r = z"
  proof (cases "fds = []")
    case True
    with res(1) have "x = []" "y = []" "z = []" "repo_fd env (ua_local_repo_remote a) = None" by (auto split: option.splits)
    with True show ?thesis by (auto simp: split_fds_def t(2) unwrap_def)
  next
    case False
    define c where "c = (case repo_fd env (ua_local_repo_remote a) of Some fd \<Rightarrow> [fd] | None \<Rightarrow> [])"
    have fds: "fds = x @ y @ z @ c" using res(1) by (simp add: c_def)
    have sp: "get_fd_array_from_sparse fds (index_range 0 (length x)) = Inr x"
      "get_fd_array_from_sparse fds (index_range (length x) (length y)) = Inr y"
      "get_fd_array_from_sparse fds (index_range (length x + length y) (length z)) = Inr z"
      using sparse_range [of 0 "length x" fds] sparse_range [of "length x" "length y" fds] sparse_range [of "length x + length y" "length z" fds]
      by (simp_all add: fds)
    have repo: "fds ! (length x + length y + length z) = fd" "length x + length y + length z < length fds"
      if "repo_fd env (ua_local_repo_remote a) = Some fd" for fd
      using that nth_append_length [of "x @ y @ z" fd "[]"] by (simp_all add: fds c_def add.assoc)
    show ?thesis
      using False empty sp repo
      by (cases "ua_install a"; cases "ua_install_fileoverride a"; cases "ua_override_replace a"; cases "repo_fd env (ua_local_repo_remote a)")
        (simp_all add: split_fds_def t Let_def res(2-5) unwrap_def del: of_nat_add)
  qed
qed


section \<open>Following and refusing\<close>

text \<open>The events that end the main loop.\<close>

fun final_event :: "txn_event \<Rightarrow> bool" where
  "final_event (Finished_signal _ _) = True"
| "final_event Owner_changed = True"
| "final_event _ = False"

lemma progress_keeps:
  "\<not> final_event e \<Longrightarrow> tp_error (on_transaction_progress quiet e tp) = tp_error tp \<and> tp_quit (on_transaction_progress quiet e tp) = tp_quit tp"
  by (cases e) (auto simp: console_end_def)

lemma main_loop_skip:
  "\<forall>e\<in>set es. \<not> final_event e \<Longrightarrow> \<not> tp_quit tp \<Longrightarrow>
   \<exists>tp'. main_loop_run quiet (es @ e # fs) tp = main_loop_run quiet (e # fs) tp' \<and> tp_error tp' = tp_error tp \<and> \<not> tp_quit tp'"
  by (induction es arbitrary: tp) (use progress_keeps in force)+

lemma main_loop_stops: "tp_quit tp \<Longrightarrow> main_loop_run quiet es tp = tp"
  by (cases es) simp_all


lemma connect_active_loop_safe:
  assumes "\<And>n. safe (connect n)" "err \<noteq> None \<or> 0 < fuel" "\<And>e. err = Some e \<Longrightarrow> safe (Inl e :: unit result)"
  shows "safe (connect_active_loop path connect n fuel err)"
  using assms(2,3)
proof (induction fuel arbitrary: n err)
  case 0
  then show ?case by (auto simp: safe_def)
next
  case (Suc fuel)
  show ?case
  proof (cases "prefix_error ''Failed to connect to client transaction'' (connect n)")
    case (Inl e)
    moreover have "safe (Inl e :: unit result)" using assms(1) [of n] Inl by (cases "connect n"; cases e) (auto simp: safe_def)
    ultimately show ?thesis using Suc.IH [of "Some e"] by (auto simp: safe_def split: option.splits)
  qed (auto simp: safe_def split: option.splits)
qed

text \<open>
  An agent that registered itself through a transaction keeps other commands from changing the system as long as its
  unit is active: they are refused, except inside the unit of the agent.
\<close>

theorem registered_driver_blocks:
  assumes "record_driver_info w (Some driver) (Some sd_unit) s = (Inr dict, s')"
    and "unit_of_pid env = Inr own_unit" "active_state env sd_unit = Inr state"
  shows "error_if_driver_registered env (Inr (Some dict)) = Inr () \<longleftrightarrow>
    own_unit = sd_unit \<or> state \<notin> {''active'', ''activating'', ''reloading'', ''failed''}"
  using driver_info_roundtrip [OF assms(1)] assms(2,3)
  by (simp add: error_if_driver_registered_def check_sd_unit_contains_pid_def check_sd_unit_state_is_active_def Let_def)

section \<open>Examples\<close>

definition demo_client :: client_env where
  "demo_client = \<lparr>fedora_handle = (\<lambda>_ _. Inr None), download_url = (\<lambda>_. Inr 9), open_file = (\<lambda>p. Inr (int (length p))),
     open_dir = (\<lambda>_. Inr 5), dup_error = (\<lambda>_. None)\<rparr>"

definition demo_args :: update_args where
  "demo_args = \<lparr>ua_refspec = None, ua_revision = None, ua_install = Some [''vim'', ''a.rpm''], ua_install_fileoverride = None,
     ua_uninstall = Some [''nano''], ua_override_replace = Some [''bb.rpm''], ua_override_remove = None, ua_override_reset = None,
     ua_local_repo_remote = None, ua_treefile = None\<rparr>"

lemma demo_modifiers:
  "get_modifiers_variant demo_client demo_args =
     Inr ([''install-packages'' \<mapsto> GV_as [''vim''], ''install-local-packages'' \<mapsto> GV_ah [0], ''override-replace-local-packages'' \<mapsto> GV_ah [1],
       ''uninstall-packages'' \<mapsto> GV_as [''nano'']], [5, 6])"
  by (simp add: get_modifiers_variant_def demo_client_def demo_args_def vardict_sort_and_insert_pkgs_def rpmostree_sort_pkgs_strv_def
      client_handle_fd_argument_def is_src_rpm_arg_def is_http_arg_def is_rpm_arg_def has_end_def g_unix_fd_list_append_def
      insert_string_def insert_local_repo_def vardict_insert_strv_def Let_def)



definition demo_driver_env :: driver_env where
  "demo_driver_env = \<lparr>unit_of_pid = Inr ''session.scope'', active_state = (\<lambda>_. Inr ''active''), documentation = (\<lambda>_. Inr [])\<rparr>"

theorem registered_driver_blocks_witness:
  "error_if_driver_registered demo_driver_env (Inr (Some [''driver-name'' \<mapsto> GV_s ''Zincati'', ''driver-sd-unit'' \<mapsto> GV_s ''zincati.service''])) \<noteq> Inr ()"
proof -
  let ?d = "[''driver-name'' \<mapsto> GV_s ''Zincati'', ''driver-sd-unit'' \<mapsto> GV_s ''zincati.service'']"
  obtain s' where "record_driver_info quiet_world (Some ''Zincati'') (Some ''zincati.service'') demo_worker = (Inr ?d, s')"
    by (simp add: record_driver_info_def calm_world_def call_defs)
  from registered_driver_blocks [OF this, of demo_driver_env] show ?thesis by (simp add: demo_driver_env_def)
qed

end
