(* ===== verification/Spec2Isabelle.thy ===== *)
theory Spec2Isabelle
  imports Pkg_Db Sysroot_State Txn_Props Client
begin

text \<open>
  \<^bold>\<open>rpm-ostree\<close> manages an operating system as a sequence of deployments: bootable trees made from a base commit and from
  packages layered on it. A privileged daemon (\<^verbatim>\<open>src/src/daemon\<close>) owns the system and is driven over D-Bus; the command line
  client (\<^verbatim>\<open>src/src/app\<close>) sends requests to it; \<^verbatim>\<open>src/src/libpriv\<close> and \<^verbatim>\<open>src/src/lib\<close> are shared libraries, and parts of both sides are
  written in Rust (\<^verbatim>\<open>src/rust/src\<close>).

  \<^bold>\<open>How the parts interact.\<close> The client turns its arguments into two dictionaries and a list of file descriptors and calls a
  method of the OS object. The daemon asks polkit, joins a compatible transaction or creates a new one, and takes the lock of the
  sysroot. When the client has connected to the private address of the transaction and called \<open>Start\<close>, a worker thread executes it.
  A deploy transaction reads the request again, changes the origin of the merge deployment, lets the upgrader pull the base and
  layer packages, and stages or writes the result. The daemon then notices the change and publishes the new deployments.

  \<^bold>\<open>Conventions.\<close> A function that can fail returns \<open>'a result\<close>, that is \<open>gerror + 'a\<close>; \<open>Abort\<close> is the failure of an assertion, which
  stops the process, and \<open>safe\<close> says that a result is not one. Code that changes an object takes and returns a record. Dictionaries
  are maps from keys to \<open>gvariant\<close>. Machine integers are words where they can wrap. Code of libostree, libdnf, polkit, systemd and the
  kernel is a parameter: a field of an environment record, or, for code with many effects, an event of a history that
  a \<open>world\<close> answers (theory \<open>Effects\<close>). No hypothesis about such code is made except where a theorem states it.

  \<^bold>\<open>Theories.\<close>
  \<^item> \<open>RO_Prelude\<close>: errors, C strings, comparison functions (locale \<open>comparator\<close>), event machines (locale \<open>safe_machine\<close>).
  \<^item> \<open>Nevra\<close> (\<^verbatim>\<open>rpmostree-rpm-util.cxx\<close>, \<^verbatim>\<open>rpmutils.rs\<close>): package identifiers and cache branches. The quoting is an instance of the locale
    \<open>prefix_code\<close>; encoding and decoding are inverse.
  \<^item> \<open>Util\<close> (\<^verbatim>\<open>rpmostree-util.cxx\<close>): versions, binary search, policies, layering metadata, the migration of the package cache.
  \<^item> \<open>Pkg_Diff\<close>, \<open>Pkg_Db\<close> (\<^verbatim>\<open>rpmostree-package.c\<close>, \<^verbatim>\<open>rpmostree-db.c\<close>, \<^verbatim>\<open>rpmostree-package-variants.cxx\<close>): differences of package lists and
    their two renderings, which classify alike.
  \<^item> \<open>Requests\<close>, \<open>Authorize\<close>: what a call carries, and which calls are let through.
  \<^item> \<open>Daemon\<close>, \<open>Transaction\<close>, \<open>Daemon_Machine\<close> (\<^verbatim>\<open>rpmostreed-daemon.cxx\<close>, \<^verbatim>\<open>rpmostreed-transaction.cxx\<close>, \<^verbatim>\<open>rpmostreed-sysroot.cxx\<close>): clients,
    timers, the life of a transaction, and the daemon as a machine whose events are calls, peers, the worker thread and timers. One
    invariant gives that no assertion fails, that the lock is held exactly as long as a transaction is unfinished, and that
    an executed transaction is closed.
  \<^item> \<open>Os_Interface\<close> (\<^verbatim>\<open>rpmostreed-os.cxx\<close>, \<^verbatim>\<open>rpmostreed-os-experimental.cxx\<close>): the methods that start a transaction, as steps of that machine.
    Every call is answered, and a transaction is started only with the authorization for its kind.
  \<^item> \<open>Status_Variants\<close> (\<^verbatim>\<open>rpmostreed-deployment-utils.cxx\<close>, \<^verbatim>\<open>daemon.rs\<close>, \<^verbatim>\<open>deployment_utils.rs\<close>): what is told about deployments and updates.
  \<^item> \<open>Sysroot_State\<close> (\<^verbatim>\<open>rpmostreed-sysroot.cxx\<close>, \<^verbatim>\<open>rpmostreed-os.cxx\<close>): the published objects and how a reload keeps them in step with the
    deployments.
  \<^item> \<open>Deployments\<close> (\<^verbatim>\<open>rpmostree-sysroot-core.cxx\<close>): which deployments and which refs are kept.
  \<^item> \<open>Origin\<close> (\<^verbatim>\<open>rpmostree-origin.cxx\<close>, \<^verbatim>\<open>treefile.rs\<close>): the request of the user. The operations are the steps of the relation
    \<open>origin_step\<close>, which keeps \<open>origin_ok\<close>.
  \<^item> \<open>Effects\<close>: programs over a history of outside calls. The locale \<open>program_logic\<close> has the rules for composing statements about them;
    it is interpreted for what a program may do (\<open>quiet\<close>), for the absence of failing assertions (\<open>safely\<close>) and for what it returns
    (\<open>yields\<close>).
  \<^item> \<open>Repo_Utils\<close> (\<^verbatim>\<open>rpmostreed-utils.cxx\<close>): refspecs and the search of a branch for a version.
  \<^item> \<open>Upgrader\<close>, \<open>Upgrader_Trace\<close> (\<^verbatim>\<open>rpmostree-sysroot-upgrader.cxx\<close>): from an origin to a deployment.
  \<^item> \<open>Deploy_Txn\<close>, \<open>Deploy_Props\<close>, \<open>Txn_Execute\<close>, \<open>Txn_Props\<close> (\<^verbatim>\<open>rpmostreed-transaction-types.cxx\<close>, \<^verbatim>\<open>rpmostreed-transaction-applylive.cxx\<close>): what
    the worker thread does for each kind of transaction, what it writes and when it reboots.
  \<^item> \<open>Client\<close> (\<^verbatim>\<open>rpmostree-clientlib.cxx\<close>, \<^verbatim>\<open>client.rs\<close>): preparing a request, following a transaction, the check for a driver of updates.
  \<^item> This theory follows a call from the client to the disk.

  \<^bold>\<open>Loops.\<close> Loops over arrays are structural. The search of an ancestry (\<open>pull_passes\<close>) needs no fuel: its batches double in size
  from 10, and the process stops when the size leaves the range of \<open>int\<close>, so there are fewer than 30 of them. The walk over
  cached commits (\<open>cached_walk\<close>) has no bound in the code: it is a \<open>partial_function\<close>, shown to end on every finite history.
  A client that joins a running transaction tries five times, as in the code; \<open>connect_active_loop\<close> counts these tries down.

  \<^bold>\<open>Not modelled.\<close>
  \<^item> The layering engine (\<^verbatim>\<open>rpmostree-core.cxx\<close>, \<^verbatim>\<open>rpmostree-importer.cxx\<close>, \<^verbatim>\<open>rpmostree-scripts.cxx\<close>, \<^verbatim>\<open>rpmostree-kernel.cxx\<close>,
    \<^verbatim>\<open>rpmostree-postprocess.cxx\<close>): sequences of calls into libdnf, librpm, libarchive and the file system. The upgrader calls it as one
    outside call per step, which may fail or succeed in any way.
  \<^item> Server side composition (\<^verbatim>\<open>rpmostree-compose-builtin-tree.cxx\<close>), the printing and option parsing of the commands, the polkit agent,
    and the wrappers around bus connections and the terminal.
  \<^item> Methods of the OS object that only read data: package searches, cached differences and boot entries.
  \<^item> Progress messages, the redirection of output, file monitors and reference counting of objects. Memory is never exhausted.
  \<^item> Parsing and printing of key files and treefiles: an origin is given as its parsed contents.
\<close>

section \<open>From a call to its effects\<close>

lemma authorized_call:
  assumes "os_method_call auth c osname sr fds m d = Inr d'" "txn d = None" "txn d' = Some t"
  shows "rpmostreed_os_iface c osname sr fds m d = Inr d'"
  using assms by (auto simp: os_method_call_def split: sum.splits)

text \<open>
  C7: checking for updates has no effect on the system. When the automatic update policy is \<open>check\<close>, the transaction that the
  daemon starts writes no deployment and does not reboot, whatever options come with the call, whatever the repositories contain
  and whatever fails.
\<close>

theorem auto_update_check_writes_nothing:
  assumes "reachable d" "txn d = None" "inv_method (oc_invocation c) = ''AutomaticUpdateTrigger''"
    and "auto_update_policy_for options d = Inr POLICY_CHECK"
    and "os_method_call auth c osname sr fds (M_AutomaticUpdateTrigger options) d = Inr d'" "txn d' = Some t"
    and "class_execute w ops download_filelists osname agent_id sd_unit (t_kind t) s = (r, s')"
  shows "sysroot s' = sysroot s \<and> (\<exists>es. history s' = history s @ es \<and> list_all (\<lambda>e. \<not> writes_deployments e \<and> e \<noteq> Reboot) es)"
proof -
  have inv: "invariant d" using assms(1) by (rule machine.reach_invariant)
  have "os_handle_automatic_update_trigger c osname sr options d = Inr d'" using authorized_call [OF assms(5,2,6)] by simp
  from automatic_update_txn [OF inv _ this assms(2,6)] obtain dfault options' where
    "t_kind t = rpmostreed_transaction_new_deploy dfault options' None None" "dfault = DEPLOY_FLAG_DOWNLOAD_METADATA_ONLY"
    using assms(3,4) by (auto split: if_splits)
  then obtain flags where "t_kind t = Deploy flags options' Map.empty None" "has_flag flags DEPLOY_FLAG_DOWNLOAD_METADATA_ONLY"
    using deploy_flags_from_options_bits by (auto simp: rpmostreed_transaction_new_deploy_def has_flag_def)
  then show ?thesis using assms(7) by (intro stops_early) (auto simp: class_execute_def Let_def)
qed

text \<open>The arguments of \<^verbatim>\<open>rpm-ostree install\<close>.\<close>

definition install_args :: "string list \<Rightarrow> update_args" where
  "install_args pkgs = \<lparr>ua_refspec = None, ua_revision = None, ua_install = Some pkgs, ua_install_fileoverride = None,
     ua_uninstall = None, ua_override_replace = None, ua_override_remove = None, ua_override_reset = None,
     ua_local_repo_remote = None, ua_treefile = None\<rparr>"


section \<open>Examples\<close>

definition root_caller :: auth_env where
  "root_caller = lenient_polkit\<lparr>get_connection_unix_user := (\<lambda>_. Inr 0)\<rparr>"

lemma root_authorized: "os_authorize_method root_caller method sender modifiers options = Inr ()"
  unfolding os_authorize_method_iff by (simp add: directly_authorized_def root_caller_def lenient_polkit_def)

lemma demo_starts:
  "\<exists>d' t. os_method_call root_caller (demo_call ''AutomaticUpdateTrigger'') ''fedora'' demo_sysroot None
     (M_AutomaticUpdateTrigger [''mode'' \<mapsto> GV_s ''check'']) demo_start = Inr d' \<and> txn d' = Some t"
  "\<exists>d' t. os_method_call root_caller (demo_call ''UpdateDeployment'') ''fedora'' demo_sysroot None
     (M_UpdateDeployment m options) demo_start = Inr d' \<and> txn d' = Some t"
  "txn demo_start = None"
proof -
  obtain st where st: "demo_start = fresh_daemon\<lparr>running := True, idle_exit_source := Some 1, rerender_status_id := 2,
     sources := [(2, Rerender_Status), (1, Idle_Exit 60)], next_id := 3, status := st\<rparr>"
    using demo_start_run(2) by blast
  note evals = connect_closed_def has_flag_def os_method_call_def root_authorized demo_call_def os_merge_or_start_deployment_txn_def start_or_join_def machine_evals
  show "\<exists>d' t. os_method_call root_caller (demo_call ''AutomaticUpdateTrigger'') ''fedora'' demo_sysroot None
     (M_AutomaticUpdateTrigger [''mode'' \<mapsto> GV_s ''check'']) demo_start = Inr d' \<and> txn d' = Some t"
    unfolding st by (simp add: os_handle_automatic_update_trigger_def demo_sysroot_def mk_deployment_def auto_update_policy_for_def lookup_s_def
        rpmostree_str_to_auto_update_policy_def evals)
  show "\<exists>d' t. os_method_call root_caller (demo_call ''UpdateDeployment'') ''fedora'' demo_sysroot None
     (M_UpdateDeployment m options) demo_start = Inr d' \<and> txn d' = Some t"
    unfolding st by (simp add: os_handle_update_deployment_def evals)
  show "txn demo_start = None" by (simp add: st fresh_daemon_def)
qed

theorem auto_update_check_writes_nothing_witness:
  "\<exists>d' t. os_method_call root_caller (demo_call ''AutomaticUpdateTrigger'') ''fedora'' demo_sysroot None
     (M_AutomaticUpdateTrigger [''mode'' \<mapsto> GV_s ''check'']) demo_start = Inr d' \<and> txn d' = Some t \<and>
   sysroot (snd (class_execute calm_world list_kargs None ''fedora'' None None (t_kind t) demo_worker)) = demo_sysroot"
proof -
  obtain d' t where d': "os_method_call root_caller (demo_call ''AutomaticUpdateTrigger'') ''fedora'' demo_sysroot None
     (M_AutomaticUpdateTrigger [''mode'' \<mapsto> GV_s ''check'']) demo_start = Inr d'" "txn d' = Some t"
    using demo_starts(1) by blast
  have policy: "auto_update_policy_for [''mode'' \<mapsto> GV_s ''check''] demo_start = Inr POLICY_CHECK"
    by (simp add: auto_update_policy_for_def lookup_s_def rpmostree_str_to_auto_update_policy_def)
  have "inv_method (oc_invocation (demo_call ''AutomaticUpdateTrigger'')) = ''AutomaticUpdateTrigger''" by (simp add: demo_call_def)
  from auto_update_check_writes_nothing [OF demo_start_reachable demo_starts(3) this policy d', of calm_world list_kargs None None None demo_worker, OF prod.collapse [symmetric]] d'
  show ?thesis by (auto simp: demo_worker_def)
qed


end
